(* ===== verification/Prelude.thy ===== *)
theory Prelude
  imports Main "HOL-Library.Multiset"
begin

text \<open>
  What every component shares: the collections of the development, the Go runtime
  facilities the program relies on (64-bit integers, instants and durations, error values,
  runes of a string, slicing, the remainder of integers), the readers-writer lock as one
  goroutine sees it, and generic lemmas on lists and maps.
\<close>

named_theorems go_simps \<open>unfolding equations of the Go runtime functions\<close>
named_theorems status_simps \<open>the string constants of the program\<close>
named_theorems laws \<open>consequences of the contracts of the external services\<close>

section \<open>Integers\<close>

text \<open>Go's \<open>int\<close> and \<open>int64\<close> are 64 bits wide and wrap around.\<close>

definition int64 :: "int \<Rightarrow> int" where
  "int64 x = (x + 2 ^ 63) mod 2 ^ 64 - 2 ^ 63"

definition in_int64 :: "int \<Rightarrow> bool" where
  "in_int64 x \<longleftrightarrow> - (2 ^ 63) \<le> x \<and> x < 2 ^ 63"

lemma int64_id [simp]: "in_int64 x \<Longrightarrow> int64 x = x"
  by (simp add: int64_def in_int64_def)

lemma in_int64_int64 [simp]: "in_int64 (int64 x)"
  by (simp add: int64_def in_int64_def)

lemma int64_small: "0 \<le> x \<Longrightarrow> x < 2 ^ 63 \<Longrightarrow> int64 x = x"
  by (rule int64_id) (simp add: in_int64_def)

text \<open>The remainder \<open>%\<close> truncates towards zero: its sign is that of the dividend.\<close>

definition go_rem :: "int \<Rightarrow> int \<Rightarrow> int" where
  "go_rem a b = sgn a * (\<bar>a\<bar> mod \<bar>b\<bar>)"

lemma go_rem_nonneg: "0 \<le> a \<Longrightarrow> 0 < b \<Longrightarrow> go_rem a b = a mod b"
  by (cases "a = 0") (simp_all add: go_rem_def)

text \<open>The quotient \<open>/\<close> truncates towards zero too.\<close>

definition go_quot :: "int \<Rightarrow> int \<Rightarrow> int" where
  "go_quot a b = sgn a * sgn b * (\<bar>a\<bar> div \<bar>b\<bar>)"

lemma go_quot_nonneg: "0 \<le> a \<Longrightarrow> 0 < b \<Longrightarrow> go_quot a b = a div b"
  by (cases "a = 0") (simp_all add: go_quot_def)

lemma go_quot_neg: "a \<le> 0 \<Longrightarrow> 0 < b \<Longrightarrow> go_quot a b \<le> 0"
  by (cases "a = 0") (simp_all add: go_quot_def pos_imp_zdiv_nonneg_iff)

section \<open>Instants and durations\<close>

text \<open>
  A \<open>time.Time\<close> is the instant it denotes, in nanoseconds since the Unix epoch (the
  location and the monotonic reading are left out); a \<open>time.Duration\<close> is its number
  of nanoseconds.
\<close>

type_synonym gtime = int
type_synonym duration = int

abbreviation millis :: "int \<Rightarrow> duration" where
  "millis n \<equiv> n * 1000000"

abbreviation seconds :: "int \<Rightarrow> duration" where
  "seconds n \<equiv> n * 1000000000"

text \<open>The zero \<open>time.Time\<close> is January 1 of year 1, 62135596800 seconds before the epoch.\<close>

definition zero_time :: gtime where
  "zero_time = - 62135596800000000000"

definition IsZero_time :: "gtime \<Rightarrow> bool" where
  "IsZero_time t \<longleftrightarrow> t = zero_time"

text \<open>\<open>t.Sub(u)\<close>, and so \<open>time.Since\<close>, saturates at the range of a duration.\<close>

definition time_Sub :: "gtime \<Rightarrow> gtime \<Rightarrow> duration" where
  "time_Sub t u = max (- (2 ^ 63)) (min (2 ^ 63 - 1) (t - u))"

text \<open>\<open>t.Unix()\<close> counts whole seconds, rounded down.\<close>

definition time_Unix :: "gtime \<Rightarrow> int" where
  "time_Unix t = t div 1000000000"

lemma time_Sub_less: "d \<le> 2 ^ 63 - 1 \<Longrightarrow> - (2 ^ 63) < d \<Longrightarrow> time_Sub t u < d \<longleftrightarrow> t - u < d"
  by (auto simp: time_Sub_def)

lemma time_Sub_greater: "d < 2 ^ 63 - 1 \<Longrightarrow> - (2 ^ 63) \<le> d \<Longrightarrow> d < time_Sub t u \<longleftrightarrow> d < t - u"
  by (auto simp: time_Sub_def)

lemma time_Sub_self [simp]: "time_Sub t t = 0"
  by (simp add: time_Sub_def)

lemma time_Unix_mono: "t \<le> u \<Longrightarrow> time_Unix t \<le> time_Unix u"
  by (simp add: time_Unix_def zdiv_mono1)

section \<open>Errors\<close>

text \<open>
  The error values of the program: those of the drivers, those built with
  \<open>fmt.Errorf\<close> from a text, and those that wrap another error with \<open>%w\<close>.
\<close>

datatype goerr =
    DriverErr string
  | RedisNil
  | ErrNoDocuments
  | Errorf string
  | Wrap string goerr

type_synonym 'a res = "goerr + 'a"

fun Error :: "goerr \<Rightarrow> string" where
  "Error (DriverErr s) = s"
| "Error RedisNil = ''redis: nil''"
| "Error ErrNoDocuments = ''mongo: no documents in result''"
| "Error (Errorf s) = s"
| "Error (Wrap s e) = s @ '': '' @ Error e"

definition is_ok :: "'a res \<Rightarrow> bool" where
  "is_ok r = (case r of Inl _ \<Rightarrow> False | Inr _ \<Rightarrow> True)"

lemma is_ok_simps [simp]: "is_ok (Inr x)" "\<not> is_ok (Inl e)"
  by (simp_all add: is_ok_def)

lemma is_ok_iff: "is_ok r \<longleftrightarrow> (\<exists>x. r = Inr x)"
  by (cases r) simp_all

section \<open>Strings\<close>

text \<open>
  \<open>strings.TrimPrefix\<close>, and the slice \<open>s[n:]\<close>, which panics (None) when \<open>n\<close>
  is beyond the end.
\<close>

definition TrimPrefix :: "string \<Rightarrow> string \<Rightarrow> string" where
  "TrimPrefix s p = (if take (length p) s = p then drop (length p) s else s)"

definition slice_from :: "string \<Rightarrow> nat \<Rightarrow> string option" where
  "slice_from s n = (if n \<le> length s then Some (drop n s) else None)"

lemma TrimPrefix_append [simp]: "TrimPrefix (p @ s) p = s"
  by (simp add: TrimPrefix_def)

lemma TrimPrefix_same_iff:
  "p \<noteq> [] \<Longrightarrow> TrimPrefix s p = s \<longleftrightarrow> take (length p) s \<noteq> p"
proof -
  assume p: "p \<noteq> []"
  have "drop (length p) s \<noteq> s" if "take (length p) s = p"
  proof
    assume "drop (length p) s = s"
    then have "length s - length p = length s" by (metis length_drop)
    with p have "s = []" by (cases p; cases s) auto
    with p that show False by simp
  qed
  then show ?thesis by (auto simp: TrimPrefix_def)
qed

text \<open>A natural number in decimal, as \<open>%d\<close> prints it, and its value read back.\<close>

fun show_nat :: "nat \<Rightarrow> string" where
  "show_nat n = (if n < 10 then [char_of (48 + n)] else show_nat (n div 10) @ [char_of (48 + n mod 10)])"

declare show_nat.simps [simp del]

definition read_nat :: "string \<Rightarrow> nat" where
  "read_nat s = foldl (\<lambda>a c. a * 10 + (of_char c - 48)) 0 s"

lemma read_show_nat [simp]: "read_nat (show_nat n) = n"
proof (induction n rule: show_nat.induct)
  case (1 n)
  show ?case
  proof (cases "n < 10")
    case True
    then show ?thesis by (subst show_nat.simps) (simp add: read_nat_def)
  next
    case False
    with "1" have "read_nat (show_nat (n div 10)) = n div 10" by simp
    with False show ?thesis by (subst show_nat.simps) (simp add: read_nat_def)
  qed
qed

lemma show_nat_inject [simp]: "show_nat m = show_nat n \<longleftrightarrow> m = n"
  by (metis read_show_nat)

text \<open>
  The \<open>range\<close> loop over a string yields its runes: the UTF-8 sequences decoded, and
  U+FFFD for every byte that starts no valid sequence (overlong forms, surrogates and
  values above U+10FFFF are not valid).
\<close>

definition cont_byte :: "int \<Rightarrow> bool" where
  "cont_byte b \<longleftrightarrow> 128 \<le> b \<and> b < 192"

definition second_ok :: "int \<Rightarrow> int \<Rightarrow> bool" where
  "second_ok b c \<longleftrightarrow>
     (if b = 224 then 160 \<le> c \<and> c < 192
      else if b = 237 then 128 \<le> c \<and> c < 160
      else if b = 240 then 144 \<le> c \<and> c < 192
      else if b = 244 then 128 \<le> c \<and> c < 144
      else cont_byte c)"

fun decode_runes :: "int list \<Rightarrow> int list" where
  "decode_runes [] = []"
| "decode_runes (b # bs) =
     (if b < 128 then b # decode_runes bs
      else case bs of
        c # cs \<Rightarrow>
          if 194 \<le> b \<and> b < 224 \<and> cont_byte c then
            ((b - 192) * 64 + (c - 128)) # decode_runes cs
          else (case cs of
            d # ds \<Rightarrow>
              if 224 \<le> b \<and> b < 240 \<and> second_ok b c \<and> cont_byte d then
                ((b - 224) * 4096 + (c - 128) * 64 + (d - 128)) # decode_runes ds
              else (case ds of
                e # es \<Rightarrow>
                  if 240 \<le> b \<and> b < 245 \<and> second_ok b c \<and> cont_byte d \<and> cont_byte e then
                    ((b - 240) * 262144 + (c - 128) * 4096 + (d - 128) * 64 + (e - 128))
                      # decode_runes es
                  else 65533 # decode_runes bs
              | [] \<Rightarrow> 65533 # decode_runes bs)
          | [] \<Rightarrow> 65533 # decode_runes bs)
      | [] \<Rightarrow> 65533 # decode_runes bs)"

definition runes :: "string \<Rightarrow> int list" where
  "runes s = decode_runes (map of_char s)"

lemma decode_runes_ascii: "\<forall>b\<in>set bs. b < 128 \<Longrightarrow> decode_runes bs = bs"
  by (induction bs) auto

lemma runes_ascii: "\<forall>c\<in>set s. (of_char c :: int) < 128 \<Longrightarrow> runes s = map of_char s"
  by (simp add: runes_def decode_runes_ascii)

section \<open>The readers-writer lock\<close>

text \<open>
  \<open>sync.RWMutex\<close> as one goroutine sees it while no other goroutine holds it: free,
  read-locked by itself, or write-locked by itself. The lock is not reentrant: a goroutine
  that asks for a lock it already holds (in a mode that conflicts) waits for itself, for
  ever. \<open>Blocks\<close> is that outcome.
\<close>

datatype rwmutex = Free | RHeld | WHeld

datatype 'a outcome = Returns 'a | Blocks | Panics

fun obind :: "'a outcome \<Rightarrow> ('a \<Rightarrow> 'b outcome) \<Rightarrow> 'b outcome" where
  "obind (Returns x) f = f x"
| "obind Blocks f = Blocks"
| "obind Panics f = Panics"

lemma obind_eq_Returns:
  "obind r f = Returns y \<longleftrightarrow> (\<exists>x. r = Returns x \<and> f x = Returns y)"
  by (cases r) auto

text \<open>\<open>time.NewTicker\<close> panics for a duration that is not positive.\<close>

definition NewTicker :: "duration \<Rightarrow> duration outcome" where
  "NewTicker d = (if d \<le> 0 then Panics else Returns d)"

section \<open>Lists and maps\<close>

lemma find_SomeD: "find P xs = Some x \<Longrightarrow> x \<in> set xs \<and> P x"
  by (induction xs) (auto split: if_splits)

lemma find_None_filter: "find P xs = None \<longleftrightarrow> filter P xs = []"
  by (induction xs) auto

lemma filter_Nil_iff_all: "filter P xs = [] \<longleftrightarrow> (\<forall>x\<in>set xs. \<not> P x)"
  by (induction xs) auto

lemma distinct_singleton:
  assumes "distinct xs" and "set xs = {x}"
  shows "xs = [x]"
proof -
  from assms have "length xs = 1" by (simp flip: distinct_card)
  then obtain y where "xs = [y]" by (cases xs) auto
  with assms(2) show ?thesis by simp
qed

lemma card_le_1_eq:
  assumes "finite S" and "card S \<le> 1" and "x \<in> S" and "y \<in> S"
  shows "x = y"
  using assms by (metis card_le_Suc0_iff_eq One_nat_def)

lemma two_in_card:
  assumes "finite S" and "x \<in> S" and "y \<in> S" and "x \<noteq> y"
  shows "1 < card S"
proof (rule ccontr)
  assume "\<not> 1 < card S"
  with assms(1-3) have "x = y" by (intro card_le_1_eq) auto
  with assms(4) show False ..
qed

end
