(* ===== verification/Job.thy ===== *)
theory Job
  imports Prelude
begin

text \<open>
  The data model of \<open>pkg/job/job.go\<close>: statuses, priorities, the job record, the
  registry of processors, and the JSON form in which a job travels through the queue
  (\<open>json.Marshal\<close> and \<open>json.Unmarshal\<close> as the struct tags direct them). The
  lemmas show that the JSON form of a job can be read back and identifies the job.
\<close>

section \<open>Statuses and priorities\<close>

type_synonym Status = string

definition StatusPending :: Status where [status_simps]: "StatusPending = ''pending''"
definition StatusRunning :: Status where [status_simps]: "StatusRunning = ''running''"
definition StatusCompleted :: Status where [status_simps]: "StatusCompleted = ''completed''"
definition StatusFailed :: Status where [status_simps]: "StatusFailed = ''failed''"
definition StatusRetrying :: Status where [status_simps]: "StatusRetrying = ''retrying''"

type_synonym Priority = int

definition PriorityLow :: Priority where [status_simps]: "PriorityLow = 1"
definition PriorityNormal :: Priority where [status_simps]: "PriorityNormal = 5"
definition PriorityHigh :: Priority where [status_simps]: "PriorityHigh = 10"

section \<open>JSON values\<close>

text \<open>
  A JSON document is its value tree. A number without fraction and exponent is
  \<open>JInt\<close>, another number is \<open>JFloat\<close> with its decimal mantissa and exponent; the string an instant is written as is \<open>JTime\<close>, and the one an object
  id is written as is \<open>JOid\<close>. An \<open>ObjectID\<close> is its 96-bit value.
\<close>

type_synonym ObjectID = nat

definition NilObjectID :: ObjectID where [status_simps]: "NilObjectID = 0"

datatype json =
    JNull
  | JBool bool
  | JInt int
  | JFloat int int
  | JStr string
  | JTime gtime
  | JOid ObjectID
  | JArr "json list"
  | JObj "(string \<times> json) list"

section \<open>Jobs\<close>

record job =
  j_ID :: ObjectID
  j_Type :: string
  j_Payload :: json
  j_Status :: Status
  j_Priority :: Priority
  j_CreatedAt :: gtime
  j_UpdatedAt :: gtime
  j_ScheduledAt :: gtime
  j_StartedAt :: "gtime option"
  j_CompletedAt :: "gtime option"
  j_RetryCount :: int
  j_MaxRetries :: int
  j_WorkerID :: string
  j_Error :: string

text \<open>The zero value, which \<open>var j job.Job\<close> declares.\<close>

definition zero_job :: job where
  "zero_job = \<lparr>j_ID = NilObjectID, j_Type = '''', j_Payload = JNull, j_Status = '''',
     j_Priority = 0, j_CreatedAt = zero_time, j_UpdatedAt = zero_time,
     j_ScheduledAt = zero_time, j_StartedAt = None, j_CompletedAt = None,
     j_RetryCount = 0, j_MaxRetries = 0, j_WorkerID = '''', j_Error = ''''\<rparr>"

text \<open>A job of the program: its integers fit, and its payload is a map (or nil).\<close>

definition wf_job :: "job \<Rightarrow> bool" where
  "wf_job j \<longleftrightarrow> in_int64 (j_Priority j) \<and> in_int64 (j_RetryCount j) \<and> in_int64 (j_MaxRetries j)
     \<and> (j_Payload j = JNull \<or> (\<exists>m. j_Payload j = JObj m))"

section \<open>Writing a job\<close>

text \<open>
  \<open>Time.MarshalJSON\<close> refuses an instant whose year is not in 0 to 9999, and
  \<open>json.Marshal\<close> of the job then fails. The fields tagged \<open>omitempty\<close> are left
  out when they are nil or the empty string.
\<close>

definition json_time_ok :: "gtime \<Rightarrow> bool" where
  "json_time_ok t \<longleftrightarrow> seconds (- 62167219200) \<le> t \<and> t < seconds 253402300800"

definition job_times :: "job \<Rightarrow> gtime list" where
  "job_times j = [j_CreatedAt j, j_UpdatedAt j, j_ScheduledAt j]
     @ (case j_StartedAt j of None \<Rightarrow> [] | Some t \<Rightarrow> [t])
     @ (case j_CompletedAt j of None \<Rightarrow> [] | Some t \<Rightarrow> [t])"

definition opt_time :: "string \<Rightarrow> gtime option \<Rightarrow> (string \<times> json) list" where
  "opt_time k p = (case p of None \<Rightarrow> [] | Some t \<Rightarrow> [(k, JTime t)])"

definition opt_string :: "string \<Rightarrow> string \<Rightarrow> (string \<times> json) list" where
  "opt_string k s = (if s = '''' then [] else [(k, JStr s)])"

definition job_fields :: "job \<Rightarrow> (string \<times> json) list" where
  "job_fields j =
     [(''id'', JOid (j_ID j)), (''type'', JStr (j_Type j)), (''payload'', j_Payload j),
      (''status'', JStr (j_Status j)), (''priority'', JInt (j_Priority j)),
      (''created_at'', JTime (j_CreatedAt j)), (''updated_at'', JTime (j_UpdatedAt j)),
      (''scheduled_at'', JTime (j_ScheduledAt j))]
     @ opt_time ''started_at'' (j_StartedAt j)
     @ opt_time ''completed_at'' (j_CompletedAt j)
     @ [(''retry_count'', JInt (j_RetryCount j)), (''max_retries'', JInt (j_MaxRetries j))]
     @ opt_string ''worker_id'' (j_WorkerID j)
     @ opt_string ''error'' (j_Error j)"

definition marshal_job :: "job \<Rightarrow> json res" where
  "marshal_job j =
     (if list_all json_time_ok (job_times j) then Inr (JObj (job_fields j))
      else Inl (Errorf ''Time.MarshalJSON: year outside of range [0,9999]''))"

section \<open>Reading a job\<close>

text \<open>
  \<open>null\<close> leaves a field that is not a pointer as it was; a value of another type is an
  error; keys without a field are skipped.
\<close>

definition type_error :: "string \<Rightarrow> goerr" where
  "type_error k = Errorf (''json: cannot unmarshal into Go struct field Job.'' @ k)"

fun get_string :: "string \<Rightarrow> json \<Rightarrow> string \<Rightarrow> string res" where
  "get_string k JNull old = Inr old"
| "get_string k (JStr s) old = Inr s"
| "get_string k _ old = Inl (type_error k)"

fun get_int :: "string \<Rightarrow> json \<Rightarrow> int \<Rightarrow> int res" where
  "get_int k JNull old = Inr old"
| "get_int k (JInt i) old = (if in_int64 i then Inr i else Inl (type_error k))"
| "get_int k _ old = Inl (type_error k)"

fun get_time :: "string \<Rightarrow> json \<Rightarrow> gtime \<Rightarrow> gtime res" where
  "get_time k JNull old = Inr old"
| "get_time k (JTime t) old = Inr t"
| "get_time k _ old = Inl (type_error k)"

fun get_time_ptr :: "string \<Rightarrow> json \<Rightarrow> gtime option res" where
  "get_time_ptr k JNull = Inr None"
| "get_time_ptr k (JTime t) = Inr (Some t)"
| "get_time_ptr k _ = Inl (type_error k)"

fun get_oid :: "string \<Rightarrow> json \<Rightarrow> ObjectID \<Rightarrow> ObjectID res" where
  "get_oid k JNull old = Inr old"
| "get_oid k (JOid i) old = Inr i"
| "get_oid k _ old = Inl (type_error k)"

fun get_map :: "string \<Rightarrow> json \<Rightarrow> json res" where
  "get_map k JNull = Inr JNull"
| "get_map k (JObj m) = Inr (JObj m)"
| "get_map k _ = Inl (type_error k)"

definition set_res :: "('a \<Rightarrow> job \<Rightarrow> job) \<Rightarrow> 'a res \<Rightarrow> job \<Rightarrow> job res" where
  "set_res upd r j = (case r of Inl e \<Rightarrow> Inl e | Inr x \<Rightarrow> Inr (upd x j))"

definition unmarshal_field :: "string \<Rightarrow> json \<Rightarrow> job \<Rightarrow> job res" where
  "unmarshal_field k v j =
     (if k = ''id'' then set_res (\<lambda>x. j_ID_update (\<lambda>_. x)) (get_oid k v (j_ID j)) j
      else if k = ''type'' then set_res (\<lambda>x. j_Type_update (\<lambda>_. x)) (get_string k v (j_Type j)) j
      else if k = ''payload'' then set_res (\<lambda>x. j_Payload_update (\<lambda>_. x)) (get_map k v) j
      else if k = ''status'' then set_res (\<lambda>x. j_Status_update (\<lambda>_. x)) (get_string k v (j_Status j)) j
      else if k = ''priority'' then set_res (\<lambda>x. j_Priority_update (\<lambda>_. x)) (get_int k v (j_Priority j)) j
      else if k = ''created_at'' then set_res (\<lambda>x. j_CreatedAt_update (\<lambda>_. x)) (get_time k v (j_CreatedAt j)) j
      else if k = ''updated_at'' then set_res (\<lambda>x. j_UpdatedAt_update (\<lambda>_. x)) (get_time k v (j_UpdatedAt j)) j
      else if k = ''scheduled_at'' then set_res (\<lambda>x. j_ScheduledAt_update (\<lambda>_. x)) (get_time k v (j_ScheduledAt j)) j
      else if k = ''started_at'' then set_res (\<lambda>x. j_StartedAt_update (\<lambda>_. x)) (get_time_ptr k v) j
      else if k = ''completed_at'' then set_res (\<lambda>x. j_CompletedAt_update (\<lambda>_. x)) (get_time_ptr k v) j
      else if k = ''retry_count'' then set_res (\<lambda>x. j_RetryCount_update (\<lambda>_. x)) (get_int k v (j_RetryCount j)) j
      else if k = ''max_retries'' then set_res (\<lambda>x. j_MaxRetries_update (\<lambda>_. x)) (get_int k v (j_MaxRetries j)) j
      else if k = ''worker_id'' then set_res (\<lambda>x. j_WorkerID_update (\<lambda>_. x)) (get_string k v (j_WorkerID j)) j
      else if k = ''error'' then set_res (\<lambda>x. j_Error_update (\<lambda>_. x)) (get_string k v (j_Error j)) j
      else Inr j)"

fun unmarshal_fields :: "(string \<times> json) list \<Rightarrow> job \<Rightarrow> job res" where
  "unmarshal_fields [] j = Inr j"
| "unmarshal_fields ((k, v) # kvs) j =
     (case unmarshal_field k v j of Inl e \<Rightarrow> Inl e | Inr j' \<Rightarrow> unmarshal_fields kvs j')"

fun unmarshal_job :: "json \<Rightarrow> job res" where
  "unmarshal_job (JObj kvs) = unmarshal_fields kvs zero_job"
| "unmarshal_job JNull = Inr zero_job"
| "unmarshal_job _ = Inl (Errorf ''json: cannot unmarshal into Go value of type job.Job'')"

section \<open>Round trip\<close>

lemma unmarshal_fields_append:
  "unmarshal_fields (xs @ ys) j =
     (case unmarshal_fields xs j of Inl e \<Rightarrow> Inl e | Inr j' \<Rightarrow> unmarshal_fields ys j')"
  by (induction xs j rule: unmarshal_fields.induct) (auto split: sum.splits)

lemma unmarshal_field_simps:
  "unmarshal_field ''id'' (JOid x0) j = Inr (j\<lparr>j_ID := x0\<rparr>)"
  "unmarshal_field ''type'' (JStr x1) j = Inr (j\<lparr>j_Type := x1\<rparr>)"
  "unmarshal_field ''status'' (JStr x2) j = Inr (j\<lparr>j_Status := x2\<rparr>)"
  "unmarshal_field ''created_at'' (JTime x3) j = Inr (j\<lparr>j_CreatedAt := x3\<rparr>)"
  "unmarshal_field ''updated_at'' (JTime x4) j = Inr (j\<lparr>j_UpdatedAt := x4\<rparr>)"
  "unmarshal_field ''scheduled_at'' (JTime x5) j = Inr (j\<lparr>j_ScheduledAt := x5\<rparr>)"
  "in_int64 i \<Longrightarrow> unmarshal_field ''priority'' (JInt i) j = Inr (j\<lparr>j_Priority := i\<rparr>)"
  "in_int64 i \<Longrightarrow> unmarshal_field ''retry_count'' (JInt i) j = Inr (j\<lparr>j_RetryCount := i\<rparr>)"
  "in_int64 i \<Longrightarrow> unmarshal_field ''max_retries'' (JInt i) j = Inr (j\<lparr>j_MaxRetries := i\<rparr>)"
  "get_map ''payload'' p = Inr p \<Longrightarrow> unmarshal_field ''payload'' p j = Inr (j\<lparr>j_Payload := p\<rparr>)"
  by (simp_all add: unmarshal_field_def set_res_def)

lemma unmarshal_started:
  "j_StartedAt j = None \<Longrightarrow>
   unmarshal_fields (opt_time ''started_at'' p) j = Inr (j\<lparr>j_StartedAt := p\<rparr>)"
  by (cases p) (simp_all add: opt_time_def unmarshal_field_def set_res_def)

lemma unmarshal_completed:
  "j_CompletedAt j = None \<Longrightarrow>
   unmarshal_fields (opt_time ''completed_at'' p) j = Inr (j\<lparr>j_CompletedAt := p\<rparr>)"
  by (cases p) (simp_all add: opt_time_def unmarshal_field_def set_res_def)

lemma unmarshal_worker:
  "j_WorkerID j = '''' \<Longrightarrow>
   unmarshal_fields (opt_string ''worker_id'' s) j = Inr (j\<lparr>j_WorkerID := s\<rparr>)"
  by (simp add: opt_string_def unmarshal_field_def set_res_def)

lemma unmarshal_error:
  "j_Error j = '''' \<Longrightarrow>
   unmarshal_fields (opt_string ''error'' s) j = Inr (j\<lparr>j_Error := s\<rparr>)"
  by (simp add: opt_string_def unmarshal_field_def set_res_def)

lemma get_map_wf: "wf_job j \<Longrightarrow> get_map k (j_Payload j) = Inr (j_Payload j)"
  by (auto simp: wf_job_def)

lemma unmarshal_job_fields:
  assumes "wf_job j"
  shows "unmarshal_fields (job_fields j) zero_job = Inr j"
proof -
  note wf = assms [unfolded wf_job_def] and map = get_map_wf [OF assms, of "''payload''"]
  have "unmarshal_fields (job_fields j) zero_job =
      Inr \<lparr>j_ID = j_ID j, j_Type = j_Type j, j_Payload = j_Payload j, j_Status = j_Status j,
        j_Priority = j_Priority j, j_CreatedAt = j_CreatedAt j, j_UpdatedAt = j_UpdatedAt j,
        j_ScheduledAt = j_ScheduledAt j, j_StartedAt = j_StartedAt j,
        j_CompletedAt = j_CompletedAt j, j_RetryCount = j_RetryCount j,
        j_MaxRetries = j_MaxRetries j, j_WorkerID = j_WorkerID j, j_Error = j_Error j\<rparr>"
    using wf map
    by (simp add: job_fields_def zero_job_def unmarshal_fields_append unmarshal_field_simps
        unmarshal_started unmarshal_completed unmarshal_worker unmarshal_error
        del: append.simps unmarshal_job.simps)
  then show ?thesis by simp
qed

lemma marshal_job_InrD: "marshal_job j = Inr d \<Longrightarrow> d = JObj (job_fields j)"
  by (auto simp: marshal_job_def split: if_splits)



lemma job_fields_inj:
  assumes "wf_job j" and "wf_job k" and "job_fields j = job_fields k"
  shows "j = k"
proof -
  have "(Inr j :: job res) = unmarshal_fields (job_fields k) zero_job"
    unfolding assms(3) [symmetric] by (rule unmarshal_job_fields [OF assms(1), symmetric])
  also have "\<dots> = Inr k" by (rule unmarshal_job_fields [OF assms(2)])
  finally show ?thesis by simp
qed

lemma marshal_job_inj:
  assumes "wf_job j" and "wf_job k" and "marshal_job j = Inr d" and "marshal_job k = Inr d"
  shows "j = k"
proof -
  from assms(3,4) have "job_fields j = job_fields k" by (auto dest!: marshal_job_InrD)
  with assms(1,2) show ?thesis by (rule job_fields_inj)
qed

text \<open>The status alone already shows in the JSON form, whatever the other fields hold.\<close>

lemma job_fields_status: "job_fields j = job_fields k \<Longrightarrow> j_Status j = j_Status k"
  by (simp add: job_fields_def)

section \<open>Well-formedness\<close>

text \<open>What is read from JSON is well-formed, whoever wrote it.\<close>

lemma unmarshal_field_wf:
  assumes "wf_job j" and "unmarshal_field k v j = Inr j'"
  shows "wf_job j'"
proof -
  have i: "get_int k v old = Inr i \<Longrightarrow> in_int64 old \<Longrightarrow> in_int64 i" for old i
    by (induction k v old rule: get_int.induct) (auto split: if_splits)
  have m: "get_map k v = Inr p \<Longrightarrow> p = JNull \<or> (\<exists>kvs. p = JObj kvs)" for p
    by (induction k v rule: get_map.induct) auto
  show ?thesis
    using assms i m unfolding unmarshal_field_def set_res_def wf_job_def
    by (auto split: if_splits sum.splits)
qed

lemma unmarshal_fields_wf: "unmarshal_fields kvs j = Inr j' \<Longrightarrow> wf_job j \<Longrightarrow> wf_job j'"
  by (induction kvs j rule: unmarshal_fields.induct) (auto split: sum.splits dest: unmarshal_field_wf)

lemma unmarshal_job_wf: "unmarshal_job d = Inr j \<Longrightarrow> wf_job j"
proof -
  have "wf_job zero_job" by (simp add: wf_job_def zero_job_def in_int64_def)
  then show "unmarshal_job d = Inr j \<Longrightarrow> wf_job j"
    by (cases d) (auto dest: unmarshal_fields_wf)
qed

section \<open>Processors\<close>

text \<open>
  A processor is code of the program's user: its type name and its \<open>Process\<close> method,
  which may change the job it is given and returns an error or nil.
\<close>

record processor =
  p_Type :: string
  p_Process :: "job \<Rightarrow> goerr option \<times> job"

type_synonym ProcessorRegistry = "string \<rightharpoonup> processor"

definition registry_Register :: "ProcessorRegistry \<Rightarrow> processor \<Rightarrow> ProcessorRegistry" where
  "registry_Register r p = r(p_Type p \<mapsto> p)"

definition registry_Get :: "ProcessorRegistry \<Rightarrow> string \<Rightarrow> processor option" where
  "registry_Get r jobType = r jobType"

end
