(* ===== verification/Redis.thy ===== *)
theory Redis
  imports Job
begin

text \<open>
  The Redis server as the queue sees it through \<open>go-redis\<close>: the commands the program
  sends are a parameter, the record \<open>redis_client\<close> over a server state of any type, and
  \<open>redis_contract\<close> states the documented effect of each command that succeeds on what
  is stored under the keys (lists, and sorted sets with their scores). Nothing is said about a
  command that fails. \<open>redis_reliable\<close> adds that commands do not fail. An in-memory
  server shows that both can hold together; the witnesses of the queue use it.
\<close>

section \<open>What is stored\<close>

record rview =
  rv_lists :: "string \<Rightarrow> json list"
  rv_zsets :: "string \<Rightarrow> (json \<rightharpoonup> int)"

text \<open>The commands a pipeline queues, and the effect and the reply of each.\<close>

datatype rcmd =
    RLPush string json
  | RZRem string json
  | RLLen string
  | RZCard string

fun rcmd_effect :: "rcmd \<Rightarrow> rview \<Rightarrow> rview" where
  "rcmd_effect (RLPush k d) v = v\<lparr>rv_lists := (rv_lists v)(k := d # rv_lists v k)\<rparr>"
| "rcmd_effect (RZRem k d) v = v\<lparr>rv_zsets := (rv_zsets v)(k := (rv_zsets v k)(d := None))\<rparr>"
| "rcmd_effect (RLLen k) v = v"
| "rcmd_effect (RZCard k) v = v"

fun rcmd_reply :: "rcmd \<Rightarrow> rview \<Rightarrow> int" where
  "rcmd_reply (RLPush k d) v = int (length (rv_lists v k)) + 1"
| "rcmd_reply (RZRem k d) v = (if rv_zsets v k d = None then 0 else 1)"
| "rcmd_reply (RLLen k) v = int (length (rv_lists v k))"
| "rcmd_reply (RZCard k) v = int (card (dom (rv_zsets v k)))"

fun pipe_effect :: "rcmd list \<Rightarrow> rview \<Rightarrow> rview" where
  "pipe_effect [] v = v"
| "pipe_effect (c # cs) v = pipe_effect cs (rcmd_effect c v)"

fun pipe_replies :: "rcmd list \<Rightarrow> rview \<Rightarrow> int list" where
  "pipe_replies [] v = []"
| "pipe_replies (c # cs) v = rcmd_reply c v # pipe_replies cs (rcmd_effect c v)"

section \<open>The client and its contract\<close>

record 'r redis_client =
  c_LPush :: "string \<Rightarrow> json \<Rightarrow> 'r \<Rightarrow> goerr option \<times> 'r"
  c_BRPop :: "string \<Rightarrow> 'r \<Rightarrow> json res \<times> 'r"
  c_LRem :: "string \<Rightarrow> int \<Rightarrow> json \<Rightarrow> 'r \<Rightarrow> goerr option \<times> 'r"
  c_ZAdd :: "string \<Rightarrow> int \<Rightarrow> json \<Rightarrow> 'r \<Rightarrow> goerr option \<times> 'r"
  c_ZRangeByScore :: "string \<Rightarrow> int \<Rightarrow> int \<Rightarrow> 'r \<Rightarrow> json list res \<times> 'r"
  c_Exec :: "rcmd list \<Rightarrow> 'r \<Rightarrow> int list res \<times> 'r"
  c_view :: "'r \<Rightarrow> rview"

definition in_score_range :: "(json \<rightharpoonup> int) \<Rightarrow> int \<Rightarrow> int \<Rightarrow> json set" where
  "in_score_range z lo hi = {d. \<exists>s. z d = Some s \<and> lo \<le> s \<and> s \<le> hi}"

definition law_LPush :: "'r redis_client \<Rightarrow> bool" where
  "law_LPush c \<longleftrightarrow> (\<forall>k d r r'. c_LPush c k d r = (None, r') \<longrightarrow>
     c_view c r' = rcmd_effect (RLPush k d) (c_view c r))"

text \<open>\<open>BRPOP\<close> takes the last element; \<open>redis.Nil\<close> means that there was none.\<close>

definition law_BRPop :: "'r redis_client \<Rightarrow> bool" where
  "law_BRPop c \<longleftrightarrow> (\<forall>k r x r'. c_BRPop c k r = (x, r') \<longrightarrow> (case x of
       Inr d \<Rightarrow> (\<exists>l. rv_lists (c_view c r) k = l @ [d]
         \<and> c_view c r' = (c_view c r)\<lparr>rv_lists := (rv_lists (c_view c r))(k := l)\<rparr>)
     | Inl e \<Rightarrow> e = RedisNil \<longrightarrow> rv_lists (c_view c r) k = [] \<and> c_view c r' = c_view c r))"

text \<open>\<open>LREM key 1 d\<close> removes the first element equal to \<open>d\<close>, and none is no error.\<close>

definition law_LRem :: "'r redis_client \<Rightarrow> bool" where
  "law_LRem c \<longleftrightarrow> (\<forall>k d r r'. c_LRem c k 1 d r = (None, r') \<longrightarrow>
     c_view c r' = (c_view c r)\<lparr>rv_lists :=
       (rv_lists (c_view c r))(k := remove1 d (rv_lists (c_view c r) k))\<rparr>)"

definition law_ZAdd :: "'r redis_client \<Rightarrow> bool" where
  "law_ZAdd c \<longleftrightarrow> (\<forall>k s d r r'. c_ZAdd c k s d r = (None, r') \<longrightarrow>
     c_view c r' = (c_view c r)\<lparr>rv_zsets :=
       (rv_zsets (c_view c r))(k := (rv_zsets (c_view c r) k)(d \<mapsto> s))\<rparr>)"

definition law_ZRange :: "'r redis_client \<Rightarrow> bool" where
  "law_ZRange c \<longleftrightarrow> (\<forall>k lo hi r x r'. c_ZRangeByScore c k lo hi r = (x, r') \<longrightarrow>
     c_view c r' = c_view c r \<and> (case x of
       Inr ds \<Rightarrow> distinct ds \<and> set ds = in_score_range (rv_zsets (c_view c r) k) lo hi
     | Inl e \<Rightarrow> True))"

text \<open>A pipeline runs its commands in order.\<close>

definition law_Exec :: "'r redis_client \<Rightarrow> bool" where
  "law_Exec c \<longleftrightarrow> (\<forall>cs r xs r'. c_Exec c cs r = (Inr xs, r') \<longrightarrow>
     c_view c r' = pipe_effect cs (c_view c r) \<and> xs = pipe_replies cs (c_view c r))"

definition redis_contract :: "'r redis_client \<Rightarrow> bool" where
  "redis_contract c \<longleftrightarrow> law_LPush c \<and> law_BRPop c \<and> law_LRem c \<and> law_ZAdd c \<and> law_ZRange c \<and> law_Exec c"

definition redis_reliable :: "'r redis_client \<Rightarrow> bool" where
  "redis_reliable c \<longleftrightarrow>
     (\<forall>k d r. fst (c_LPush c k d r) = None)
   \<and> (\<forall>k r e. fst (c_BRPop c k r) = Inl e \<longrightarrow> e = RedisNil)
   \<and> (\<forall>k n d r. fst (c_LRem c k n d r) = None)
   \<and> (\<forall>k s d r. fst (c_ZAdd c k s d r) = None)
   \<and> (\<forall>k lo hi r. is_ok (fst (c_ZRangeByScore c k lo hi r)))
   \<and> (\<forall>cs r. is_ok (fst (c_Exec c cs r)))"

lemma redis_LPush:
  "redis_contract c \<Longrightarrow> c_LPush c k d r = (None, r') \<Longrightarrow>
   c_view c r' = rcmd_effect (RLPush k d) (c_view c r)"
  unfolding redis_contract_def law_LPush_def by blast

lemma redis_BRPop:
  assumes "redis_contract c" and "c_BRPop c k r = (Inr d, r')"
  obtains l where "rv_lists (c_view c r) k = l @ [d]"
    and "c_view c r' = (c_view c r)\<lparr>rv_lists := (rv_lists (c_view c r))(k := l)\<rparr>"
  using assms unfolding redis_contract_def law_BRPop_def by fastforce

lemma redis_BRPop_nil:
  assumes "redis_contract c" and "c_BRPop c k r = (Inl RedisNil, r')"
  shows "rv_lists (c_view c r) k = [] \<and> c_view c r' = c_view c r"
  using assms unfolding redis_contract_def law_BRPop_def by fastforce

lemma redis_LRem:
  "redis_contract c \<Longrightarrow> c_LRem c k 1 d r = (None, r') \<Longrightarrow>
   c_view c r' = (c_view c r)\<lparr>rv_lists :=
     (rv_lists (c_view c r))(k := remove1 d (rv_lists (c_view c r) k))\<rparr>"
  unfolding redis_contract_def law_LRem_def by blast

lemma redis_ZAdd:
  "redis_contract c \<Longrightarrow> c_ZAdd c k s d r = (None, r') \<Longrightarrow>
   c_view c r' = (c_view c r)\<lparr>rv_zsets :=
     (rv_zsets (c_view c r))(k := (rv_zsets (c_view c r) k)(d \<mapsto> s))\<rparr>"
  unfolding redis_contract_def law_ZAdd_def by blast

lemma redis_ZRange_view:
  "redis_contract c \<Longrightarrow> c_ZRangeByScore c k lo hi r = (x, r') \<Longrightarrow> c_view c r' = c_view c r"
  unfolding redis_contract_def law_ZRange_def by blast

lemma redis_ZRange:
  assumes "redis_contract c" and "c_ZRangeByScore c k lo hi r = (Inr ds, r')"
  shows "distinct ds \<and> set ds = in_score_range (rv_zsets (c_view c r) k) lo hi"
  using assms unfolding redis_contract_def law_ZRange_def by fastforce

lemma redis_Exec:
  "redis_contract c \<Longrightarrow> c_Exec c cs r = (Inr xs, r') \<Longrightarrow>
   c_view c r' = pipe_effect cs (c_view c r) \<and> xs = pipe_replies cs (c_view c r)"
  unfolding redis_contract_def law_Exec_def by blast

section \<open>An in-memory server\<close>

text \<open>
  The state of the in-memory server: the lists, and each sorted set as the list of its members
  with their scores. It meets the contract and never fails.
\<close>

record mem_redis =
  mr_lists :: "string \<Rightarrow> json list"
  mr_zsets :: "string \<Rightarrow> (json \<times> int) list"

definition mem_view :: "mem_redis \<Rightarrow> rview" where
  "mem_view m = \<lparr>rv_lists = mr_lists m, rv_zsets = (\<lambda>k. map_of (mr_zsets m k))\<rparr>"

definition mem_empty :: mem_redis where
  "mem_empty = \<lparr>mr_lists = (\<lambda>_. []), mr_zsets = (\<lambda>_. [])\<rparr>"

fun mem_cmd :: "rcmd \<Rightarrow> mem_redis \<Rightarrow> mem_redis" where
  "mem_cmd (RLPush k d) m = m\<lparr>mr_lists := (mr_lists m)(k := d # mr_lists m k)\<rparr>"
| "mem_cmd (RZRem k d) m = m\<lparr>mr_zsets := (mr_zsets m)(k := filter (\<lambda>p. fst p \<noteq> d) (mr_zsets m k))\<rparr>"
| "mem_cmd (RLLen k) m = m"
| "mem_cmd (RZCard k) m = m"

fun mem_replies :: "rcmd list \<Rightarrow> mem_redis \<Rightarrow> int list" where
  "mem_replies [] m = []"
| "mem_replies (c # cs) m = rcmd_reply c (mem_view m) # mem_replies cs (mem_cmd c m)"

definition mem_range :: "(json \<times> int) list \<Rightarrow> int \<Rightarrow> int \<Rightarrow> json list" where
  "mem_range z lo hi = filter (\<lambda>d. case map_of z d of Some s \<Rightarrow> lo \<le> s \<and> s \<le> hi | None \<Rightarrow> False)
     (remdups (map fst z))"

definition mem_client :: "mem_redis redis_client" where
  "mem_client = \<lparr>
     c_LPush = (\<lambda>k d m. (None, mem_cmd (RLPush k d) m)),
     c_BRPop = (\<lambda>k m. if mr_lists m k = [] then (Inl RedisNil, m)
       else (Inr (last (mr_lists m k)), m\<lparr>mr_lists := (mr_lists m)(k := butlast (mr_lists m k))\<rparr>)),
     c_LRem = (\<lambda>k n d m. (None, m\<lparr>mr_lists := (mr_lists m)(k := remove1 d (mr_lists m k))\<rparr>)),
     c_ZAdd = (\<lambda>k s d m. (None, m\<lparr>mr_zsets := (mr_zsets m)(k := (d, s) # mr_zsets m k)\<rparr>)),
     c_ZRangeByScore = (\<lambda>k lo hi m. (Inr (mem_range (mr_zsets m k) lo hi), m)),
     c_Exec = (\<lambda>cs m. (Inr (mem_replies cs m), fold mem_cmd cs m)),
     c_view = mem_view\<rparr>"

lemma mem_client_view [simp]: "c_view mem_client = mem_view"
  by (simp add: mem_client_def)

lemma map_of_filter_neq: "map_of (filter (\<lambda>p. fst p \<noteq> d) z) = (map_of z)(d := None)"
  by (induction z) (auto simp: fun_eq_iff)

lemma mem_cmd_view: "mem_view (mem_cmd c m) = rcmd_effect c (mem_view m)"
  by (cases c) (auto simp: mem_view_def map_of_filter_neq fun_eq_iff)

lemma mem_pipe_view: "mem_view (fold mem_cmd cs m) = pipe_effect cs (mem_view m)"
  by (induction cs arbitrary: m) (simp_all add: mem_cmd_view)

lemma mem_pipe_replies: "mem_replies cs m = pipe_replies cs (mem_view m)"
  by (induction cs arbitrary: m) (simp_all add: mem_cmd_view)

lemma mem_range_set: "distinct (mem_range z lo hi) \<and> set (mem_range z lo hi) = in_score_range (map_of z) lo hi"
proof -
  have "x \<in> fst ` set z" if "map_of z x = Some s" for x s
    using map_of_SomeD [OF that] by (simp add: rev_image_eqI)
  then show ?thesis
    by (auto simp: mem_range_def in_score_range_def split: option.splits)
qed

lemma mem_contract: "redis_contract mem_client"
proof -
  have "law_LPush mem_client" by (simp add: law_LPush_def mem_client_def mem_view_def)
  moreover have "law_BRPop mem_client"
  proof -
    have "\<exists>l. f k = l @ [last (f k)] \<and> f(k := butlast (f k)) = f(k := l)"
      if "f k \<noteq> []" for f :: "string \<Rightarrow> json list" and k
      using that by (intro exI [of _ "butlast (f k)"]) simp
    then show ?thesis by (simp add: law_BRPop_def mem_client_def mem_view_def)
  qed
  moreover have "law_LRem mem_client" by (simp add: law_LRem_def mem_client_def mem_view_def)
  moreover have "law_ZAdd mem_client"
    by (auto simp: law_ZAdd_def mem_client_def mem_view_def fun_eq_iff)
  moreover have "law_ZRange mem_client"
    by (simp add: law_ZRange_def mem_client_def mem_view_def mem_range_set)
  moreover have "law_Exec mem_client"
    by (simp add: law_Exec_def mem_client_def mem_pipe_view mem_pipe_replies)
  ultimately show ?thesis by (simp add: redis_contract_def)
qed

lemma mem_reliable: "redis_reliable mem_client"
  by (auto simp: redis_reliable_def mem_client_def split: if_splits)

end
