(* ===== verification/Queue.thy ===== *)
theory Queue
  imports Redis
begin

text \<open>
  The Redis-backed queue of \<open>internal/queue/redis.go\<close>: the keys, the queue's handle
  and every operation, as commands to a Redis client and case distinctions on their results.
  The abstract queue (what waits, in the order it will be served, what is delayed until when,
  what has completed and what has failed) is refined by the operations; the interface is the
  locale \<open>job_queue\<close>.
\<close>

section \<open>Keys and the handle\<close>

definition JobQueue :: string where [status_simps]: "JobQueue = ''jobs:queue''"
definition ProcessingQueue :: string where [status_simps]: "ProcessingQueue = ''jobs:processing''"
definition CompletedQueue :: string where [status_simps]: "CompletedQueue = ''jobs:completed''"
definition FailedQueue :: string where [status_simps]: "FailedQueue = ''jobs:failed''"
definition DelayedQueue :: string where [status_simps]: "DelayedQueue = ''jobs:delayed''"

text \<open>\<open>RedisQueue\<close> holds the client; the server's state travels with it.\<close>

record 'r RedisQueue =
  q_client :: "'r redis_client"
  q_db :: 'r

definition q_view :: "'r RedisQueue \<Rightarrow> rview" where
  "q_view q = c_view (q_client q) (q_db q)"

definition redis_do :: "('r redis_client \<Rightarrow> 'r \<Rightarrow> 'a \<times> 'r) \<Rightarrow> 'r RedisQueue \<Rightarrow> 'a \<times> 'r RedisQueue" where
  "redis_do cmd q = (let (x, r) = cmd (q_client q) (q_db q) in (x, q\<lparr>q_db := r\<rparr>))"

section \<open>Operations\<close>

text \<open>\<open>now\<close> is the reading of the clock that decides between the two keys.\<close>

definition Push :: "gtime \<Rightarrow> job \<Rightarrow> 'r RedisQueue \<Rightarrow> goerr option \<times> 'r RedisQueue" where
  "Push now j q = (case marshal_job j of
       Inl err \<Rightarrow> (Some (Wrap ''failed to marshal job'' err), q)
     | Inr data \<Rightarrow>
         if now < j_ScheduledAt j
         then redis_do (\<lambda>c. c_ZAdd c DelayedQueue (time_Unix (j_ScheduledAt j)) data) q
         else redis_do (\<lambda>c. c_LPush c JobQueue data) q)"

definition moveToProcessing :: "job \<Rightarrow> 'r RedisQueue \<Rightarrow> goerr option \<times> 'r RedisQueue" where
  "moveToProcessing j q = (case marshal_job j of
       Inl err \<Rightarrow> (Some (Wrap ''failed to marshal job'' err), q)
     | Inr data \<Rightarrow> redis_do (\<lambda>c. c_LPush c ProcessingQueue data) q)"

definition removeFromProcessing :: "job \<Rightarrow> 'r RedisQueue \<Rightarrow> goerr option \<times> 'r RedisQueue" where
  "removeFromProcessing j q = (case marshal_job j of
       Inl err \<Rightarrow> (Some (Wrap ''failed to marshal job'' err), q)
     | Inr data \<Rightarrow> redis_do (\<lambda>c. c_LRem c ProcessingQueue 1 data) q)"

text \<open>The pipeline moves each due entry; an error of the range query or of the pipeline is
  only logged.\<close>

definition move_commands :: "json list \<Rightarrow> rcmd list" where
  "move_commands jobs = concat (map (\<lambda>d. [RLPush JobQueue d, RZRem DelayedQueue d]) jobs)"

definition moveDelayed_query :: "gtime \<Rightarrow> 'r RedisQueue \<Rightarrow> json list res \<times> 'r RedisQueue" where
  "moveDelayed_query now q = redis_do (\<lambda>c. c_ZRangeByScore c DelayedQueue 0 (time_Unix now)) q"

definition moveDelayed_exec :: "json list \<Rightarrow> 'r RedisQueue \<Rightarrow> 'r RedisQueue" where
  "moveDelayed_exec jobs q = snd (redis_do (\<lambda>c. c_Exec c (move_commands jobs)) q)"

definition moveDelayedJobs :: "gtime \<Rightarrow> 'r RedisQueue \<Rightarrow> 'r RedisQueue" where
  "moveDelayedJobs now q =
     (case moveDelayed_query now q of
       (Inl err, q1) \<Rightarrow> q1
     | (Inr jobs, q1) \<Rightarrow> if jobs = [] then q1 else moveDelayed_exec jobs q1)"

text \<open>\<open>Inr None\<close> is the pair of a nil job and a nil error: nothing waited.\<close>

definition Pop :: "gtime \<Rightarrow> 'r RedisQueue \<Rightarrow> job option res \<times> 'r RedisQueue" where
  "Pop now q =
     (case redis_do (\<lambda>c. c_BRPop c JobQueue) (moveDelayedJobs now q) of
       (Inl err, q2) \<Rightarrow> (if err = RedisNil then Inr None else Inl err, q2)
     | (Inr data, q2) \<Rightarrow>
         (case unmarshal_job data of
            Inl err \<Rightarrow> (Inl (Wrap ''failed to unmarshal job'' err), q2)
          | Inr j \<Rightarrow> (Inr (Some j), snd (moveToProcessing j q2))))"

definition push_finished :: "string \<Rightarrow> job \<Rightarrow> 'r RedisQueue \<Rightarrow> goerr option \<times> 'r RedisQueue" where
  "push_finished key j q =
     (case removeFromProcessing j q of
       (Some err, q1) \<Rightarrow> (Some err, q1)
     | (None, q1) \<Rightarrow>
         (case marshal_job j of
            Inl err \<Rightarrow> (Some (Wrap ''failed to marshal job'' err), q1)
          | Inr data \<Rightarrow> redis_do (\<lambda>c. c_LPush c key data) q1))"

definition Complete :: "job \<Rightarrow> 'r RedisQueue \<Rightarrow> goerr option \<times> 'r RedisQueue" where
  "Complete j q = push_finished CompletedQueue j q"

definition Fail :: "job \<Rightarrow> 'r RedisQueue \<Rightarrow> goerr option \<times> 'r RedisQueue" where
  "Fail j q = push_finished FailedQueue j q"

text \<open>\<open>Retry\<close> changes the job it is given; \<open>now1\<close> and \<open>now2\<close> are the clock's
  readings in \<open>Retry\<close> and in \<open>Push\<close>.\<close>

definition Retry ::
  "gtime \<Rightarrow> gtime \<Rightarrow> job \<Rightarrow> duration \<Rightarrow> 'r RedisQueue \<Rightarrow> (goerr option \<times> job) \<times> 'r RedisQueue" where
  "Retry now1 now2 j delay q =
     (case removeFromProcessing j q of
       (Some err, q1) \<Rightarrow> ((Some err, j), q1)
     | (None, q1) \<Rightarrow>
         (let j' = j\<lparr>j_ScheduledAt := now1 + delay\<rparr>; (err, q2) = Push now2 j' q1
          in ((err, j'), q2)))"

definition stats_commands :: "rcmd list" where
  "stats_commands = [RLLen JobQueue, RLLen ProcessingQueue, RLLen CompletedQueue,
     RLLen FailedQueue, RZCard DelayedQueue]"

definition GetStats :: "'r RedisQueue \<Rightarrow> (string \<rightharpoonup> int) res \<times> 'r RedisQueue" where
  "GetStats q =
     (case redis_do (\<lambda>c. c_Exec c stats_commands) q of
       (Inl err, q1) \<Rightarrow> (Inl err, q1)
     | (Inr vals, q1) \<Rightarrow>
         (Inr (map_of (zip [''pending'', ''processing'', ''completed'', ''failed'', ''delayed''] vals)), q1))"

section \<open>Effect on what is stored\<close>

definition queue_ok :: "'r RedisQueue \<Rightarrow> bool" where
  "queue_ok q \<longleftrightarrow> redis_contract (q_client q)"

definition queue_up :: "'r RedisQueue \<Rightarrow> bool" where
  "queue_up q \<longleftrightarrow> redis_contract (q_client q) \<and> redis_reliable (q_client q)"

lemma queue_up_ok: "queue_up q \<Longrightarrow> queue_ok q"
  by (simp add: queue_up_def queue_ok_def)

lemma redis_do_client: "redis_do f q = (x, q') \<Longrightarrow> q_client q' = q_client q"
  by (auto simp: redis_do_def split: prod.splits)

lemma redis_do_ok: "redis_do f q = (x, q') \<Longrightarrow> queue_ok q \<Longrightarrow> queue_ok q'"
  by (simp add: queue_ok_def redis_do_client)

lemma redis_do_up: "redis_do f q = (x, q') \<Longrightarrow> queue_up q \<Longrightarrow> queue_up q'"
  by (simp add: queue_up_def redis_do_client)

lemma do_LPush:
  assumes "queue_up q"
  shows "\<exists>q'. redis_do (\<lambda>c. c_LPush c k d) q = (None, q') \<and> queue_up q'
    \<and> q_view q' = rcmd_effect (RLPush k d) (q_view q)"
proof -
  obtain r' where r': "c_LPush (q_client q) k d (q_db q) = (None, r')"
    using assms unfolding queue_up_def redis_reliable_def by (metis prod.collapse)
  have "redis_do (\<lambda>c. c_LPush c k d) q = (None, q\<lparr>q_db := r'\<rparr>)"
    by (simp add: redis_do_def r')
  moreover have "q_view (q\<lparr>q_db := r'\<rparr>) = rcmd_effect (RLPush k d) (q_view q)"
    using redis_LPush [OF _ r'] assms by (simp add: q_view_def queue_up_def)
  ultimately show ?thesis using assms by (simp add: queue_up_def)
qed

lemma do_ZAdd:
  assumes "queue_up q"
  shows "\<exists>q'. redis_do (\<lambda>c. c_ZAdd c k s d) q = (None, q') \<and> queue_up q'
    \<and> q_view q' = (q_view q)\<lparr>rv_zsets := (rv_zsets (q_view q))(k := (rv_zsets (q_view q) k)(d \<mapsto> s))\<rparr>"
proof -
  obtain r' where r': "c_ZAdd (q_client q) k s d (q_db q) = (None, r')"
    using assms unfolding queue_up_def redis_reliable_def by (metis prod.collapse)
  have "redis_do (\<lambda>c. c_ZAdd c k s d) q = (None, q\<lparr>q_db := r'\<rparr>)"
    by (simp add: redis_do_def r')
  moreover have "q_view (q\<lparr>q_db := r'\<rparr>) =
      (q_view q)\<lparr>rv_zsets := (rv_zsets (q_view q))(k := (rv_zsets (q_view q) k)(d \<mapsto> s))\<rparr>"
    using redis_ZAdd [OF _ r'] assms by (simp add: q_view_def queue_up_def)
  ultimately show ?thesis using assms by (simp add: queue_up_def)
qed

lemma do_LRem:
  assumes "queue_up q"
  shows "\<exists>q'. redis_do (\<lambda>c. c_LRem c k 1 d) q = (None, q') \<and> queue_up q'
    \<and> q_view q' = (q_view q)\<lparr>rv_lists := (rv_lists (q_view q))(k := remove1 d (rv_lists (q_view q) k))\<rparr>"
proof -
  obtain r' where r': "c_LRem (q_client q) k 1 d (q_db q) = (None, r')"
    using assms unfolding queue_up_def redis_reliable_def by (metis prod.collapse)
  have "redis_do (\<lambda>c. c_LRem c k 1 d) q = (None, q\<lparr>q_db := r'\<rparr>)"
    by (simp add: redis_do_def r')
  moreover have "q_view (q\<lparr>q_db := r'\<rparr>) =
      (q_view q)\<lparr>rv_lists := (rv_lists (q_view q))(k := remove1 d (rv_lists (q_view q) k))\<rparr>"
    using redis_LRem [OF _ r'] assms by (simp add: q_view_def queue_up_def)
  ultimately show ?thesis using assms by (simp add: queue_up_def)
qed

lemma do_ZRange:
  assumes "queue_up q"
  shows "\<exists>ds q'. redis_do (\<lambda>c. c_ZRangeByScore c k lo hi) q = (Inr ds, q') \<and> queue_up q'
    \<and> q_view q' = q_view q \<and> distinct ds \<and> set ds = in_score_range (rv_zsets (q_view q) k) lo hi"
proof -
  obtain ds r' where r': "c_ZRangeByScore (q_client q) k lo hi (q_db q) = (Inr ds, r')"
    using assms unfolding queue_up_def redis_reliable_def is_ok_iff by (metis prod.collapse)
  have "redis_do (\<lambda>c. c_ZRangeByScore c k lo hi) q = (Inr ds, q\<lparr>q_db := r'\<rparr>)"
    by (simp add: redis_do_def r')
  then show ?thesis
    using redis_ZRange [OF _ r'] redis_ZRange_view [OF _ r'] assms
    by (simp add: q_view_def queue_up_def)
qed

lemma do_Exec:
  assumes "queue_up q"
  shows "\<exists>q'. redis_do (\<lambda>c. c_Exec c cs) q = (Inr (pipe_replies cs (q_view q)), q') \<and> queue_up q'
    \<and> q_view q' = pipe_effect cs (q_view q)"
proof -
  obtain xs r' where r': "c_Exec (q_client q) cs (q_db q) = (Inr xs, r')"
    using assms unfolding queue_up_def redis_reliable_def is_ok_iff by (metis prod.collapse)
  have "redis_do (\<lambda>c. c_Exec c cs) q = (Inr xs, q\<lparr>q_db := r'\<rparr>)"
    by (simp add: redis_do_def r')
  then show ?thesis
    using redis_Exec [OF _ r'] assms by (simp add: q_view_def queue_up_def)
qed

lemma do_BRPop:
  assumes "queue_up q"
  shows "if rv_lists (q_view q) k = []
    then \<exists>q'. redis_do (\<lambda>c. c_BRPop c k) q = (Inl RedisNil, q') \<and> queue_up q' \<and> q_view q' = q_view q
    else \<exists>q'. redis_do (\<lambda>c. c_BRPop c k) q = (Inr (last (rv_lists (q_view q) k)), q') \<and> queue_up q'
      \<and> q_view q' = (q_view q)\<lparr>rv_lists := (rv_lists (q_view q))(k := butlast (rv_lists (q_view q) k))\<rparr>"
proof -
  obtain x r' where r': "c_BRPop (q_client q) k (q_db q) = (x, r')" by fastforce
  have do: "redis_do (\<lambda>c. c_BRPop c k) q = (x, q\<lparr>q_db := r'\<rparr>)"
    by (simp add: redis_do_def r')
  have up: "queue_up (q\<lparr>q_db := r'\<rparr>)" using assms by (simp add: queue_up_def)
  have c: "redis_contract (q_client q)" using assms by (simp add: queue_up_def)
  show ?thesis
  proof (cases x)
    case (Inl e)
    then have "fst (c_BRPop (q_client q) k (q_db q)) = Inl e" by (simp add: r')
    then have "e = RedisNil" using assms unfolding queue_up_def redis_reliable_def by blast
    with Inl r' have "c_BRPop (q_client q) k (q_db q) = (Inl RedisNil, r')" by simp
    from redis_BRPop_nil [OF c this] show ?thesis
      using do up Inl \<open>e = RedisNil\<close> by (simp add: q_view_def)
  next
    case (Inr d)
    with r' have "c_BRPop (q_client q) k (q_db q) = (Inr d, r')" by simp
    from redis_BRPop [OF c this] obtain l
      where "rv_lists (c_view (q_client q) (q_db q)) k = l @ [d]"
        and "c_view (q_client q) r' = (c_view (q_client q) (q_db q))\<lparr>rv_lists :=
               (rv_lists (c_view (q_client q) (q_db q)))(k := l)\<rparr>" by blast
    then show ?thesis using do up Inr by (simp add: q_view_def)
  qed
qed

section \<open>The abstract queue\<close>

text \<open>What waits (oldest first), what is delayed until which second, what has completed and
  what has failed (newest first).\<close>

record abs_queue =
  a_waiting :: "json list"
  a_delayed :: "json \<rightharpoonup> int"
  a_completed :: "json list"
  a_failed :: "json list"

definition abs_q :: "'r RedisQueue \<Rightarrow> abs_queue" where
  "abs_q q = \<lparr>a_waiting = rev (rv_lists (q_view q) JobQueue),
     a_delayed = rv_zsets (q_view q) DelayedQueue,
     a_completed = rv_lists (q_view q) CompletedQueue,
     a_failed = rv_lists (q_view q) FailedQueue\<rparr>"

definition abs_push :: "gtime \<Rightarrow> gtime \<Rightarrow> json \<Rightarrow> abs_queue \<Rightarrow> abs_queue" where
  "abs_push now due d a =
     (if now < due then a\<lparr>a_delayed := (a_delayed a)(d \<mapsto> time_Unix due)\<rparr>
      else a\<lparr>a_waiting := a_waiting a @ [d]\<rparr>)"

definition due_entries :: "gtime \<Rightarrow> abs_queue \<Rightarrow> json set" where
  "due_entries now a = in_score_range (a_delayed a) 0 (time_Unix now)"

definition abs_release :: "json list \<Rightarrow> abs_queue \<Rightarrow> abs_queue" where
  "abs_release ds a = a\<lparr>a_waiting := a_waiting a @ ds, a_delayed := (a_delayed a) |` (- set ds)\<rparr>"

lemmas abs_simps = abs_q_def status_simps

lemma Push_refines:
  assumes "queue_up q" and "marshal_job j = Inr d"
  shows "\<exists>q'. Push now j q = (None, q') \<and> queue_up q'
    \<and> abs_q q' = abs_push now (j_ScheduledAt j) d (abs_q q)"
proof (cases "now < j_ScheduledAt j")
  case True
  from do_ZAdd [OF assms(1), of DelayedQueue "time_Unix (j_ScheduledAt j)" d]
  obtain q' where "redis_do (\<lambda>c. c_ZAdd c DelayedQueue (time_Unix (j_ScheduledAt j)) d) q = (None, q')"
    "queue_up q'" "q_view q' = (q_view q)\<lparr>rv_zsets := (rv_zsets (q_view q))(DelayedQueue :=
       (rv_zsets (q_view q) DelayedQueue)(d \<mapsto> time_Unix (j_ScheduledAt j)))\<rparr>" by blast
  with True assms(2) show ?thesis by (simp add: Push_def abs_push_def abs_simps)
next
  case False
  from do_LPush [OF assms(1), of JobQueue d]
  obtain q' where "redis_do (\<lambda>c. c_LPush c JobQueue d) q = (None, q')"
    "queue_up q'" "q_view q' = rcmd_effect (RLPush JobQueue d) (q_view q)" by blast
  with False assms(2) show ?thesis by (simp add: Push_def abs_push_def abs_simps)
qed

lemma move_commands_effect:
  "pipe_effect (move_commands ds) v =
     v\<lparr>rv_lists := (rv_lists v)(JobQueue := rev ds @ rv_lists v JobQueue),
       rv_zsets := (rv_zsets v)(DelayedQueue := rv_zsets v DelayedQueue |` (- set ds))\<rparr>"
proof (induction ds arbitrary: v)
  case Nil
  then show ?case by (simp add: move_commands_def)
next
  case (Cons d ds)
  have "move_commands (d # ds) = RLPush JobQueue d # RZRem DelayedQueue d # move_commands ds"
    by (simp add: move_commands_def)
  then show ?case by (simp add: Cons.IH restrict_map_def fun_eq_iff)
qed

lemma moveDelayed_query_spec:
  assumes "queue_up q"
  shows "\<exists>ds q1. moveDelayed_query now q = (Inr ds, q1) \<and> queue_up q1 \<and> q_view q1 = q_view q
    \<and> distinct ds \<and> set ds = due_entries now (abs_q q)"
  using do_ZRange [OF assms, of DelayedQueue 0 "time_Unix now"]
  by (simp add: moveDelayed_query_def due_entries_def abs_q_def)

lemma moveDelayed_exec_spec:
  assumes "queue_up q"
  shows "queue_up (moveDelayed_exec ds q)
    \<and> abs_q (moveDelayed_exec ds q) = abs_release ds (abs_q q)"
proof -
  from do_Exec [OF assms, of "move_commands ds"] obtain q2
    where "redis_do (\<lambda>c. c_Exec c (move_commands ds)) q =
        (Inr (pipe_replies (move_commands ds) (q_view q)), q2)"
      and q2: "queue_up q2" "q_view q2 = pipe_effect (move_commands ds) (q_view q)" by blast
  then have "moveDelayed_exec ds q = q2" by (simp add: moveDelayed_exec_def)
  with q2 show ?thesis by (simp add: abs_release_def abs_simps move_commands_effect)
qed

lemma abs_q_cong: "q_view q = q_view q' \<Longrightarrow> abs_q q = abs_q q'"
  by (simp add: abs_q_def)

lemma abs_release_Nil [simp]: "abs_release [] a = a"
  by (simp add: abs_release_def restrict_map_def)

lemma moveDelayedJobs_refines:
  assumes "queue_up q"
  shows "\<exists>ds. distinct ds \<and> set ds = due_entries now (abs_q q) \<and> queue_up (moveDelayedJobs now q)
    \<and> abs_q (moveDelayedJobs now q) = abs_release ds (abs_q q)"
proof -
  from moveDelayed_query_spec [OF assms, of now] obtain ds q1
    where q1: "moveDelayed_query now q = (Inr ds, q1)" "queue_up q1" "q_view q1 = q_view q"
      and ds: "distinct ds" "set ds = due_entries now (abs_q q)" by blast
  from q1(1) have "moveDelayedJobs now q = (if ds = [] then q1 else moveDelayed_exec ds q1)"
    by (simp add: moveDelayedJobs_def)
  moreover have "abs_q q1 = abs_q q" using q1(3) by (rule abs_q_cong)
  ultimately show ?thesis
    using ds moveDelayed_exec_spec [OF q1(2), of ds] q1(2) by (intro exI [of _ ds]) simp
qed

lemma moveToProcessing_view:
  assumes "queue_up q" and "moveToProcessing j q = (e, q')"
  shows "queue_up q' \<and> abs_q q' = abs_q q"
proof (cases "marshal_job j")
  case (Inl err)
  with assms show ?thesis by (simp add: moveToProcessing_def)
next
  case (Inr d)
  with assms do_LPush [OF assms(1), of ProcessingQueue d] show ?thesis
    by (auto simp: moveToProcessing_def abs_simps)
qed

lemma snd_moveToProcessing:
  "queue_up q \<Longrightarrow> queue_up (snd (moveToProcessing j q)) \<and> abs_q (snd (moveToProcessing j q)) = abs_q q"
  using moveToProcessing_view [of q j "fst (moveToProcessing j q)" "snd (moveToProcessing j q)"]
  by simp

text \<open>The answer of \<open>Pop\<close> and what is left, from the entries that wait once the due ones are
  released.\<close>

fun abs_pop :: "abs_queue \<Rightarrow> job option res \<times> abs_queue" where
  "abs_pop a = (case a_waiting a of
       [] \<Rightarrow> (Inr None, a)
     | d # rest \<Rightarrow>
         ((case unmarshal_job d of
             Inl err \<Rightarrow> Inl (Wrap ''failed to unmarshal job'' err)
           | Inr j \<Rightarrow> Inr (Some j)), a\<lparr>a_waiting := rest\<rparr>))"

lemma Pop_refines:
  assumes "queue_up q"
  shows "\<exists>ds r q'. distinct ds \<and> set ds = due_entries now (abs_q q) \<and> Pop now q = (r, q')
    \<and> queue_up q' \<and> (r, abs_q q') = abs_pop (abs_release ds (abs_q q))"
proof -
  let ?q1 = "moveDelayedJobs now q"
  from moveDelayedJobs_refines [OF assms] obtain ds
    where ds: "distinct ds" "set ds = due_entries now (abs_q q)"
      and q1: "queue_up ?q1" "abs_q ?q1 = abs_release ds (abs_q q)" by blast
  have w: "a_waiting (abs_q ?q1) = rev (rv_lists (q_view ?q1) JobQueue)" by (simp add: abs_q_def)
  show ?thesis
  proof (cases "rv_lists (q_view ?q1) JobQueue = []")
    case True
    with do_BRPop [OF q1(1), of JobQueue] obtain q2
      where q2: "redis_do (\<lambda>c. c_BRPop c JobQueue) ?q1 = (Inl RedisNil, q2)" "queue_up q2"
        "q_view q2 = q_view ?q1" by auto
    then have "Pop now q = (Inr None, q2)" by (simp add: Pop_def)
    moreover have "abs_q q2 = abs_q ?q1" using q2(3) by (simp add: abs_q_def)
    ultimately show ?thesis using True w q1 q2(2) ds by (intro exI [of _ ds]) simp
  next
    case False
    let ?d = "last (rv_lists (q_view ?q1) JobQueue)"
    from False do_BRPop [OF q1(1), of JobQueue] obtain q2
      where q2: "redis_do (\<lambda>c. c_BRPop c JobQueue) ?q1 = (Inr ?d, q2)" "queue_up q2"
        "q_view q2 = (q_view ?q1)\<lparr>rv_lists := (rv_lists (q_view ?q1))(JobQueue :=
           butlast (rv_lists (q_view ?q1) JobQueue))\<rparr>" by auto
    obtain rest where rest: "rv_lists (q_view ?q1) JobQueue = rest @ [?d]"
      using False by (metis append_butlast_last_id)
    then have wait: "a_waiting (abs_q ?q1) = ?d # rev rest"
      unfolding w by (metis rev_eq_Cons_iff rev_rev_ident)
    have a2: "abs_q q2 = (abs_q ?q1)\<lparr>a_waiting := rev rest\<rparr>"
      using q2(3) rest by (simp add: abs_simps) (metis butlast_snoc)
    show ?thesis
    proof (cases "unmarshal_job ?d")
      case (Inl e)
      with q2 have "Pop now q = (Inl (Wrap ''failed to unmarshal job'' e), q2)" by (simp add: Pop_def)
      with Inl wait a2 q1 q2(2) ds show ?thesis by (intro exI [of _ ds]) simp
    next
      case (Inr j)
      with q2 have "Pop now q = (Inr (Some j), snd (moveToProcessing j q2))" by (simp add: Pop_def)
      with Inr wait a2 q1 snd_moveToProcessing [OF q2(2)] ds show ?thesis
        by (intro exI [of _ ds]) simp
    qed
  qed
qed

lemma removeFromProcessing_spec:
  assumes "queue_up q" and "marshal_job j = Inr d"
  shows "\<exists>q'. removeFromProcessing j q = (None, q') \<and> queue_up q'
    \<and> q_view q' = (q_view q)\<lparr>rv_lists := (rv_lists (q_view q))(ProcessingQueue :=
         remove1 d (rv_lists (q_view q) ProcessingQueue))\<rparr>"
  using do_LRem [OF assms(1), of ProcessingQueue d] assms(2) by (simp add: removeFromProcessing_def)

lemma push_finished_spec:
  assumes "queue_up q" and "marshal_job j = Inr d"
  shows "\<exists>q1 q'. removeFromProcessing j q = (None, q1) \<and> push_finished key j q = (None, q') \<and> queue_up q'
    \<and> q_view q' = rcmd_effect (RLPush key d) (q_view q1)"
proof -
  from removeFromProcessing_spec [OF assms] obtain q1
    where "removeFromProcessing j q = (None, q1)" "queue_up q1" by blast
  with do_LPush [of q1 key d] assms(2) show ?thesis by (auto simp: push_finished_def)
qed

lemma Complete_refines:
  assumes "queue_up q" and "marshal_job j = Inr d"
  shows "\<exists>q'. Complete j q = (None, q') \<and> queue_up q'
    \<and> abs_q q' = (abs_q q)\<lparr>a_completed := d # a_completed (abs_q q)\<rparr>"
  using push_finished_spec [OF assms, of CompletedQueue] removeFromProcessing_spec [OF assms]
  by (auto simp: Complete_def abs_simps)

lemma Fail_refines:
  assumes "queue_up q" and "marshal_job j = Inr d"
  shows "\<exists>q'. Fail j q = (None, q') \<and> queue_up q'
    \<and> abs_q q' = (abs_q q)\<lparr>a_failed := d # a_failed (abs_q q)\<rparr>"
  using push_finished_spec [OF assms, of FailedQueue] removeFromProcessing_spec [OF assms]
  by (auto simp: Fail_def abs_simps)

lemma Retry_refines:
  assumes "queue_up q" and "marshal_job j = Inr d0"
    and "marshal_job (j\<lparr>j_ScheduledAt := now1 + delay\<rparr>) = Inr d"
  shows "\<exists>q'. Retry now1 now2 j delay q = ((None, j\<lparr>j_ScheduledAt := now1 + delay\<rparr>), q') \<and> queue_up q'
    \<and> abs_q q' = abs_push now2 (now1 + delay) d (abs_q q)"
proof -
  let ?j = "j\<lparr>j_ScheduledAt := now1 + delay\<rparr>"
  from removeFromProcessing_spec [OF assms(1,2)] obtain q1
    where q1: "removeFromProcessing j q = (None, q1)" "queue_up q1" "abs_q q1 = abs_q q"
    by (auto simp: abs_simps)
  from Push_refines [OF q1(2) assms(3), of now2] obtain q2
    where "Push now2 ?j q1 = (None, q2)" "queue_up q2"
      "abs_q q2 = abs_push now2 (now1 + delay) d (abs_q q1)" by auto
  with q1 show ?thesis by (simp add: Retry_def)
qed

section \<open>The interface\<close>

text \<open>
  What the server and the worker pool rely on: each operation carries out the abstract one.
  A series of pushes followed by a series of pops is a client of this interface.
\<close>

fun push_all :: "(gtime \<Rightarrow> job \<Rightarrow> 'q \<Rightarrow> goerr option \<times> 'q) \<Rightarrow> (gtime \<times> job) list \<Rightarrow> 'q \<Rightarrow> 'q" where
  "push_all push [] q = q"
| "push_all push ((t, j) # xs) q = push_all push xs (snd (push t j q))"

fun pop_all ::
  "(gtime \<Rightarrow> 'q \<Rightarrow> job option res \<times> 'q) \<Rightarrow> gtime list \<Rightarrow> 'q \<Rightarrow> job option res list \<times> 'q" where
  "pop_all pop [] q = ([], q)"
| "pop_all pop (t # ts) q =
     (let (r, q1) = pop t q; (rs, q2) = pop_all pop ts q1 in (r # rs, q2))"

locale job_queue =
  fixes push :: "gtime \<Rightarrow> job \<Rightarrow> 'q \<Rightarrow> goerr option \<times> 'q"
    and pop :: "gtime \<Rightarrow> 'q \<Rightarrow> job option res \<times> 'q"
    and complete :: "job \<Rightarrow> 'q \<Rightarrow> goerr option \<times> 'q"
    and fail :: "job \<Rightarrow> 'q \<Rightarrow> goerr option \<times> 'q"
    and retry :: "gtime \<Rightarrow> gtime \<Rightarrow> job \<Rightarrow> duration \<Rightarrow> 'q \<Rightarrow> (goerr option \<times> job) \<times> 'q"
    and up :: "'q \<Rightarrow> bool"
    and view :: "'q \<Rightarrow> abs_queue"
  assumes push_spec: "up q \<Longrightarrow> marshal_job j = Inr d \<Longrightarrow>
      \<exists>q'. push now j q = (None, q') \<and> up q' \<and> view q' = abs_push now (j_ScheduledAt j) d (view q)"
    and pop_spec: "up q \<Longrightarrow>
      \<exists>ds r q'. distinct ds \<and> set ds = due_entries now (view q) \<and> pop now q = (r, q') \<and> up q'
        \<and> (r, view q') = abs_pop (abs_release ds (view q))"
    and complete_spec: "up q \<Longrightarrow> marshal_job j = Inr d \<Longrightarrow>
      \<exists>q'. complete j q = (None, q') \<and> up q' \<and> view q' = (view q)\<lparr>a_completed := d # a_completed (view q)\<rparr>"
    and fail_spec: "up q \<Longrightarrow> marshal_job j = Inr d \<Longrightarrow>
      \<exists>q'. fail j q = (None, q') \<and> up q' \<and> view q' = (view q)\<lparr>a_failed := d # a_failed (view q)\<rparr>"
    and retry_spec: "up q \<Longrightarrow> marshal_job j = Inr d0 \<Longrightarrow>
      marshal_job (j\<lparr>j_ScheduledAt := now1 + delay\<rparr>) = Inr d \<Longrightarrow>
      \<exists>q'. retry now1 now2 j delay q = ((None, j\<lparr>j_ScheduledAt := now1 + delay\<rparr>), q') \<and> up q'
        \<and> view q' = abs_push now2 (now1 + delay) d (view q)"
begin

lemma push_all_due:
  "up q \<Longrightarrow> \<forall>(t, j)\<in>set xs. is_ok (marshal_job j) \<and> j_ScheduledAt j \<le> t \<Longrightarrow>
   up (push_all push xs q) \<and> view (push_all push xs q) =
     (view q)\<lparr>a_waiting := a_waiting (view q) @ map (\<lambda>(t, j). JObj (job_fields j)) xs\<rparr>"
proof (induction xs arbitrary: q)
  case Nil
  then show ?case by simp
next
  case (Cons x xs)
  obtain t j where x: "x = (t, j)" by (cases x)
  with Cons.prems obtain d where d: "marshal_job j = Inr d" by (auto simp: is_ok_iff)
  from push_spec [OF Cons.prems(1) d, of t] obtain q'
    where q': "push t j q = (None, q')" "up q'" "view q' = abs_push t (j_ScheduledAt j) d (view q)" by blast
  with Cons.prems x have "view q' = (view q)\<lparr>a_waiting := a_waiting (view q) @ [d]\<rparr>"
    by (simp add: abs_push_def)
  with Cons.IH [OF q'(2)] Cons.prems x q'(1) d show ?case
    by (auto dest: marshal_job_InrD)
qed

lemma pop_waiting:
  assumes "up q" and "due_entries now (view q) = {}"
  obtains q' where "pop now q = (fst (abs_pop (view q)), q')" "up q'" "view q' = snd (abs_pop (view q))"
  using pop_spec [OF assms(1), of now] assms(2)
  by (auto simp del: abs_pop.simps) (metis fst_conv snd_conv)

lemma pop_all_waiting:
  assumes "up q" and "a_delayed (view q) = Map.empty"
    and "a_waiting (view q) = map (\<lambda>j. JObj (job_fields j)) js @ rest"
    and "\<forall>j\<in>set js. wf_job j" and "length ts = length js"
  shows "fst (pop_all pop ts q) = map (\<lambda>j. Inr (Some j)) js"
  using assms
proof (induction js arbitrary: q ts)
  case Nil
  then show ?case by simp
next
  case (Cons j js)
  from Cons.prems(5) obtain t ts' where ts: "ts = t # ts'" "length ts' = length js"
    by (cases ts) auto
  have "due_entries t (view q) = {}" using Cons.prems(2) by (simp add: due_entries_def in_score_range_def)
  from pop_waiting [OF Cons.prems(1) this] obtain q'
    where q': "pop t q = (fst (abs_pop (view q)), q')" "up q'" "view q' = snd (abs_pop (view q))" by blast
  have "abs_pop (view q) = (Inr (Some j), (view q)\<lparr>a_waiting := map (\<lambda>j. JObj (job_fields j)) js @ rest\<rparr>)"
    using Cons.prems(3,4) by (simp add: unmarshal_job_fields)
  with Cons.IH [of q' ts'] q' Cons.prems ts show ?case by (simp add: split_beta Let_def)
qed

lemma fifo:
  assumes "up q" and "a_waiting (view q) = []" and "a_delayed (view q) = Map.empty"
    and "\<forall>(t, j)\<in>set xs. wf_job j \<and> is_ok (marshal_job j) \<and> j_ScheduledAt j \<le> t"
    and "length ts = length xs"
  shows "fst (pop_all pop ts (push_all push xs q)) = map (\<lambda>(t, j). Inr (Some j)) xs"
proof -
  from assms(1,4) have p: "up (push_all push xs q)"
    "view (push_all push xs q) = (view q)\<lparr>a_waiting := a_waiting (view q) @ map (\<lambda>(t, j). JObj (job_fields j)) xs\<rparr>"
    using push_all_due [of q xs] by auto
  have "fst (pop_all pop ts (push_all push xs q)) = map (\<lambda>j. Inr (Some j)) (map snd xs)"
    using p assms by (intro pop_all_waiting [where rest = "[]"]) (auto simp: split_beta comp_def)
  then show ?thesis by (simp add: split_beta comp_def)
qed

end

interpretation rq: job_queue Push Pop Complete Fail Retry queue_up abs_q
proof (unfold_locales, goal_cases)
  case 1
  then show ?case by (rule Push_refines)
next
  case 2
  then show ?case by (rule Pop_refines)
next
  case 3
  then show ?case by (rule Complete_refines)
next
  case 4
  then show ?case by (rule Fail_refines)
next
  case 5
  then show ?case by (rule Retry_refines)
qed

section \<open>Properties\<close>

definition new_queue :: "mem_redis RedisQueue" where
  "new_queue = \<lparr>q_client = mem_client, q_db = mem_empty\<rparr>"

definition sample_job :: job where
  "sample_job = zero_job\<lparr>j_ID := 7, j_Type := ''email'', j_Status := StatusPending,
     j_Priority := PriorityNormal, j_MaxRetries := 3\<rparr>"

lemma new_queue_facts:
  "queue_up new_queue" "a_waiting (abs_q new_queue) = []" "a_delayed (abs_q new_queue) = Map.empty"
  by (simp_all add: queue_up_def new_queue_def mem_contract mem_reliable abs_q_def q_view_def
      mem_view_def mem_empty_def)

lemma sample_job_facts:
  "wf_job (sample_job\<lparr>j_ID := i, j_ScheduledAt := t\<rparr>)"
  "json_time_ok t \<Longrightarrow> is_ok (marshal_job (sample_job\<lparr>j_ID := i, j_ScheduledAt := t\<rparr>))"
  by (simp_all add: sample_job_def zero_job_def wf_job_def in_int64_def status_simps marshal_job_def
      job_times_def json_time_ok_def zero_time_def)

text \<open>C9: jobs that are due are popped in the order they were pushed, each exactly as it was.\<close>

theorem queue_is_fifo:
  assumes "queue_up q" and "a_waiting (abs_q q) = []" and "a_delayed (abs_q q) = Map.empty"
    and "\<forall>(t, j)\<in>set xs. wf_job j \<and> is_ok (marshal_job j) \<and> j_ScheduledAt j \<le> t"
    and "length ts = length xs"
  shows "fst (pop_all Pop ts (push_all Push xs q)) = map (\<lambda>(t, j). Inr (Some j)) xs"
  using assms by (rule rq.fifo)

theorem queue_is_fifo_witness:
  "fst (pop_all Pop [9, 9] (push_all Push
      [(5, sample_job\<lparr>j_ID := 1, j_ScheduledAt := 5\<rparr>), (6, sample_job\<lparr>j_ID := 2, j_ScheduledAt := 4\<rparr>)]
      new_queue))
   = [Inr (Some (sample_job\<lparr>j_ID := 1, j_ScheduledAt := 5\<rparr>)),
      Inr (Some (sample_job\<lparr>j_ID := 2, j_ScheduledAt := 4\<rparr>))]"
  using queue_is_fifo [OF new_queue_facts, of
      "[(5, sample_job\<lparr>j_ID := 1, j_ScheduledAt := 5\<rparr>), (6, sample_job\<lparr>j_ID := 2, j_ScheduledAt := 4\<rparr>)]"
      "[9, 9]"]
  by (simp add: sample_job_facts json_time_ok_def)

text \<open>C12: a job pushed with a future instant is held back until the second of that instant has
  come, and the first pop in that second or later yields it.\<close>

theorem delayed_until_due:
  assumes "queue_up q" and "a_waiting (abs_q q) = []" and "a_delayed (abs_q q) = Map.empty"
    and "wf_job j" and "marshal_job j = Inr d" and "t0 < j_ScheduledAt j" and "0 \<le> t0"
  shows "fst (Pop t (snd (Push t0 j q))) =
    (if time_Unix t < time_Unix (j_ScheduledAt j) then Inr None else Inr (Some j))"
proof -
  from Push_refines [OF assms(1,5), of t0] obtain q1
    where "Push t0 j q = (None, q1)" and q1: "queue_up q1"
      "abs_q q1 = abs_push t0 (j_ScheduledAt j) d (abs_q q)" by blast
  then have snd: "snd (Push t0 j q) = q1" by simp
  let ?s = "time_Unix (j_ScheduledAt j)"
  have "0 \<le> ?s" using assms(6,7) by (simp add: time_Unix_def)
  then have due: "due_entries t (abs_q q1) = (if time_Unix t < ?s then {} else {d})"
    using q1(2) assms(3,6) by (auto simp: abs_push_def due_entries_def in_score_range_def)
  have w: "a_waiting (abs_q q1) = []" using q1(2) assms(2,6) by (simp add: abs_push_def)
  from Pop_refines [OF q1(1), of t] obtain ds r q2
    where ds: "distinct ds" "set ds = due_entries t (abs_q q1)" and "Pop t q1 = (r, q2)"
      and r: "(r, abs_q q2) = abs_pop (abs_release ds (abs_q q1))" by blast
  from ds due have "ds = (if time_Unix t < ?s then [] else [d])"
    by (auto intro: distinct_singleton)
  with r w have "r = (if time_Unix t < ?s then Inr None else Inr (Some j))"
    using marshal_job_InrD [OF assms(5)] unmarshal_job_fields [OF assms(4)]
    by (auto simp: abs_release_def split: if_splits)
  with snd \<open>Pop t q1 = (r, q2)\<close> show ?thesis by simp
qed

theorem delayed_until_due_witness:
  "fst (Pop (seconds 3) (snd (Push 0 (sample_job\<lparr>j_ID := 1, j_ScheduledAt := seconds 4\<rparr>) new_queue))) = Inr None"
proof -
  obtain d where "marshal_job (sample_job\<lparr>j_ID := 1, j_ScheduledAt := seconds 4\<rparr>) = Inr d"
    using sample_job_facts(2) [of "seconds 4" 1] by (auto simp: json_time_ok_def is_ok_iff)
  from delayed_until_due [OF new_queue_facts sample_job_facts(1) this, of 0 "seconds 3"]
  show ?thesis by (simp add: time_Unix_def)
qed

lemma mset_distinct_count: "distinct xs \<Longrightarrow> x \<in> set xs \<Longrightarrow> count (mset xs) x = 1"
  by (simp add: distinct_count_atmost_1)

text \<open>C27: the release of due entries is not atomic. When two nodes run it at the same time, each
  asking for the due entries before either has moved them, every due entry waits twice.\<close>

theorem concurrent_release_duplicates:
  assumes "queue_up q" and "d \<in> due_entries now (abs_q q)"
  shows "\<exists>ds1 ds2 q1 q2. moveDelayed_query now q = (Inr ds1, q1)
    \<and> moveDelayed_query now q1 = (Inr ds2, q2)
    \<and> count (mset (a_waiting (abs_q (moveDelayed_exec ds2 (moveDelayed_exec ds1 q2))))) d
        = count (mset (a_waiting (abs_q q))) d + 2"
proof -
  from moveDelayed_query_spec [OF assms(1), of now] obtain ds1 q1
    where q1: "moveDelayed_query now q = (Inr ds1, q1)" "queue_up q1" "q_view q1 = q_view q"
      and ds1: "distinct ds1" "set ds1 = due_entries now (abs_q q)" by blast
  from moveDelayed_query_spec [OF q1(2), of now] obtain ds2 q2
    where q2: "moveDelayed_query now q1 = (Inr ds2, q2)" "queue_up q2" "q_view q2 = q_view q1"
      and ds2: "distinct ds2" "set ds2 = due_entries now (abs_q q1)" by blast
  have eq: "abs_q q1 = abs_q q" "abs_q q2 = abs_q q" using q1(3) q2(3) by (simp_all add: abs_q_def)
  let ?q3 = "moveDelayed_exec ds1 q2"
  have "abs_q (moveDelayed_exec ds2 ?q3) = abs_release ds2 (abs_release ds1 (abs_q q))"
    using moveDelayed_exec_spec [OF q2(2), of ds1] moveDelayed_exec_spec [of ?q3 ds2] eq by simp
  then have "a_waiting (abs_q (moveDelayed_exec ds2 ?q3)) = a_waiting (abs_q q) @ ds1 @ ds2"
    by (simp add: abs_release_def)
  with ds1 ds2 eq assms(2) q1(1) q2(1) show ?thesis by (auto simp: mset_distinct_count)
qed

theorem concurrent_release_duplicates_witness:
  "\<exists>ds1 ds2 q1 q2. moveDelayed_query (seconds 5)
        (snd (Push 0 (sample_job\<lparr>j_ID := 1, j_ScheduledAt := seconds 4\<rparr>) new_queue)) = (Inr ds1, q1)
    \<and> moveDelayed_query (seconds 5) q1 = (Inr ds2, q2)"
proof -
  let ?j = "sample_job\<lparr>j_ID := 1, j_ScheduledAt := seconds 4\<rparr>"
  obtain d where d: "marshal_job ?j = Inr d"
    using sample_job_facts(2) [of "seconds 4" 1] by (auto simp: json_time_ok_def is_ok_iff)
  from Push_refines [OF new_queue_facts(1) d, of 0] obtain q
    where q: "Push 0 ?j new_queue = (None, q)" "queue_up q"
      "abs_q q = abs_push 0 (j_ScheduledAt ?j) d (abs_q new_queue)" by blast
  have "d \<in> due_entries (seconds 5) (abs_q q)"
    unfolding q(3) by (simp add: abs_push_def due_entries_def in_score_range_def time_Unix_def)
  from concurrent_release_duplicates [OF q(2) this] q(1) show ?thesis by auto
qed

end
