(* ===== verification/Mongo.thy ===== *)
theory Mongo
  imports Job
begin

text \<open>
  The MongoDB database as the storage sees it through the Go driver. The driver's calls are
  a parameter, the record \<open>mongo_client\<close> over a database state of any type; filters and
  updates are the values the program builds for them. \<open>mongo_contract\<close> states the
  documented effect of the calls on the documents of the two collections, which are seen as the
  structs they decode to (the field names are the \<open>bson\<close> tags of \<open>job.Job\<close> and
  \<open>storage.NodeInfo\<close>). \<open>mongo_reliable\<close> adds that calls do not fail. An
  in-memory database meets both and serves the witnesses.
\<close>

section \<open>Node documents\<close>

record NodeInfo =
  ni_ID :: string
  ni_Address :: string
  ni_IsLeader :: bool
  ni_LastSeen :: gtime
  ni_WorkerCount :: int
  ni_Version :: string
  ni_Term :: int

section \<open>Values, filters and updates\<close>

text \<open>A BSON date counts milliseconds, rounded down from the instant it encodes.\<close>

datatype bval = BStr string | BBool bool | BInt int | BTime int | BOid ObjectID

definition btime :: "gtime \<Rightarrow> bval" where
  "btime t = BTime (t div 1000000)"

definition bson_ms :: "gtime \<Rightarrow> gtime" where
  "bson_ms t = t div 1000000 * 1000000"

datatype cond = CEq bval | CNe bval | CLt bval | CLte bval | CGte bval | CIn "bval list"

type_synonym bfilter = "(string \<times> cond list) list"
type_synonym bset = "(string \<times> bval) list"

fun bval_less :: "bval \<Rightarrow> bval \<Rightarrow> bool" where
  "bval_less (BTime a) (BTime b) \<longleftrightarrow> a < b"
| "bval_less (BInt a) (BInt b) \<longleftrightarrow> a < b"
| "bval_less _ _ \<longleftrightarrow> False"

fun bval_le :: "bval \<Rightarrow> bval \<Rightarrow> bool" where
  "bval_le (BTime a) (BTime b) \<longleftrightarrow> a \<le> b"
| "bval_le (BInt a) (BInt b) \<longleftrightarrow> a \<le> b"
| "bval_le _ _ \<longleftrightarrow> False"

text \<open>A condition on a field, which may be absent.\<close>

fun cond_ok :: "bval option \<Rightarrow> cond \<Rightarrow> bool" where
  "cond_ok v (CEq w) \<longleftrightarrow> v = Some w"
| "cond_ok v (CNe w) \<longleftrightarrow> v \<noteq> Some w"
| "cond_ok (Some v) (CLt w) \<longleftrightarrow> bval_less v w"
| "cond_ok (Some v) (CLte w) \<longleftrightarrow> bval_le v w"
| "cond_ok (Some v) (CGte w) \<longleftrightarrow> bval_le w v"
| "cond_ok (Some v) (CIn ws) \<longleftrightarrow> v \<in> set ws"
| "cond_ok None _ \<longleftrightarrow> False"

definition matches :: "(string \<Rightarrow> bval option) \<Rightarrow> bfilter \<Rightarrow> bool" where
  "matches get f \<longleftrightarrow> list_all (\<lambda>(k, cs). list_all (cond_ok (get k)) cs) f"

lemma matches_simps [simp]:
  "matches get []"
  "matches get ((k, cs) # f) \<longleftrightarrow> list_all (cond_ok (get k)) cs \<and> matches get f"
  by (simp_all add: matches_def)

section \<open>Documents as structs\<close>

definition omit_empty :: "string \<Rightarrow> bval option" where
  "omit_empty s = (if s = '''' then None else Some (BStr s))"

definition job_field :: "job \<Rightarrow> string \<Rightarrow> bval option" where
  "job_field j k =
     (if k = ''_id'' then Some (BOid (j_ID j))
      else if k = ''type'' then Some (BStr (j_Type j))
      else if k = ''status'' then Some (BStr (j_Status j))
      else if k = ''priority'' then Some (BInt (j_Priority j))
      else if k = ''created_at'' then Some (btime (j_CreatedAt j))
      else if k = ''updated_at'' then Some (btime (j_UpdatedAt j))
      else if k = ''scheduled_at'' then Some (btime (j_ScheduledAt j))
      else if k = ''started_at'' then map_option btime (j_StartedAt j)
      else if k = ''completed_at'' then map_option btime (j_CompletedAt j)
      else if k = ''retry_count'' then Some (BInt (j_RetryCount j))
      else if k = ''max_retries'' then Some (BInt (j_MaxRetries j))
      else if k = ''worker_id'' then omit_empty (j_WorkerID j)
      else if k = ''error'' then omit_empty (j_Error j)
      else None)"

definition node_field :: "NodeInfo \<Rightarrow> string \<Rightarrow> bval option" where
  "node_field n k =
     (if k = ''_id'' then Some (BStr (ni_ID n))
      else if k = ''address'' then Some (BStr (ni_Address n))
      else if k = ''is_leader'' then Some (BBool (ni_IsLeader n))
      else if k = ''last_seen'' then Some (btime (ni_LastSeen n))
      else if k = ''worker_count'' then Some (BInt (ni_WorkerCount n))
      else if k = ''version'' then Some (BStr (ni_Version n))
      else if k = ''term'' then (if ni_Term n = 0 then None else Some (BInt (ni_Term n)))
      else None)"

text \<open>\<open>$set\<close> on a node document, field by field.\<close>

fun set_node_field :: "string \<Rightarrow> bval \<Rightarrow> NodeInfo \<Rightarrow> NodeInfo" where
  "set_node_field k (BStr s) n =
     (if k = ''address'' then n\<lparr>ni_Address := s\<rparr>
      else if k = ''version'' then n\<lparr>ni_Version := s\<rparr> else n)"
| "set_node_field k (BBool b) n = (if k = ''is_leader'' then n\<lparr>ni_IsLeader := b\<rparr> else n)"
| "set_node_field k (BInt i) n =
     (if k = ''worker_count'' then n\<lparr>ni_WorkerCount := i\<rparr>
      else if k = ''term'' then n\<lparr>ni_Term := i\<rparr> else n)"
| "set_node_field k (BTime ms) n = (if k = ''last_seen'' then n\<lparr>ni_LastSeen := ms * 1000000\<rparr> else n)"
| "set_node_field k (BOid i) n = n"

fun apply_set :: "bset \<Rightarrow> NodeInfo \<Rightarrow> NodeInfo" where
  "apply_set [] n = n"
| "apply_set ((k, v) # u) n = apply_set u (set_node_field k v n)"

text \<open>A document an upsert creates holds the \<open>_id\<close> of the filter; absent fields decode to zero
  values.\<close>

definition blank_node :: "string \<Rightarrow> NodeInfo" where
  "blank_node i = \<lparr>ni_ID = i, ni_Address = '''', ni_IsLeader = False, ni_LastSeen = zero_time,
     ni_WorkerCount = 0, ni_Version = '''', ni_Term = 0\<rparr>"

lemma apply_set_ID [simp]: "ni_ID (apply_set u n) = ni_ID n"
proof (induction u n rule: apply_set.induct)
  case (2 k v u n)
  then show ?case by (cases v) simp_all
qed simp

text \<open>
  A job as its document is read back: dates in milliseconds. \<open>$set\<close> with a whole job writes
  the fields the struct encodes, so a nil or empty \<open>omitempty\<close> field of the job leaves the
  document's field as it was.
\<close>

definition bson_job :: "job \<Rightarrow> job" where
  "bson_job j = j\<lparr>j_CreatedAt := bson_ms (j_CreatedAt j), j_UpdatedAt := bson_ms (j_UpdatedAt j),
     j_ScheduledAt := bson_ms (j_ScheduledAt j), j_StartedAt := map_option bson_ms (j_StartedAt j),
     j_CompletedAt := map_option bson_ms (j_CompletedAt j)\<rparr>"

definition bson_set_job :: "job \<Rightarrow> job \<Rightarrow> job" where
  "bson_set_job j old = (let n = bson_job j in
     n\<lparr>j_ID := j_ID old,
       j_StartedAt := (if j_StartedAt n = None then j_StartedAt old else j_StartedAt n),
       j_CompletedAt := (if j_CompletedAt n = None then j_CompletedAt old else j_CompletedAt n),
       j_WorkerID := (if j_WorkerID n = '''' then j_WorkerID old else j_WorkerID n),
       j_Error := (if j_Error n = '''' then j_Error old else j_Error n)\<rparr>)"

lemma bson_ms_le: "bson_ms t \<le> t" and bson_ms_gt: "t - millis 1 < bson_ms t"
  unfolding bson_ms_def by (simp_all add: minus_mod_eq_div_mult [symmetric])

lemma bson_ms_idem [simp]: "bson_ms (bson_ms t) = bson_ms t"
  by (simp add: bson_ms_def)

lemma btime_bson_ms [simp]: "btime (bson_ms t) = btime t"
  by (simp add: bson_ms_def btime_def)

section \<open>The driver\<close>

record UpdateResult =
  MatchedCount :: int
  ModifiedCount :: int
  UpsertedCount :: int

record find_options =
  fo_Limit :: "int option"
  fo_Skip :: "int option"
  fo_SortDesc :: string

text \<open>
  A cursor is the list of what each \<open>Decode\<close> returns and the final \<open>cursor.Err()\<close>.
\<close>

type_synonym 'a cursor = "'a res list \<times> goerr option"

record 'd mongo_client =
  jobs_InsertOne :: "job \<Rightarrow> 'd \<Rightarrow> goerr option \<times> 'd"
  jobs_UpdateOne :: "bfilter \<Rightarrow> job \<Rightarrow> 'd \<Rightarrow> UpdateResult res \<times> 'd"
  jobs_FindOne :: "bfilter \<Rightarrow> 'd \<Rightarrow> job res \<times> 'd"
  jobs_Find :: "bfilter \<Rightarrow> find_options \<Rightarrow> 'd \<Rightarrow> job cursor res \<times> 'd"
  jobs_DeleteOne :: "bfilter \<Rightarrow> 'd \<Rightarrow> int res \<times> 'd"
  jobs_GroupCount :: "string \<Rightarrow> 'd \<Rightarrow> (string \<times> int) cursor res \<times> 'd"
  nodes_UpdateOne :: "bfilter \<Rightarrow> bset \<Rightarrow> bool \<Rightarrow> 'd \<Rightarrow> UpdateResult res \<times> 'd"
  nodes_UpdateMany :: "bfilter \<Rightarrow> bset \<Rightarrow> 'd \<Rightarrow> UpdateResult res \<times> 'd"
  nodes_CountDocuments :: "bfilter \<Rightarrow> 'd \<Rightarrow> int res \<times> 'd"
  nodes_Find :: "bfilter \<Rightarrow> 'd \<Rightarrow> NodeInfo cursor res \<times> 'd"
  nodes_DeleteMany :: "bfilter \<Rightarrow> 'd \<Rightarrow> int res \<times> 'd"
  jobs_view :: "'d \<Rightarrow> (ObjectID \<rightharpoonup> job)"
  nodes_view :: "'d \<Rightarrow> (string \<rightharpoonup> NodeInfo)"
  oid_Hex :: "ObjectID \<Rightarrow> string"
  oid_FromHex :: "string \<Rightarrow> ObjectID res"

definition by_oid :: "ObjectID \<Rightarrow> bfilter" where
  "by_oid i = [(''_id'', [CEq (BOid i)])]"

definition by_id :: "string \<Rightarrow> bfilter" where
  "by_id i = [(''_id'', [CEq (BStr i)])]"

section \<open>The contract\<close>

definition skip_limit :: "find_options \<Rightarrow> 'a list \<Rightarrow> 'a list" where
  "skip_limit fo xs =
     (let ys = (case fo_Skip fo of None \<Rightarrow> xs | Some n \<Rightarrow> drop (nat n) xs)
      in case fo_Limit fo of None \<Rightarrow> ys | Some n \<Rightarrow> take (nat n) ys)"

text \<open>The documents are finitely many, and \<open>_id\<close> identifies them.\<close>

definition law_views :: "'d mongo_client \<Rightarrow> bool" where
  "law_views c \<longleftrightarrow> (\<forall>d. finite (dom (jobs_view c d)) \<and> finite (dom (nodes_view c d))
     \<and> (\<forall>i j. jobs_view c d i = Some j \<longrightarrow> j_ID j = i)
     \<and> (\<forall>i n. nodes_view c d i = Some n \<longrightarrow> ni_ID n = i))"

text \<open>\<open>ObjectIDFromHex\<close> reads what \<open>Hex\<close> prints.\<close>

definition law_Hex :: "'d mongo_client \<Rightarrow> bool" where
  "law_Hex c \<longleftrightarrow> (\<forall>i. oid_FromHex c (oid_Hex c i) = Inr i)"

definition law_InsertOne :: "'d mongo_client \<Rightarrow> bool" where
  "law_InsertOne c \<longleftrightarrow> (\<forall>j d d'. jobs_InsertOne c j d = (None, d') \<longrightarrow>
     jobs_view c d (j_ID j) = None
     \<and> jobs_view c d' = (jobs_view c d)(j_ID j \<mapsto> bson_job j) \<and> nodes_view c d' = nodes_view c d)"

definition law_jobs_UpdateOne :: "'d mongo_client \<Rightarrow> bool" where
  "law_jobs_UpdateOne c \<longleftrightarrow> (\<forall>i j d r d'. jobs_UpdateOne c (by_oid i) j d = (Inr r, d') \<longrightarrow>
     nodes_view c d' = nodes_view c d \<and> (case jobs_view c d i of
       None \<Rightarrow> MatchedCount r = 0 \<and> jobs_view c d' = jobs_view c d
     | Some old \<Rightarrow> MatchedCount r = 1
         \<and> jobs_view c d' = (jobs_view c d)(i \<mapsto> bson_set_job j old)))"

definition law_FindOne :: "'d mongo_client \<Rightarrow> bool" where
  "law_FindOne c \<longleftrightarrow> (\<forall>i d x d'. jobs_FindOne c (by_oid i) d = (x, d') \<longrightarrow>
     jobs_view c d' = jobs_view c d \<and> nodes_view c d' = nodes_view c d \<and> (case x of
       Inr j \<Rightarrow> jobs_view c d i = Some j
     | Inl e \<Rightarrow> e = ErrNoDocuments \<longrightarrow> jobs_view c d i = None))"

definition law_jobs_Find :: "'d mongo_client \<Rightarrow> bool" where
  "law_jobs_Find c \<longleftrightarrow> (\<forall>f fo d xs d'. fo_SortDesc fo = ''created_at'' \<longrightarrow>
     jobs_Find c f fo d = (Inr (map Inr xs, None), d') \<longrightarrow>
     jobs_view c d' = jobs_view c d \<and> nodes_view c d' = nodes_view c d
     \<and> (\<exists>js. distinct js \<and> set js = {j \<in> ran (jobs_view c d). matches (job_field j) f}
          \<and> sorted_wrt (\<lambda>a b. j_CreatedAt b \<le> j_CreatedAt a) js \<and> xs = skip_limit fo js))"

definition law_DeleteOne :: "'d mongo_client \<Rightarrow> bool" where
  "law_DeleteOne c \<longleftrightarrow> (\<forall>i d n d'. jobs_DeleteOne c (by_oid i) d = (Inr n, d') \<longrightarrow>
     n = (if jobs_view c d i = None then 0 else 1)
     \<and> jobs_view c d' = (jobs_view c d)(i := None) \<and> nodes_view c d' = nodes_view c d)"

definition with_status :: "(ObjectID \<rightharpoonup> job) \<Rightarrow> string \<Rightarrow> ObjectID set" where
  "with_status v s = {i. \<exists>j. v i = Some j \<and> j_Status j = s}"

definition law_GroupCount :: "'d mongo_client \<Rightarrow> bool" where
  "law_GroupCount c \<longleftrightarrow> (\<forall>d ps d'. jobs_GroupCount c ''status'' d = (Inr (map Inr ps, None), d') \<longrightarrow>
     jobs_view c d' = jobs_view c d \<and> nodes_view c d' = nodes_view c d
     \<and> distinct (map fst ps)
     \<and> set ps = {(s, int (card (with_status (jobs_view c d) s))) |s. with_status (jobs_view c d) s \<noteq> {}})"

text \<open>A write to a single document either takes place or does not, even when an error is
  reported; the counts tell whether a document matched and whether it changed.\<close>

definition update_one_result :: "string \<Rightarrow> bset \<Rightarrow> bool \<Rightarrow> (string \<rightharpoonup> NodeInfo) \<Rightarrow> UpdateResult \<times> (string \<rightharpoonup> NodeInfo)" where
  "update_one_result i u upsert v = (case v i of
       Some n \<Rightarrow> (\<lparr>MatchedCount = 1, ModifiedCount = (if apply_set u n = n then 0 else 1), UpsertedCount = 0\<rparr>,
                 v(i \<mapsto> apply_set u n))
     | None \<Rightarrow> if upsert then (\<lparr>MatchedCount = 0, ModifiedCount = 0, UpsertedCount = 1\<rparr>,
                             v(i \<mapsto> apply_set u (blank_node i)))
               else (\<lparr>MatchedCount = 0, ModifiedCount = 0, UpsertedCount = 0\<rparr>, v))"

definition law_nodes_UpdateOne :: "'d mongo_client \<Rightarrow> bool" where
  "law_nodes_UpdateOne c \<longleftrightarrow> (\<forall>i u ups d x d'. nodes_UpdateOne c (by_id i) u ups d = (x, d') \<longrightarrow>
     jobs_view c d' = jobs_view c d \<and> (case x of
       Inr r \<Rightarrow> (r, nodes_view c d') = update_one_result i u ups (nodes_view c d)
     | Inl e \<Rightarrow> nodes_view c d' = nodes_view c d
              \<or> nodes_view c d' = snd (update_one_result i u ups (nodes_view c d))))"

definition update_many :: "bfilter \<Rightarrow> bset \<Rightarrow> (string \<rightharpoonup> NodeInfo) \<Rightarrow> (string \<rightharpoonup> NodeInfo)" where
  "update_many f u v = (\<lambda>i. map_option (\<lambda>n. if matches (node_field n) f then apply_set u n else n) (v i))"

text \<open>When \<open>updateMany\<close> fails, some of the matching documents may have been updated.\<close>

definition law_nodes_UpdateMany :: "'d mongo_client \<Rightarrow> bool" where
  "law_nodes_UpdateMany c \<longleftrightarrow> (\<forall>f u d x d'. nodes_UpdateMany c f u d = (x, d') \<longrightarrow>
     jobs_view c d' = jobs_view c d \<and> (case x of
       Inr r \<Rightarrow> nodes_view c d' = update_many f u (nodes_view c d)
     | Inl e \<Rightarrow> (\<forall>i. nodes_view c d' i = nodes_view c d i
                    \<or> nodes_view c d' i = update_many f u (nodes_view c d) i)))"

definition nodes_matching :: "bfilter \<Rightarrow> (string \<rightharpoonup> NodeInfo) \<Rightarrow> string set" where
  "nodes_matching f v = {i. \<exists>n. v i = Some n \<and> matches (node_field n) f}"

definition law_nodes_Count :: "'d mongo_client \<Rightarrow> bool" where
  "law_nodes_Count c \<longleftrightarrow> (\<forall>f d x d'. nodes_CountDocuments c f d = (x, d') \<longrightarrow>
     jobs_view c d' = jobs_view c d \<and> nodes_view c d' = nodes_view c d \<and> (case x of
       Inr k \<Rightarrow> k = int (card (nodes_matching f (nodes_view c d)))
     | Inl e \<Rightarrow> True))"

definition law_nodes_Find :: "'d mongo_client \<Rightarrow> bool" where
  "law_nodes_Find c \<longleftrightarrow> (\<forall>f d x d'. nodes_Find c f d = (x, d') \<longrightarrow>
     jobs_view c d' = jobs_view c d \<and> nodes_view c d' = nodes_view c d
     \<and> (\<forall>ns. x = Inr (map Inr ns, None) \<longrightarrow>
          distinct (map ni_ID ns) \<and> set ns = {n \<in> ran (nodes_view c d). matches (node_field n) f}))"

definition law_nodes_DeleteMany :: "'d mongo_client \<Rightarrow> bool" where
  "law_nodes_DeleteMany c \<longleftrightarrow> (\<forall>d n d'. nodes_DeleteMany c [] d = (Inr n, d') \<longrightarrow>
     jobs_view c d' = jobs_view c d \<and> nodes_view c d' = Map.empty)"

definition mongo_contract :: "'d mongo_client \<Rightarrow> bool" where
  "mongo_contract c \<longleftrightarrow> law_views c \<and> law_Hex c \<and> law_InsertOne c \<and> law_jobs_UpdateOne c \<and> law_FindOne c
     \<and> law_jobs_Find c \<and> law_DeleteOne c \<and> law_GroupCount c \<and> law_nodes_UpdateOne c
     \<and> law_nodes_UpdateMany c \<and> law_nodes_Count c \<and> law_nodes_Find c \<and> law_nodes_DeleteMany c"

definition all_decoded :: "'a cursor res \<Rightarrow> bool" where
  "all_decoded x \<longleftrightarrow> (\<exists>xs. x = Inr (map Inr xs, None))"

definition mongo_reliable :: "'d mongo_client \<Rightarrow> bool" where
  "mongo_reliable c \<longleftrightarrow>
     (\<forall>j d. jobs_view c d (j_ID j) = None \<longrightarrow> fst (jobs_InsertOne c j d) = None)
   \<and> (\<forall>f j d. is_ok (fst (jobs_UpdateOne c f j d)))
   \<and> (\<forall>f d e. fst (jobs_FindOne c f d) = Inl e \<longrightarrow> e = ErrNoDocuments)
   \<and> (\<forall>f fo d. all_decoded (fst (jobs_Find c f fo d)))
   \<and> (\<forall>f d. is_ok (fst (jobs_DeleteOne c f d)))
   \<and> (\<forall>k d. all_decoded (fst (jobs_GroupCount c k d)))
   \<and> (\<forall>f u b d. is_ok (fst (nodes_UpdateOne c f u b d)))
   \<and> (\<forall>f u d. is_ok (fst (nodes_UpdateMany c f u d)))
   \<and> (\<forall>f d. is_ok (fst (nodes_CountDocuments c f d)))
   \<and> (\<forall>f d. all_decoded (fst (nodes_Find c f d)))
   \<and> (\<forall>f d. is_ok (fst (nodes_DeleteMany c f d)))"

section \<open>Tables\<close>

text \<open>A list of values with a key each, the first one counting: the in-memory collections.\<close>

definition tab :: "('v \<Rightarrow> 'k) \<Rightarrow> 'v list \<Rightarrow> 'k \<rightharpoonup> 'v" where
  "tab key xs i = List.find (\<lambda>v. key v = i) xs"

definition vals :: "('v \<Rightarrow> 'k) \<Rightarrow> 'v list \<Rightarrow> 'v list" where
  "vals key xs = map (\<lambda>i. the (tab key xs i)) (remdups (map key xs))"

lemma tab_Nil [simp]: "tab key [] = Map.empty"
  by (simp add: tab_def fun_eq_iff)

lemma tab_Cons [simp]: "tab key (v # xs) = (tab key xs)(key v \<mapsto> v)"
  by (auto simp: tab_def fun_eq_iff)

lemma tab_key: "tab key xs i = Some v \<Longrightarrow> key v = i"
  by (auto simp: tab_def dest: find_SomeD)

lemma tab_in: "tab key xs i \<noteq> None \<longleftrightarrow> i \<in> key ` set xs"
  by (induction xs) (auto simp: tab_def)

lemma finite_tab [simp]: "finite (dom (tab key xs))"
  by (simp add: dom_def tab_in del: not_None_eq)

lemma tab_filter: "tab key (filter (\<lambda>v. key v \<noteq> k) xs) = (tab key xs)(k := None)"
  by (induction xs) (auto simp: fun_eq_iff)

lemma vals_iff: "v \<in> set (vals key xs) \<longleftrightarrow> tab key xs (key v) = Some v"
proof
  assume "v \<in> set (vals key xs)"
  then obtain i where i: "i \<in> key ` set xs" and v: "v = the (tab key xs i)" by (auto simp: vals_def)
  then have "tab key xs i = Some v" using tab_in [of key xs i] by auto
  then show "tab key xs (key v) = Some v" by (auto dest: tab_key)
next
  assume v: "tab key xs (key v) = Some v"
  then have "key v \<in> key ` set xs" using tab_in [of key xs "key v"] by simp
  then show "v \<in> set (vals key xs)" using v by (force simp: vals_def)
qed

lemma set_vals: "set (vals key xs) = ran (tab key xs)"
  by (auto simp: vals_iff ran_def) (metis tab_key)

lemma key_the_tab: "i \<in> key ` set xs \<Longrightarrow> key (the (tab key xs i)) = i"
  using tab_in [of key xs i] by (auto dest: tab_key)

lemma distinct_keys_vals: "distinct (map key (vals key xs))"
proof -
  have "map (\<lambda>i. key (the (tab key xs i))) (remdups (map key xs)) = remdups (map key xs)"
    by (rule map_idI) (simp add: key_the_tab)
  then show ?thesis unfolding vals_def map_map comp_def by (metis distinct_remdups)
qed

lemma distinct_vals: "distinct (vals key xs)"
  using distinct_keys_vals [of key xs] by (simp add: distinct_map)

lemma tab_map_vals:
  assumes "\<And>v. key (g v) = key v"
  shows "tab key (map g (vals key xs)) i = map_option g (tab key xs i)"
proof (cases "tab key xs i")
  case None
  then have "\<forall>v\<in>set (vals key xs). key v \<noteq> i" by (auto simp: vals_iff)
  then have "i \<notin> key ` set (map g (vals key xs))" using assms by auto
  then show ?thesis using None tab_in [of key "map g (vals key xs)" i] by auto
next
  case (Some v)
  then have kv: "key v = i" and "v \<in> set (vals key xs)" by (auto simp: vals_iff dest: tab_key)
  then have "g v \<in> set (map g (vals key xs))" and "key (g v) = i" using assms by auto
  then have "i \<in> key ` set (map g (vals key xs))" by (metis image_eqI)
  then obtain w where w: "tab key (map g (vals key xs)) i = Some w"
    using tab_in [of key "map g (vals key xs)" i] by auto
  then have "w \<in> set (map g (vals key xs))" and "key w = i"
    by (auto simp: tab_def dest: find_SomeD)
  then obtain u where "w = g u" "u \<in> set (vals key xs)" "key u = i" using assms by auto
  then show ?thesis using Some w by (auto simp: vals_iff)
qed

lemma card_tab: "card {i. \<exists>v. tab key xs i = Some v \<and> P v} = length (filter P (vals key xs))"
proof -
  have "{i. \<exists>v. tab key xs i = Some v \<and> P v} = key ` set (filter P (vals key xs))"
    by (auto simp: vals_iff image_iff dest: tab_key)
  also have "card \<dots> = card (set (filter P (vals key xs)))"
    using distinct_keys_vals [of key xs] by (intro card_image) (auto simp: distinct_map inj_on_def)
  also have "\<dots> = length (filter P (vals key xs))"
    by (intro distinct_card distinct_filter distinct_vals)
  finally show ?thesis .
qed

end
