(* ===== verification/Mem_Mongo.thy ===== *)
theory Mem_Mongo
  imports Mongo
begin

text \<open>
  An in-memory database that meets \<open>mongo_contract\<close> and never fails: the two
  collections are tables. It shows that the contract is not contradictory, and the witnesses of
  the storage and the election theories run on it.
\<close>

record mem_mongo =
  mm_jobs :: "job list"
  mm_nodes :: "NodeInfo list"

definition mem_db_empty :: mem_mongo where
  "mem_db_empty = \<lparr>mm_jobs = [], mm_nodes = []\<rparr>"

definition mem_job_update :: "ObjectID \<Rightarrow> job \<Rightarrow> mem_mongo \<Rightarrow> UpdateResult res \<times> mem_mongo" where
  "mem_job_update i j m = (case tab j_ID (mm_jobs m) i of
       None \<Rightarrow> (Inr \<lparr>MatchedCount = 0, ModifiedCount = 0, UpsertedCount = 0\<rparr>, m)
     | Some old \<Rightarrow> (Inr \<lparr>MatchedCount = 1, ModifiedCount = 1, UpsertedCount = 0\<rparr>,
                  m\<lparr>mm_jobs := bson_set_job j old # mm_jobs m\<rparr>))"

definition mem_node_update ::
  "string \<Rightarrow> bset \<Rightarrow> bool \<Rightarrow> mem_mongo \<Rightarrow> UpdateResult res \<times> mem_mongo" where
  "mem_node_update i u ups m = (case tab ni_ID (mm_nodes m) i of
       Some n \<Rightarrow> (Inr (fst (update_one_result i u ups (tab ni_ID (mm_nodes m)))),
                m\<lparr>mm_nodes := apply_set u n # mm_nodes m\<rparr>)
     | None \<Rightarrow> (Inr (fst (update_one_result i u ups (tab ni_ID (mm_nodes m)))),
               if ups then m\<lparr>mm_nodes := apply_set u (blank_node i) # mm_nodes m\<rparr> else m))"

text \<open>The identifier a filter on \<open>_id\<close> asks for.\<close>

fun oid_of :: "bfilter \<Rightarrow> ObjectID" where
  "oid_of ((k, CEq (BOid i) # cs) # f) = i"
| "oid_of _ = 0"

fun id_of :: "bfilter \<Rightarrow> string" where
  "id_of ((k, CEq (BStr i) # cs) # f) = i"
| "id_of _ = ''''"

lemma oid_of_by_oid [simp]: "oid_of (by_oid i) = i"
  by (simp add: by_oid_def)

lemma id_of_by_id [simp]: "id_of (by_id i) = i"
  by (simp add: by_id_def)

definition mem_group :: "job list \<Rightarrow> (string \<times> int) list" where
  "mem_group js = map (\<lambda>s. (s, int (length (filter (\<lambda>j. j_Status j = s) js)))) (remdups (map j_Status js))"

definition mem_mongo_client :: "mem_mongo mongo_client" where
  "mem_mongo_client = \<lparr>
     jobs_InsertOne = (\<lambda>j m. if tab j_ID (mm_jobs m) (j_ID j) = None
       then (None, m\<lparr>mm_jobs := bson_job j # mm_jobs m\<rparr>)
       else (Some (DriverErr ''E11000 duplicate key error''), m)),
     jobs_UpdateOne = (\<lambda>f j m. mem_job_update (oid_of f) j m),
     jobs_FindOne = (\<lambda>f m. (case tab j_ID (mm_jobs m) (oid_of f) of
         None \<Rightarrow> Inl ErrNoDocuments | Some j \<Rightarrow> Inr j, m)),
     jobs_Find = (\<lambda>f fo m. (Inr (map Inr (skip_limit fo (sort_key (\<lambda>j. - j_CreatedAt j)
         (filter (\<lambda>j. matches (job_field j) f) (vals j_ID (mm_jobs m))))), None), m)),
     jobs_DeleteOne = (\<lambda>f m. (Inr (if tab j_ID (mm_jobs m) (oid_of f) = None then 0 else 1),
         m\<lparr>mm_jobs := filter (\<lambda>j. j_ID j \<noteq> oid_of f) (mm_jobs m)\<rparr>)),
     jobs_GroupCount = (\<lambda>k m. (Inr (map Inr (mem_group (vals j_ID (mm_jobs m))), None), m)),
     nodes_UpdateOne = (\<lambda>f u ups m. mem_node_update (id_of f) u ups m),
     nodes_UpdateMany = (\<lambda>f u m. (Inr \<lparr>MatchedCount = 0, ModifiedCount = 0, UpsertedCount = 0\<rparr>,
         m\<lparr>mm_nodes := map (\<lambda>n. if matches (node_field n) f then apply_set u n else n)
                         (vals ni_ID (mm_nodes m))\<rparr>)),
     nodes_CountDocuments = (\<lambda>f m.
         (Inr (int (length (filter (\<lambda>n. matches (node_field n) f) (vals ni_ID (mm_nodes m))))), m)),
     nodes_Find = (\<lambda>f m.
         (Inr (map Inr (filter (\<lambda>n. matches (node_field n) f) (vals ni_ID (mm_nodes m))), None), m)),
     nodes_DeleteMany = (\<lambda>f m. (Inr (int (length (vals ni_ID (mm_nodes m)))), m\<lparr>mm_nodes := []\<rparr>)),
     jobs_view = (\<lambda>m. tab j_ID (mm_jobs m)),
     nodes_view = (\<lambda>m. tab ni_ID (mm_nodes m)),
     oid_Hex = show_nat,
     oid_FromHex = (\<lambda>s. if show_nat (read_nat s) = s then Inr (read_nat s)
         else Inl (DriverErr ''the provided hex string is not a valid ObjectID''))\<rparr>"

lemma mem_views [simp]:
  "jobs_view mem_mongo_client m = tab j_ID (mm_jobs m)"
  "nodes_view mem_mongo_client m = tab ni_ID (mm_nodes m)"
  by (simp_all add: mem_mongo_client_def)

lemma bson_job_ID [simp]: "j_ID (bson_job j) = j_ID j"
  by (simp add: bson_job_def)

lemma bson_set_job_ID [simp]: "j_ID (bson_set_job j old) = j_ID old"
  by (simp add: bson_set_job_def Let_def)

lemma map_Inr_eq [simp]: "map Inr xs = map Inr ys \<longleftrightarrow> xs = ys"
  by (simp add: inj_map_eq_map)

lemma mem_law_views: "law_views mem_mongo_client"
  by (auto simp: law_views_def dest: tab_key)

lemma mem_law_Hex: "law_Hex mem_mongo_client"
  by (simp add: law_Hex_def mem_mongo_client_def)

lemma mem_law_InsertOne: "law_InsertOne mem_mongo_client"
  unfolding law_InsertOne_def by (auto simp: mem_mongo_client_def split: if_splits)

lemma mem_law_UpdateOne: "law_jobs_UpdateOne mem_mongo_client"
  unfolding law_jobs_UpdateOne_def
  by (auto simp: mem_mongo_client_def mem_job_update_def split: option.splits dest: tab_key)

lemma mem_law_FindOne: "law_FindOne mem_mongo_client"
  unfolding law_FindOne_def by (auto simp: mem_mongo_client_def split: option.splits)

lemma sorted_desc: "sorted_wrt (\<lambda>a b. j_CreatedAt b \<le> j_CreatedAt a) (sort_key (\<lambda>j. - j_CreatedAt j) js)"
  using sorted_sort_key [of "\<lambda>j. - j_CreatedAt j" js] by (simp add: sorted_map)

lemma mem_law_Find: "law_jobs_Find mem_mongo_client"
proof -
  have "\<exists>js. distinct js \<and> set js = {j \<in> ran (tab j_ID xs). matches (job_field j) f}
      \<and> sorted_wrt (\<lambda>a b. j_CreatedAt b \<le> j_CreatedAt a) js
      \<and> skip_limit fo (sort_key (\<lambda>j. - j_CreatedAt j) (filter (\<lambda>j. matches (job_field j) f) (vals j_ID xs)))
        = skip_limit fo js" for xs f fo
    by (rule exI [of _ "sort_key (\<lambda>j. - j_CreatedAt j) (filter (\<lambda>j. matches (job_field j) f) (vals j_ID xs))"])
      (simp add: sorted_desc set_vals [symmetric] distinct_vals)
  then show ?thesis unfolding law_jobs_Find_def by (auto simp: mem_mongo_client_def)
qed

lemma mem_law_DeleteOne: "law_DeleteOne mem_mongo_client"
  unfolding law_DeleteOne_def by (auto simp: mem_mongo_client_def tab_filter)

lemma mem_group_set:
  "set (mem_group (vals j_ID xs)) =
     {(s, int (card (with_status (tab j_ID xs) s))) |s. with_status (tab j_ID xs) s \<noteq> {}}"
proof -
  have "with_status (tab j_ID xs) s \<noteq> {} \<longleftrightarrow> s \<in> j_Status ` set (vals j_ID xs)" for s
    by (auto simp: with_status_def set_vals ran_def)
  moreover have "card (with_status (tab j_ID xs) s) =
      length (filter (\<lambda>j. j_Status j = s) (vals j_ID xs))" for s
    unfolding with_status_def by (rule card_tab)
  ultimately show ?thesis by (auto simp: mem_group_def)
qed

lemma mem_law_Group: "law_GroupCount mem_mongo_client"
proof -
  have "distinct (map fst (mem_group js))" for js
    by (simp add: mem_group_def comp_def)
  then show ?thesis unfolding law_GroupCount_def
    by (auto simp: mem_mongo_client_def mem_group_set)
qed

lemma mem_law_nodes_UpdateOne: "law_nodes_UpdateOne mem_mongo_client"
  unfolding law_nodes_UpdateOne_def
  by (auto simp: mem_mongo_client_def mem_node_update_def update_one_result_def blank_node_def
      split: option.splits if_splits dest: tab_key)

lemma mem_law_nodes_UpdateMany: "law_nodes_UpdateMany mem_mongo_client"
  unfolding law_nodes_UpdateMany_def
  by (auto simp: mem_mongo_client_def update_many_def fun_eq_iff tab_map_vals)

lemma mem_law_nodes_Count: "law_nodes_Count mem_mongo_client"
  unfolding law_nodes_Count_def nodes_matching_def
  by (auto simp: mem_mongo_client_def card_tab)

lemma mem_law_nodes_Find: "law_nodes_Find mem_mongo_client"
proof -
  have "distinct (map ni_ID (filter P (vals ni_ID xs)))" for P and xs :: "NodeInfo list"
    using distinct_keys_vals [of ni_ID xs] by (auto simp: distinct_map inj_on_def)
  then show ?thesis unfolding law_nodes_Find_def
    by (auto simp: mem_mongo_client_def set_vals [symmetric])
qed

lemma mem_law_nodes_DeleteMany: "law_nodes_DeleteMany mem_mongo_client"
  unfolding law_nodes_DeleteMany_def by (auto simp: mem_mongo_client_def)

lemma mem_mongo_contract: "mongo_contract mem_mongo_client"
  unfolding mongo_contract_def
  by (intro conjI mem_law_views mem_law_Hex mem_law_InsertOne mem_law_UpdateOne mem_law_FindOne mem_law_Find
      mem_law_DeleteOne mem_law_Group mem_law_nodes_UpdateOne mem_law_nodes_UpdateMany
      mem_law_nodes_Count mem_law_nodes_Find mem_law_nodes_DeleteMany)

lemma mem_mongo_reliable: "mongo_reliable mem_mongo_client"
  unfolding mongo_reliable_def
  by (auto simp: mem_mongo_client_def mem_job_update_def mem_node_update_def all_decoded_def
      split: option.splits)

end
