(* ===== verification/Storage.thy ===== *)
theory Storage
  imports Mem_Mongo
begin

text \<open>
  The job half of \<open>internal/storage\<close>: every operation of \<open>MongoStorage\<close> on jobs as
  calls of the driver and case distinctions on what they return. The abstract storage is the map
  from identifiers to jobs; the interface \<open>storage.Storage\<close> is the locale
  \<open>job_storage\<close>, which the MongoDB storage implements.
\<close>

section \<open>The handle\<close>

record 'd MongoStorage =
  ms_client :: "'d mongo_client"
  ms_db :: 'd

definition mongo_do :: "('d mongo_client \<Rightarrow> 'd \<Rightarrow> 'a \<times> 'd) \<Rightarrow> 'd MongoStorage \<Rightarrow> 'a \<times> 'd MongoStorage" where
  "mongo_do call s = (let (x, d) = call (ms_client s) (ms_db s) in (x, s\<lparr>ms_db := d\<rparr>))"

definition ms_jobs :: "'d MongoStorage \<Rightarrow> (ObjectID \<rightharpoonup> job)" where
  "ms_jobs s = jobs_view (ms_client s) (ms_db s)"

definition ms_nodes :: "'d MongoStorage \<Rightarrow> (string \<rightharpoonup> NodeInfo)" where
  "ms_nodes s = nodes_view (ms_client s) (ms_db s)"

definition storage_ok :: "'d MongoStorage \<Rightarrow> bool" where
  "storage_ok s \<longleftrightarrow> mongo_contract (ms_client s)"

definition storage_up :: "'d MongoStorage \<Rightarrow> bool" where
  "storage_up s \<longleftrightarrow> mongo_contract (ms_client s) \<and> mongo_reliable (ms_client s)"

section \<open>Operations on jobs\<close>

text \<open>
  \<open>CreateJob\<close> fills in what the caller left out, in the caller's job too; \<open>oid\<close> is the
  fresh \<open>NewObjectID\<close> and \<open>now\<close> the clock's reading.
\<close>

definition job_defaults :: "ObjectID \<Rightarrow> gtime \<Rightarrow> job \<Rightarrow> job" where
  "job_defaults oid now j0 =
     (let j1 = (if j_ID j0 = NilObjectID then j0\<lparr>j_ID := oid\<rparr> else j0);
          j2 = j1\<lparr>j_CreatedAt := now, j_UpdatedAt := now\<rparr>;
          j3 = (if IsZero_time (j_ScheduledAt j2) then j2\<lparr>j_ScheduledAt := j_CreatedAt j2\<rparr> else j2);
          j4 = (if j_Status j3 = '''' then j3\<lparr>j_Status := StatusPending\<rparr> else j3)
      in if j_Priority j4 = 0 then j4\<lparr>j_Priority := PriorityNormal\<rparr> else j4)"

definition CreateJob ::
  "ObjectID \<Rightarrow> gtime \<Rightarrow> job \<Rightarrow> 'd MongoStorage \<Rightarrow> (goerr option \<times> job) \<times> 'd MongoStorage" where
  "CreateJob oid now j0 s =
     (let j = job_defaults oid now j0
      in case mongo_do (\<lambda>c. jobs_InsertOne c j) s of
           (Some err, s') \<Rightarrow> ((Some (Wrap ''failed to create job'' err), j), s')
         | (None, s') \<Rightarrow> ((None, j), s'))"

definition not_found :: "'d MongoStorage \<Rightarrow> ObjectID \<Rightarrow> goerr" where
  "not_found s i = Errorf (''job not found: '' @ oid_Hex (ms_client s) i)"

definition UpdateJob ::
  "gtime \<Rightarrow> job \<Rightarrow> 'd MongoStorage \<Rightarrow> (goerr option \<times> job) \<times> 'd MongoStorage" where
  "UpdateJob now j0 s =
     (let j = j0\<lparr>j_UpdatedAt := now\<rparr>
      in case mongo_do (\<lambda>c. jobs_UpdateOne c (by_oid (j_ID j)) j) s of
           (Inl err, s') \<Rightarrow> ((Some (Wrap ''failed to update job'' err), j), s')
         | (Inr result, s') \<Rightarrow>
             ((if MatchedCount result = 0 then Some (not_found s (j_ID j)) else None, j), s'))"

definition GetJob :: "ObjectID \<Rightarrow> 'd MongoStorage \<Rightarrow> job res \<times> 'd MongoStorage" where
  "GetJob i s =
     (case mongo_do (\<lambda>c. jobs_FindOne c (by_oid i)) s of
        (Inl err, s') \<Rightarrow>
          (Inl (if err = ErrNoDocuments then not_found s i else Wrap ''failed to get job'' err), s')
      | (Inr j, s') \<Rightarrow> (Inr j, s'))"

record JobFilter =
  jf_Status :: "Status list"
  jf_Type :: string
  jf_WorkerID :: string
  jf_CreatedAfter :: "int option"
  jf_CreatedBefore :: "int option"
  jf_Limit :: int
  jf_Offset :: int

definition mongoFilter :: "JobFilter \<Rightarrow> bfilter" where
  "mongoFilter jf =
     (if jf_Status jf \<noteq> [] then [(''status'', [CIn (map BStr (jf_Status jf))])] else [])
     @ (if jf_Type jf \<noteq> '''' then [(''type'', [CEq (BStr (jf_Type jf))])] else [])
     @ (if jf_WorkerID jf \<noteq> '''' then [(''worker_id'', [CEq (BStr (jf_WorkerID jf))])] else [])
     @ (if jf_CreatedAfter jf \<noteq> None \<or> jf_CreatedBefore jf \<noteq> None
        then [(''created_at'',
                (case jf_CreatedAfter jf of None \<Rightarrow> [] | Some t \<Rightarrow> [CGte (BTime t)])
                @ (case jf_CreatedBefore jf of None \<Rightarrow> [] | Some t \<Rightarrow> [CLte (BTime t)]))]
        else [])"

definition find_opts :: "JobFilter \<Rightarrow> find_options" where
  "find_opts jf =
     \<lparr>fo_Limit = (if 0 < jf_Limit jf then Some (jf_Limit jf) else None),
      fo_Skip = (if 0 < jf_Offset jf then Some (jf_Offset jf) else None),
      fo_SortDesc = ''created_at''\<rparr>"

text \<open>The loop \<open>for cursor.Next\<close>: the first document that does not decode ends it.\<close>

fun collect :: "string \<Rightarrow> 'a res list \<Rightarrow> 'a list \<Rightarrow> 'a list res" where
  "collect msg [] acc = Inr acc"
| "collect msg (Inl err # rs) acc = Inl (Wrap msg err)"
| "collect msg (Inr x # rs) acc = collect msg rs (acc @ [x])"

definition GetJobs :: "JobFilter \<Rightarrow> 'd MongoStorage \<Rightarrow> job list res \<times> 'd MongoStorage" where
  "GetJobs jf s =
     (case mongo_do (\<lambda>c. jobs_Find c (mongoFilter jf) (find_opts jf)) s of
        (Inl err, s') \<Rightarrow> (Inl (Wrap ''failed to find jobs'' err), s')
      | (Inr (docs, cursor_err), s') \<Rightarrow>
          (case collect ''failed to decode job'' docs [] of
             Inl err \<Rightarrow> (Inl err, s')
           | Inr jobs \<Rightarrow>
               (case cursor_err of
                  Some err \<Rightarrow> (Inl (Wrap ''cursor error'' err), s')
                | None \<Rightarrow> (Inr jobs, s'))))"

definition DeleteJob :: "ObjectID \<Rightarrow> 'd MongoStorage \<Rightarrow> goerr option \<times> 'd MongoStorage" where
  "DeleteJob i s =
     (case mongo_do (\<lambda>c. jobs_DeleteOne c (by_oid i)) s of
        (Inl err, s') \<Rightarrow> (Some (Wrap ''failed to delete job'' err), s')
      | (Inr deleted, s') \<Rightarrow> (if deleted = 0 then Some (not_found s i) else None, s'))"

record JobStats =
  js_Total :: int
  js_Pending :: int
  js_Running :: int
  js_Completed :: int
  js_Failed :: int
  js_Retrying :: int

text \<open>The loop of \<open>GetJobStats\<close> carries the map \<open>statusCounts\<close> and the total.\<close>

fun count_statuses ::
  "(string \<times> int) res list \<Rightarrow> (string \<Rightarrow> int) \<Rightarrow> int \<Rightarrow> ((string \<Rightarrow> int) \<times> int) res" where
  "count_statuses [] statusCounts tot = Inr (statusCounts, tot)"
| "count_statuses (Inl err # rs) statusCounts tot = Inl (Wrap ''failed to decode stats'' err)"
| "count_statuses (Inr (i, n) # rs) statusCounts tot =
     count_statuses rs (statusCounts(i := n)) (int64 (tot + n))"

definition job_stats :: "(string \<Rightarrow> int) \<Rightarrow> int \<Rightarrow> JobStats" where
  "job_stats statusCounts tot =
     \<lparr>js_Total = tot, js_Pending = statusCounts StatusPending, js_Running = statusCounts StatusRunning,
      js_Completed = statusCounts StatusCompleted, js_Failed = statusCounts StatusFailed,
      js_Retrying = statusCounts StatusRetrying\<rparr>"

definition GetJobStats :: "'d MongoStorage \<Rightarrow> JobStats res \<times> 'd MongoStorage" where
  "GetJobStats s =
     (case mongo_do (\<lambda>c. jobs_GroupCount c ''status'') s of
        (Inl err, s') \<Rightarrow> (Inl (Wrap ''failed to aggregate job stats'' err), s')
      | (Inr (docs, cursor_err), s') \<Rightarrow>
          (case count_statuses docs (\<lambda>_. 0) 0 of
             Inl err \<Rightarrow> (Inl err, s')
           | Inr (statusCounts, tot) \<Rightarrow>
               (case cursor_err of
                  Some err \<Rightarrow> (Inl (Wrap ''cursor error'' err), s')
                | None \<Rightarrow> (Inr (job_stats statusCounts tot), s'))))"

section \<open>Effect on what is stored\<close>

lemma mongo_doI:
  "call (ms_client s) (ms_db s) = (x, d) \<Longrightarrow> mongo_do call s = (x, s\<lparr>ms_db := d\<rparr>)"
  by (simp add: mongo_do_def)

lemma ms_views_upd [simp]:
  "ms_jobs (s\<lparr>ms_db := d\<rparr>) = jobs_view (ms_client s) d"
  "ms_nodes (s\<lparr>ms_db := d\<rparr>) = nodes_view (ms_client s) d"
  by (simp_all add: ms_jobs_def ms_nodes_def)

lemma storage_up_upd [simp]: "storage_up (s\<lparr>ms_db := d\<rparr>) = storage_up s"
  by (simp add: storage_up_def)

lemma storage_ok_upd [simp]: "storage_ok (s\<lparr>ms_db := d\<rparr>) = storage_ok s"
  by (simp add: storage_ok_def)

lemma storage_up_ok: "storage_up s \<Longrightarrow> storage_ok s"
  by (simp add: storage_up_def storage_ok_def)

lemma mongo_laws:
  assumes "mongo_contract c"
  shows "law_views c" "law_Hex c" "law_InsertOne c" "law_jobs_UpdateOne c" "law_FindOne c"
    "law_jobs_Find c" "law_DeleteOne c" "law_GroupCount c" "law_nodes_UpdateOne c"
    "law_nodes_UpdateMany c" "law_nodes_Count c" "law_nodes_Find c" "law_nodes_DeleteMany c"
  using assms by (simp_all add: mongo_contract_def)

lemma mongo_never_fails:
  assumes "mongo_reliable c"
  shows "jobs_view c d (j_ID j) = None \<Longrightarrow> fst (jobs_InsertOne c j d) = None"
    "is_ok (fst (jobs_UpdateOne c f j d))"
    "fst (jobs_FindOne c f d) = Inl e \<Longrightarrow> e = ErrNoDocuments"
    "all_decoded (fst (jobs_Find c f fo d))"
    "is_ok (fst (jobs_DeleteOne c f d))"
    "all_decoded (fst (jobs_GroupCount c k d))"
    "is_ok (fst (nodes_UpdateOne c f u b d))"
    "is_ok (fst (nodes_UpdateMany c f u d))"
    "is_ok (fst (nodes_CountDocuments c f d))"
    "all_decoded (fst (nodes_Find c f d))"
    "is_ok (fst (nodes_DeleteMany c f d))"
  using assms unfolding mongo_reliable_def by simp_all

lemma CreateJob_spec:
  assumes "storage_up s" and "j = job_defaults oid now j0" and "ms_jobs s (j_ID j) = None"
  shows "\<exists>s'. CreateJob oid now j0 s = ((None, j), s') \<and> storage_up s' \<and> ms_client s' = ms_client s
    \<and> ms_jobs s' = (ms_jobs s)(j_ID j \<mapsto> bson_job j) \<and> ms_nodes s' = ms_nodes s"
proof -
  let ?c = "ms_client s"
  have c: "mongo_contract ?c" "mongo_reliable ?c" using assms(1) by (simp_all add: storage_up_def)
  have "fst (jobs_InsertOne ?c j (ms_db s)) = None"
    using assms(3) by (intro mongo_never_fails(1) [OF c(2)]) (simp add: ms_jobs_def)
  then obtain d where d: "jobs_InsertOne ?c j (ms_db s) = (None, d)" by (metis prod.collapse)
  have "CreateJob oid now j0 s = ((None, j), s\<lparr>ms_db := d\<rparr>)"
    using d assms(2) by (simp add: CreateJob_def mongo_doI)
  moreover have "jobs_view ?c d = (ms_jobs s)(j_ID j \<mapsto> bson_job j) \<and> nodes_view ?c d = ms_nodes s"
    using mongo_laws(3) [OF c(1)] d unfolding law_InsertOne_def ms_jobs_def ms_nodes_def by blast
  ultimately show ?thesis using assms(1) by simp
qed

text \<open>The map after an update: only a job that is there changes.\<close>

definition abs_update :: "job \<Rightarrow> (ObjectID \<rightharpoonup> job) \<Rightarrow> (ObjectID \<rightharpoonup> job)" where
  "abs_update j v = (case v (j_ID j) of None \<Rightarrow> v | Some old \<Rightarrow> v(j_ID j \<mapsto> bson_set_job j old))"

lemma UpdateJob_spec:
  assumes "storage_up s"
  shows "\<exists>s'. UpdateJob now j s =
      ((if ms_jobs s (j_ID j) = None then Some (not_found s (j_ID j)) else None, j\<lparr>j_UpdatedAt := now\<rparr>), s')
    \<and> storage_up s' \<and> ms_client s' = ms_client s
    \<and> ms_jobs s' = abs_update (j\<lparr>j_UpdatedAt := now\<rparr>) (ms_jobs s) \<and> ms_nodes s' = ms_nodes s"
proof -
  let ?c = "ms_client s" and ?j = "j\<lparr>j_UpdatedAt := now\<rparr>"
  have c: "mongo_contract ?c" "mongo_reliable ?c" using assms by (simp_all add: storage_up_def)
  obtain r d where d: "jobs_UpdateOne ?c (by_oid (j_ID j)) ?j (ms_db s) = (Inr r, d)"
    using mongo_never_fails(2) [OF c(2)] unfolding is_ok_iff by (metis prod.collapse)
  have law: "nodes_view ?c d = nodes_view ?c (ms_db s) \<and> (case jobs_view ?c (ms_db s) (j_ID j) of
       None \<Rightarrow> MatchedCount r = 0 \<and> jobs_view ?c d = jobs_view ?c (ms_db s)
     | Some old \<Rightarrow> MatchedCount r = 1
         \<and> jobs_view ?c d = (jobs_view ?c (ms_db s))(j_ID j \<mapsto> bson_set_job ?j old))"
    using mongo_laws(4) [OF c(1)] d unfolding law_jobs_UpdateOne_def by blast
  have "UpdateJob now j s =
      ((if MatchedCount r = 0 then Some (not_found s (j_ID j)) else None, ?j), s\<lparr>ms_db := d\<rparr>)"
    using d by (simp add: UpdateJob_def mongo_doI)
  then show ?thesis using law assms
    by (auto simp: ms_jobs_def ms_nodes_def abs_update_def split: option.splits)
qed

lemma GetJob_spec:
  assumes "storage_up s"
  shows "\<exists>s'. GetJob i s =
      (case ms_jobs s i of None \<Rightarrow> Inl (not_found s i) | Some j \<Rightarrow> Inr j, s')
    \<and> storage_up s' \<and> ms_client s' = ms_client s \<and> ms_jobs s' = ms_jobs s \<and> ms_nodes s' = ms_nodes s"
proof -
  let ?c = "ms_client s"
  have c: "mongo_contract ?c" "mongo_reliable ?c" using assms by (simp_all add: storage_up_def)
  obtain x d where d: "jobs_FindOne ?c (by_oid i) (ms_db s) = (x, d)" by fastforce
  have law: "jobs_view ?c d = jobs_view ?c (ms_db s) \<and> nodes_view ?c d = nodes_view ?c (ms_db s) \<and> (case x of
       Inr j \<Rightarrow> jobs_view ?c (ms_db s) i = Some j
     | Inl e \<Rightarrow> e = ErrNoDocuments \<longrightarrow> jobs_view ?c (ms_db s) i = None)"
    using mongo_laws(5) [OF c(1)] d unfolding law_FindOne_def by blast
  have "x = Inl e \<Longrightarrow> e = ErrNoDocuments" for e
    using mongo_never_fails(3) [OF c(2)] d by (metis fst_conv)
  then have "GetJob i s = (case jobs_view ?c (ms_db s) i of
      None \<Rightarrow> Inl (not_found s i) | Some j \<Rightarrow> Inr j, s\<lparr>ms_db := d\<rparr>)"
    using law d by (cases x) (auto simp: GetJob_def mongo_doI)
  then show ?thesis using law assms by (simp add: ms_jobs_def ms_nodes_def)
qed

lemma DeleteJob_spec:
  assumes "storage_up s"
  shows "\<exists>s'. DeleteJob i s = (if ms_jobs s i = None then Some (not_found s i) else None, s')
    \<and> storage_up s' \<and> ms_client s' = ms_client s
    \<and> ms_jobs s' = (ms_jobs s)(i := None) \<and> ms_nodes s' = ms_nodes s"
proof -
  let ?c = "ms_client s"
  have c: "mongo_contract ?c" "mongo_reliable ?c" using assms by (simp_all add: storage_up_def)
  obtain n d where d: "jobs_DeleteOne ?c (by_oid i) (ms_db s) = (Inr n, d)"
    using mongo_never_fails(5) [OF c(2)] unfolding is_ok_iff by (metis prod.collapse)
  have law: "n = (if jobs_view ?c (ms_db s) i = None then 0 else 1)
     \<and> jobs_view ?c d = (jobs_view ?c (ms_db s))(i := None) \<and> nodes_view ?c d = nodes_view ?c (ms_db s)"
    using mongo_laws(7) [OF c(1)] d unfolding law_DeleteOne_def by blast
  have "DeleteJob i s = (if n = 0 then Some (not_found s i) else None, s\<lparr>ms_db := d\<rparr>)"
    using d by (simp add: DeleteJob_def mongo_doI)
  then show ?thesis using law assms by (simp add: ms_jobs_def ms_nodes_def)
qed

text \<open>Which jobs a filter selects, read off the jobs themselves.\<close>

definition selected :: "JobFilter \<Rightarrow> job \<Rightarrow> bool" where
  "selected jf j \<longleftrightarrow>
     (jf_Status jf = [] \<or> j_Status j \<in> set (jf_Status jf))
   \<and> (jf_Type jf = '''' \<or> j_Type j = jf_Type jf)
   \<and> (jf_WorkerID jf = '''' \<or> j_WorkerID j = jf_WorkerID jf)
   \<and> (case jf_CreatedAfter jf of None \<Rightarrow> True | Some t \<Rightarrow> t \<le> j_CreatedAt j div 1000000)
   \<and> (case jf_CreatedBefore jf of None \<Rightarrow> True | Some t \<Rightarrow> j_CreatedAt j div 1000000 \<le> t)"

lemma matches_append: "matches get (f @ g) \<longleftrightarrow> matches get f \<and> matches get g"
  by (simp add: matches_def)

lemma matches_if: "matches get (if b then f else []) \<longleftrightarrow> (b \<longrightarrow> matches get f)"
  by simp

lemma matches_mongoFilter: "matches (job_field j) (mongoFilter jf) \<longleftrightarrow> selected jf j"
  unfolding mongoFilter_def selected_def matches_append matches_if
  by (auto simp: job_field_def omit_empty_def btime_def image_iff split: option.splits if_splits)

definition page :: "JobFilter \<Rightarrow> 'a list \<Rightarrow> 'a list" where
  "page jf xs = (let ys = drop (nat (jf_Offset jf)) xs
     in if 0 < jf_Limit jf then take (nat (jf_Limit jf)) ys else ys)"

lemma skip_limit_find_opts: "skip_limit (find_opts jf) xs = page jf xs"
  by (simp add: skip_limit_def find_opts_def page_def Let_def)

lemma collect_Inr: "collect msg (map Inr xs) acc = Inr (acc @ xs)"
  by (induction xs arbitrary: acc) simp_all

lemma GetJobs_spec:
  assumes "storage_up s"
  shows "\<exists>js s'. GetJobs jf s = (Inr (page jf js), s') \<and> storage_up s' \<and> ms_client s' = ms_client s
    \<and> ms_jobs s' = ms_jobs s \<and> ms_nodes s' = ms_nodes s
    \<and> distinct js \<and> set js = {j \<in> ran (ms_jobs s). selected jf j}
    \<and> sorted_wrt (\<lambda>a b. j_CreatedAt b \<le> j_CreatedAt a) js"
proof -
  let ?c = "ms_client s" and ?f = "mongoFilter jf" and ?fo = "find_opts jf"
  have c: "mongo_contract ?c" "mongo_reliable ?c" using assms by (simp_all add: storage_up_def)
  obtain xs d where d: "jobs_Find ?c ?f ?fo (ms_db s) = (Inr (map Inr xs, None), d)"
    using mongo_never_fails(4) [OF c(2)] unfolding all_decoded_def by (metis prod.collapse)
  have "fo_SortDesc ?fo = ''created_at''" by (simp add: find_opts_def)
  with mongo_laws(6) [OF c(1)] d obtain js
    where v: "jobs_view ?c d = jobs_view ?c (ms_db s)" "nodes_view ?c d = nodes_view ?c (ms_db s)"
      and js: "distinct js" "set js = {j \<in> ran (jobs_view ?c (ms_db s)). matches (job_field j) ?f}"
        "sorted_wrt (\<lambda>a b. j_CreatedAt b \<le> j_CreatedAt a) js" "xs = skip_limit ?fo js"
    unfolding law_jobs_Find_def by blast
  have "GetJobs jf s = (Inr xs, s\<lparr>ms_db := d\<rparr>)"
    using d by (simp add: GetJobs_def mongo_doI collect_Inr)
  moreover have "storage_up (s\<lparr>ms_db := d\<rparr>)" using assms by simp
  ultimately show ?thesis using v js
    by (intro exI [of _ js] exI [of _ "s\<lparr>ms_db := d\<rparr>"])
      (simp add: ms_jobs_def ms_nodes_def matches_mongoFilter skip_limit_find_opts)
qed

lemma count_statuses_Inr:
  assumes "distinct (map fst ps)" and "\<forall>p\<in>set ps. 0 \<le> snd p" and "0 \<le> t"
    and "t + sum_list (map snd ps) < 2 ^ 63"
  shows "count_statuses (map Inr ps) c t =
    Inr (\<lambda>s. case map_of ps s of Some n \<Rightarrow> n | None \<Rightarrow> c s, t + sum_list (map snd ps))"
  using assms
proof (induction ps arbitrary: c t)
  case Nil
  then show ?case by simp
next
  case (Cons p ps)
  obtain i n where p: "p = (i, n)" by (cases p)
  have "0 \<le> sum_list (map snd ps)" using Cons.prems(2) by (intro sum_list_nonneg) auto
  with Cons.prems p have t: "0 \<le> t + n" "int64 (t + n) = t + n" "t + n + sum_list (map snd ps) < 2 ^ 63"
    by (auto intro: int64_small)
  have "map_of ps i = None" using Cons.prems(1) p by (simp add: map_of_eq_None_iff)
  then have f: "(\<lambda>s. case map_of ps s of Some n \<Rightarrow> n | None \<Rightarrow> (c(i := n)) s) =
      (\<lambda>s. case map_of (p # ps) s of Some n \<Rightarrow> n | None \<Rightarrow> c s)"
    using p by (auto simp: fun_eq_iff split: option.splits)
  have "count_statuses (map Inr (p # ps)) c t = count_statuses (map Inr ps) (c(i := n)) (t + n)"
    using p t by simp
  also have "\<dots> = Inr (\<lambda>s. case map_of (p # ps) s of Some n \<Rightarrow> n | None \<Rightarrow> c s,
      t + n + sum_list (map snd ps))"
    unfolding f [symmetric] by (rule Cons.IH) (use Cons.prems t in auto)
  finally show ?case using p by (simp add: add.assoc)
qed

lemma card_by_status:
  assumes "finite (dom v)"
  shows "(\<Sum>s\<in>{s. with_status v s \<noteq> {}}. card (with_status v s)) = card (dom v)"
proof -
  let ?g = "\<lambda>i. j_Status (the (v i))"
  have ws: "with_status v s = {i \<in> dom v. ?g i = s}" for s by (auto simp: with_status_def)
  have S: "{s. with_status v s \<noteq> {}} = ?g ` dom v" by (auto simp: ws)
  have "(\<Sum>s\<in>?g ` dom v. card {i \<in> dom v. ?g i = s}) = card (dom v)"
    using sum.group [OF assms finite_imageI [OF assms] subset_refl,
        where g = ?g and h = "\<lambda>_. 1 :: nat"] by simp
  then show ?thesis unfolding S by (simp only: ws)
qed

lemma GetJobStats_spec:
  assumes "storage_up s" and "card (dom (ms_jobs s)) < 2 ^ 63"
  shows "\<exists>s'. GetJobStats s =
      (Inr (job_stats (\<lambda>st. int (card (with_status (ms_jobs s) st))) (int (card (dom (ms_jobs s))))), s')
    \<and> storage_up s' \<and> ms_client s' = ms_client s \<and> ms_jobs s' = ms_jobs s \<and> ms_nodes s' = ms_nodes s"
proof -
  let ?c = "ms_client s" and ?v = "ms_jobs s"
  have c: "mongo_contract ?c" "mongo_reliable ?c" using assms by (simp_all add: storage_up_def)
  obtain ps d where d: "jobs_GroupCount ?c ''status'' (ms_db s) = (Inr (map Inr ps, None), d)"
    using mongo_never_fails(6) [OF c(2)] unfolding all_decoded_def by (metis prod.collapse)
  with mongo_laws(8) [OF c(1)] have v: "jobs_view ?c d = ?v" "nodes_view ?c d = ms_nodes s"
    and ps: "distinct (map fst ps)"
      "set ps = {(s, int (card (with_status ?v s))) |s. with_status ?v s \<noteq> {}}"
    unfolding law_GroupCount_def ms_jobs_def ms_nodes_def by blast+
  have fin: "finite (dom ?v)"
    using mongo_laws(1) [OF c(1)] unfolding law_views_def ms_jobs_def by blast
  have "sum_list (map snd ps) = (\<Sum>p\<in>set ps. snd p)"
    using ps(1) by (intro sum_list_distinct_conv_sum_set) (simp add: distinct_map)
  also have "\<dots> = (\<Sum>s\<in>{s. with_status ?v s \<noteq> {}}. int (card (with_status ?v s)))"
    unfolding ps(2) by (intro sum.reindex_cong [where l = "\<lambda>s. (s, int (card (with_status ?v s)))"])
      (auto simp: inj_on_def)
  also have "\<dots> = int (card (dom ?v))" using card_by_status [OF fin] by (simp flip: of_nat_sum)
  finally have sum: "sum_list (map snd ps) = int (card (dom ?v))" .
  have "\<forall>p\<in>set ps. 0 \<le> snd p" by (auto simp: ps(2))
  from count_statuses_Inr [OF ps(1) this, of 0 "\<lambda>_. 0"] assms(2) sum
  have cs: "count_statuses (map Inr ps) (\<lambda>_. 0) 0 =
      Inr (\<lambda>s. case map_of ps s of Some n \<Rightarrow> n | None \<Rightarrow> 0, int (card (dom ?v)))"
    by simp
  have "(case map_of ps st of Some n \<Rightarrow> n | None \<Rightarrow> 0) = int (card (with_status ?v st))" for st
  proof (cases "map_of ps st")
    case None
    then have "st \<notin> fst ` set ps" by (simp add: map_of_eq_None_iff)
    then have "with_status ?v st = {}" unfolding ps(2) by force
    with None show ?thesis by simp
  next
    case (Some n)
    from map_of_SomeD [OF this] have "n = int (card (with_status ?v st))" by (auto simp: ps(2))
    with Some show ?thesis by simp
  qed
  then have "GetJobStats s =
      (Inr (job_stats (\<lambda>st. int (card (with_status ?v st))) (int (card (dom ?v)))), s\<lparr>ms_db := d\<rparr>)"
    using d cs by (simp add: GetJobStats_def mongo_doI)
  with assms(1) v show ?thesis by simp
qed

section \<open>The interface\<close>

text \<open>
  \<open>storage.Storage\<close> as the server and the worker pool rely on it: each operation on a
  single job, in terms of the map from identifiers to jobs. \<open>missing\<close> is the error for a job
  that is not there.
\<close>

locale job_storage =
  fixes create :: "ObjectID \<Rightarrow> gtime \<Rightarrow> job \<Rightarrow> 's \<Rightarrow> (goerr option \<times> job) \<times> 's"
    and update :: "gtime \<Rightarrow> job \<Rightarrow> 's \<Rightarrow> (goerr option \<times> job) \<times> 's"
    and get :: "ObjectID \<Rightarrow> 's \<Rightarrow> job res \<times> 's"
    and delete :: "ObjectID \<Rightarrow> 's \<Rightarrow> goerr option \<times> 's"
    and up :: "'s \<Rightarrow> bool"
    and view :: "'s \<Rightarrow> (ObjectID \<rightharpoonup> job)"
    and missing :: "'s \<Rightarrow> ObjectID \<Rightarrow> goerr"
  assumes create_spec: "up s \<Longrightarrow> j = job_defaults oid now j0 \<Longrightarrow> view s (j_ID j) = None \<Longrightarrow>
      \<exists>s'. create oid now j0 s = ((None, j), s') \<and> up s' \<and> missing s' = missing s
        \<and> view s' = (view s)(j_ID j \<mapsto> bson_job j)"
    and update_spec: "up s \<Longrightarrow>
      \<exists>s'. update now j s =
          ((if view s (j_ID j) = None then Some (missing s (j_ID j)) else None, j\<lparr>j_UpdatedAt := now\<rparr>), s')
        \<and> up s' \<and> missing s' = missing s \<and> view s' = abs_update (j\<lparr>j_UpdatedAt := now\<rparr>) (view s)"
    and get_spec: "up s \<Longrightarrow>
      \<exists>s'. get i s = (case view s i of None \<Rightarrow> Inl (missing s i) | Some j \<Rightarrow> Inr j, s')
        \<and> up s' \<and> missing s' = missing s \<and> view s' = view s"
    and delete_spec: "up s \<Longrightarrow>
      \<exists>s'. delete i s = (if view s i = None then Some (missing s i) else None, s')
        \<and> up s' \<and> missing s' = missing s \<and> view s' = (view s)(i := None)"
begin

definition answer :: "'s \<Rightarrow> ObjectID \<Rightarrow> job res" where
  "answer s i = (case view s i of None \<Rightarrow> Inl (missing s i) | Some j \<Rightarrow> Inr j)"

lemma get_answer: "up s \<Longrightarrow> fst (get i s) = answer s i"
  using get_spec [of s i] by (auto simp: answer_def)

lemma create_get:
  assumes "up s" and "j = job_defaults oid now j0" and "view s (j_ID j) = None"
  shows "\<exists>s'. create oid now j0 s = ((None, j), s')
    \<and> (\<forall>k. fst (get k s') = (if k = j_ID j then Inr (bson_job j) else fst (get k s)))"
proof -
  from create_spec [OF assms] obtain s' where s': "create oid now j0 s = ((None, j), s')" "up s'"
    "missing s' = missing s" "view s' = (view s)(j_ID j \<mapsto> bson_job j)" by blast
  then have "fst (get k s') = (if k = j_ID j then Inr (bson_job j) else fst (get k s))" for k
    using assms(1) by (auto simp: get_answer answer_def split: option.splits)
  with s'(1) show ?thesis by blast
qed

lemma update_get:
  assumes "up s"
  shows "\<exists>s'. update now j s =
      ((if view s (j_ID j) = None then Some (missing s (j_ID j)) else None, j\<lparr>j_UpdatedAt := now\<rparr>), s')
    \<and> (\<forall>k. fst (get k s') = (case view s k of
          Some old \<Rightarrow> if k = j_ID j then Inr (bson_set_job (j\<lparr>j_UpdatedAt := now\<rparr>) old) else Inr old
        | None \<Rightarrow> Inl (missing s k)))"
proof -
  from update_spec [OF assms, of now j] obtain s' where s': "update now j s =
      ((if view s (j_ID j) = None then Some (missing s (j_ID j)) else None, j\<lparr>j_UpdatedAt := now\<rparr>), s')"
    "up s'" "missing s' = missing s" "view s' = abs_update (j\<lparr>j_UpdatedAt := now\<rparr>) (view s)" by blast
  have "fst (get k s') = (case view s k of
          Some old \<Rightarrow> if k = j_ID j then Inr (bson_set_job (j\<lparr>j_UpdatedAt := now\<rparr>) old) else Inr old
        | None \<Rightarrow> Inl (missing s k))" for k
    using s'(2-4) by (auto simp: get_answer answer_def abs_update_def split: option.splits)
  with s'(1) show ?thesis by blast
qed

lemma delete_get:
  assumes "up s"
  shows "\<exists>s'. delete i s = (if view s i = None then Some (missing s i) else None, s')
    \<and> (\<forall>k. fst (get k s') = (if k = i then Inl (missing s i) else fst (get k s)))"
proof -
  from delete_spec [OF assms, of i] obtain s' where s':
    "delete i s = (if view s i = None then Some (missing s i) else None, s')"
    "up s'" "missing s' = missing s" "view s' = (view s)(i := None)" by blast
  then have "fst (get k s') = (if k = i then Inl (missing s i) else fst (get k s))" for k
    using assms by (auto simp: get_answer answer_def split: option.splits)
  with s'(1) show ?thesis by blast
qed

end

lemma not_found_cong: "ms_client s' = ms_client s \<Longrightarrow> not_found s' = not_found s"
  by (simp add: not_found_def fun_eq_iff)

interpretation mongo: job_storage CreateJob UpdateJob GetJob DeleteJob storage_up ms_jobs not_found
proof (unfold_locales, goal_cases)
  case (1 s j oid now j0)
  from CreateJob_spec [OF this] show ?case by (auto dest: not_found_cong)
next
  case (2 s now j)
  from UpdateJob_spec [OF this, of now j] show ?case by (auto dest: not_found_cong)
next
  case (3 s i)
  from GetJob_spec [OF this, of i] show ?case by (auto dest: not_found_cong)
next
  case (4 s i)
  from DeleteJob_spec [OF this, of i] show ?case by (auto dest: not_found_cong)
qed

section \<open>Properties\<close>

definition new_storage :: "mem_mongo MongoStorage" where
  "new_storage = \<lparr>ms_client = mem_mongo_client, ms_db = mem_db_empty\<rparr>"

lemma new_storage_facts [simp]: "storage_up new_storage" "ms_jobs new_storage = Map.empty"
  "ms_nodes new_storage = Map.empty"
  by (simp_all add: storage_up_def new_storage_def mem_mongo_contract mem_mongo_reliable ms_jobs_def
      ms_nodes_def mem_db_empty_def)

text \<open>C20: a created job, completed with an identifier, the clock's reading and the defaults, is
  what is read back under its identifier (its instants in milliseconds); no other job is touched.\<close>

theorem created_job_is_read_back:
  assumes "storage_up s" and "i = (if j_ID j0 = NilObjectID then oid else j_ID j0)" and "ms_jobs s i = None"
    and "j = j0\<lparr>j_ID := i, j_CreatedAt := now, j_UpdatedAt := now,
      j_ScheduledAt := (if IsZero_time (j_ScheduledAt j0) then now else j_ScheduledAt j0),
      j_Status := (if j_Status j0 = [] then StatusPending else j_Status j0),
      j_Priority := (if j_Priority j0 = 0 then PriorityNormal else j_Priority j0)\<rparr>"
  shows "\<exists>s'. CreateJob oid now j0 s = ((None, j), s')
    \<and> (\<forall>k. fst (GetJob k s') = (if k = i then Inr (bson_job j) else fst (GetJob k s)))"
proof -
  have j: "j = job_defaults oid now j0" "j_ID j = i"
    using assms(2,4) by (cases j0; simp add: job_defaults_def Let_def)+
  from mongo.create_get [OF assms(1) j(1)] j(2) assms(3) show ?thesis by simp
qed

theorem created_job_is_read_back_witness:
  "\<exists>j s'. CreateJob 9 (seconds 5) (zero_job\<lparr>j_Type := ''email''\<rparr>) new_storage = ((None, j), s')
    \<and> fst (GetJob 9 s') = Inr (bson_job j) \<and> j_Status j = ''pending'' \<and> j_ScheduledAt j = seconds 5"
proof -
  define j0 where "j0 = zero_job\<lparr>j_Type := ''email''\<rparr>"
  define j where "j = j0\<lparr>j_ID := 9, j_CreatedAt := seconds 5, j_UpdatedAt := seconds 5,
      j_ScheduledAt := (if IsZero_time (j_ScheduledAt j0) then seconds 5 else j_ScheduledAt j0),
      j_Status := (if j_Status j0 = [] then StatusPending else j_Status j0),
      j_Priority := (if j_Priority j0 = 0 then PriorityNormal else j_Priority j0)\<rparr>"
  have i: "9 = (if j_ID j0 = NilObjectID then 9 else j_ID j0)" by (simp add: zero_job_def j0_def)
  have j: "j_Status j = ''pending''" "j_ScheduledAt j = seconds 5"
    by (simp_all add: status_simps zero_job_def IsZero_time_def j0_def j_def)
  have "ms_jobs new_storage 9 = None" by simp
  from created_job_is_read_back [OF new_storage_facts(1) i this j_def] j show ?thesis
    unfolding j0_def [symmetric] by fastforce
qed

text \<open>An update reports a job that is not stored as not found and stores nothing; otherwise it
  writes the job over the stored one, keeping stored fields that are empty in the update and may
  be omitted, and leaves every other job alone.\<close>

theorem update_writes_one_job:
  assumes "storage_up s"
  shows "\<exists>s'. UpdateJob now j s =
      ((if ms_jobs s (j_ID j) = None then Some (not_found s (j_ID j)) else None, j\<lparr>j_UpdatedAt := now\<rparr>), s')
    \<and> (\<forall>k. fst (GetJob k s') = (case ms_jobs s k of
          Some old \<Rightarrow> if k = j_ID j then Inr (bson_set_job (j\<lparr>j_UpdatedAt := now\<rparr>) old) else Inr old
        | None \<Rightarrow> Inl (not_found s k)))"
  using assms by (rule mongo.update_get)

theorem update_writes_one_job_witness:
  "\<exists>s'. UpdateJob 5 (zero_job\<lparr>j_ID := 3\<rparr>) new_storage =
      ((Some (not_found new_storage 3), zero_job\<lparr>j_ID := 3, j_UpdatedAt := 5\<rparr>), s')
    \<and> fst (GetJob 4 s') = Inl (not_found new_storage 4)"
  using update_writes_one_job [OF new_storage_facts(1), of 5 "zero_job\<lparr>j_ID := 3\<rparr>"] by auto

text \<open>A deletion of a job that is not stored is an error; afterwards the job is not found and
  every other job is as before.\<close>

theorem delete_removes_one_job:
  assumes "storage_up s"
  shows "\<exists>s'. DeleteJob i s = (if ms_jobs s i = None then Some (not_found s i) else None, s')
    \<and> (\<forall>k. fst (GetJob k s') = (if k = i then Inl (not_found s i) else fst (GetJob k s)))"
  using assms by (rule mongo.delete_get)

theorem delete_removes_one_job_witness:
  "\<exists>s'. DeleteJob 3 new_storage = (Some (not_found new_storage 3), s')
    \<and> fst (GetJob 3 s') = Inl (not_found new_storage 3)"
  using delete_removes_one_job [OF new_storage_facts(1), of 3] by auto

text \<open>C21: \<open>GetJobs\<close> returns the requested page of the jobs the filter selects, each once and
  newest first, and selects exactly the jobs that meet every criterion that is given.\<close>

theorem get_jobs_is_a_page_of_the_selected:
  assumes "storage_up s"
  shows "\<exists>js s'. GetJobs jf s = (Inr (page jf js), s') \<and> distinct js
    \<and> (\<forall>j. j \<in> set js \<longleftrightarrow> j \<in> ran (ms_jobs s) \<and> selected jf j)
    \<and> sorted_wrt (\<lambda>a b. j_CreatedAt b \<le> j_CreatedAt a) js"
  using GetJobs_spec [OF assms, of jf] by blast

definition sample_storage :: "mem_mongo MongoStorage" where
  "sample_storage = new_storage\<lparr>ms_db := mem_db_empty\<lparr>mm_jobs :=
     [zero_job\<lparr>j_ID := 1, j_Status := ''failed'', j_CreatedAt := 0\<rparr>,
      zero_job\<lparr>j_ID := 2, j_Status := ''pending'', j_CreatedAt := seconds 1\<rparr>,
      zero_job\<lparr>j_ID := 3, j_Status := ''failed'', j_CreatedAt := seconds 2\<rparr>]\<rparr>\<rparr>"

lemma sample_storage_facts: "storage_up sample_storage" "dom (ms_jobs sample_storage) = {1, 2, 3}"
  by (auto simp: sample_storage_def ms_jobs_def new_storage_def storage_up_def mem_mongo_contract
      mem_mongo_reliable zero_job_def split: if_splits)

theorem get_jobs_is_a_page_of_the_selected_witness:
  "\<exists>js s'. GetJobs \<lparr>jf_Status = [''failed''], jf_Type = '''', jf_WorkerID = '''', jf_CreatedAfter = None,
      jf_CreatedBefore = None, jf_Limit = 0, jf_Offset = 0\<rparr> sample_storage = (Inr js, s')
    \<and> (\<forall>j\<in>set js. j_Status j = ''failed'')"
  using get_jobs_is_a_page_of_the_selected [OF sample_storage_facts(1), of
      "\<lparr>jf_Status = [''failed''], jf_Type = '''', jf_WorkerID = '''', jf_CreatedAfter = None,
      jf_CreatedBefore = None, jf_Limit = 0, jf_Offset = 0\<rparr>"]
  by (auto simp: page_def selected_def)

text \<open>The statistics count every stored job, in total and under its status.\<close>

theorem job_stats_count_every_job:
  assumes "storage_up s" and "card (dom (ms_jobs s)) < 2 ^ 63"
  shows "fst (GetJobStats s) = Inr \<lparr>js_Total = int (card (dom (ms_jobs s))),
    js_Pending = int (card {i. \<exists>j. ms_jobs s i = Some j \<and> j_Status j = ''pending''}),
    js_Running = int (card {i. \<exists>j. ms_jobs s i = Some j \<and> j_Status j = ''running''}),
    js_Completed = int (card {i. \<exists>j. ms_jobs s i = Some j \<and> j_Status j = ''completed''}),
    js_Failed = int (card {i. \<exists>j. ms_jobs s i = Some j \<and> j_Status j = ''failed''}),
    js_Retrying = int (card {i. \<exists>j. ms_jobs s i = Some j \<and> j_Status j = ''retrying''})\<rparr>"
  using GetJobStats_spec [OF assms] by (auto simp: job_stats_def with_status_def status_simps)

theorem job_stats_count_every_job_witness:
  "\<exists>st. fst (GetJobStats sample_storage) = Inr st \<and> js_Total st = 3"
proof -
  have "card (dom (ms_jobs sample_storage)) = 3" unfolding sample_storage_facts(2) by simp
  with job_stats_count_every_job [OF sample_storage_facts(1)] show ?thesis by simp
qed

end
