(* ===== verification/Connect.thy ===== *)
theory Connect
  imports Queue Storage
begin

text \<open>
  Opening the two databases: \<open>NewMongoStorage\<close> and \<open>createIndexes\<close> of
  \<open>internal/storage/mongodb.go\<close> and \<open>NewRedisQueue\<close> of \<open>internal/queue/redis.go\<close>.
  What the drivers do when they are asked to connect is a parameter, the record \<open>services\<close>.
\<close>

record ('r, 'd, 'c) services =
  xs_Connect :: "string \<Rightarrow> duration \<Rightarrow> 'c res"
  xs_Ping :: "'c \<Rightarrow> goerr option"
  xs_Database :: "'c \<Rightarrow> string \<Rightarrow> 'd mongo_client \<times> 'd"
  xs_CreateMany :: "(string list \<times> string) list \<Rightarrow> 'd \<Rightarrow> goerr option \<times> 'd"
  xs_NewClient :: "string \<Rightarrow> string \<Rightarrow> int \<Rightarrow> 'r redis_client \<times> 'r"

text \<open>Each index with its ascending keys and its name.\<close>

definition job_indexes :: "(string list \<times> string) list" where
  "job_indexes =
     [([''status''], ''status_idx''), ([''type''], ''type_idx''), ([''worker_id''], ''worker_id_idx''),
      ([''created_at''], ''created_at_idx''), ([''scheduled_at''], ''scheduled_at_idx''),
      ([''status'', ''scheduled_at''], ''status_scheduled_idx'')]"

definition createIndexes :: "('r, 'd, 'c) services \<Rightarrow> 'd MongoStorage \<Rightarrow> goerr option \<times> 'd MongoStorage" where
  "createIndexes x s = (let (err, d) = xs_CreateMany x job_indexes (ms_db s) in (err, s\<lparr>ms_db := d\<rparr>))"

text \<open>An error of \<open>createIndexes\<close> is only logged.\<close>

definition NewMongoStorage ::
  "('r, 'd, 'c) services \<Rightarrow> string \<Rightarrow> string \<Rightarrow> duration \<Rightarrow> 'd MongoStorage res" where
  "NewMongoStorage x uri dbName timeout =
     (case xs_Connect x uri timeout of
        Inl err \<Rightarrow> Inl (Wrap ''failed to connect to MongoDB'' err)
      | Inr client \<Rightarrow>
          (case xs_Ping x client of
             Some err \<Rightarrow> Inl (Wrap ''failed to ping MongoDB'' err)
           | None \<Rightarrow> (let (c, d) = xs_Database x client dbName
                      in Inr (snd (createIndexes x \<lparr>ms_client = c, ms_db = d\<rparr>)))))"

definition NewRedisQueue :: "('r, 'd, 'c) services \<Rightarrow> string \<Rightarrow> string \<Rightarrow> int \<Rightarrow> 'r RedisQueue" where
  "NewRedisQueue x addr password db = (let (c, r) = xs_NewClient x addr password db in \<lparr>q_client = c, q_db = r\<rparr>)"

text \<open>Databases that answer: every connection succeeds, the drivers keep their contracts, and creating
  indexes changes no document.\<close>

definition services_up :: "('r, 'd, 'c) services \<Rightarrow> bool" where
  "services_up x \<longleftrightarrow>
     (\<forall>uri t. \<exists>c. xs_Connect x uri t = Inr c) \<and> (\<forall>c. xs_Ping x c = None)
   \<and> (\<forall>c n. mongo_contract (fst (xs_Database x c n)) \<and> mongo_reliable (fst (xs_Database x c n)))
   \<and> (\<forall>c n ix d. jobs_view (fst (xs_Database x c n)) (snd (xs_CreateMany x ix d)) = jobs_view (fst (xs_Database x c n)) d
        \<and> nodes_view (fst (xs_Database x c n)) (snd (xs_CreateMany x ix d)) = nodes_view (fst (xs_Database x c n)) d)
   \<and> (\<forall>a p n. redis_contract (fst (xs_NewClient x a p n)) \<and> redis_reliable (fst (xs_NewClient x a p n)))"

lemma storage_made:
  assumes "services_up x"
  shows "\<exists>c s. xs_Connect x uri timeout = Inr c \<and> NewMongoStorage x uri dbName timeout = Inr s \<and> storage_up s
    \<and> ms_jobs s = (let (mc, d) = xs_Database x c dbName in jobs_view mc d)
    \<and> ms_nodes s = (let (mc, d) = xs_Database x c dbName in nodes_view mc d)"
proof -
  from assms obtain c where "xs_Connect x uri timeout = Inr c" unfolding services_up_def by blast
  with assms show ?thesis
    by (auto simp: services_up_def NewMongoStorage_def createIndexes_def storage_up_def ms_jobs_def ms_nodes_def
        split_beta Let_def)
qed

lemma queue_made: "services_up x \<Longrightarrow> queue_up (NewRedisQueue x addr password db)"
  by (simp add: services_up_def NewRedisQueue_def queue_up_def split_beta Let_def)

end
