(* ===== verification/Retry.thy ===== *)
theory Retry
  imports Prelude Complex_Main
begin

text \<open>
  The retry policies of \<open>internal/retry/policies.go\<close>: fixed, exponential and jittered
  delays and the constructor that selects one. A delay is computed in \<open>float64\<close> and
  converted back to a 64-bit integer; what that arithmetic may do is the record
  \<open>float_env\<close>. The interface \<open>Policy\<close> is the locale \<open>delay_policy\<close>.
\<close>

section \<open>Floating-point arithmetic\<close>

text \<open>
  A finite \<open>float64\<close> is the real number it denotes. \<open>fe_round\<close> rounds an exact
  result to the nearest \<open>float64\<close>, \<open>fe_pow\<close> is \<open>math.Pow\<close>, and
  \<open>fe_overflow\<close> is what the conversion of a value outside the range of \<open>int64\<close>
  yields, which the Go specification leaves to the implementation. Infinities and NaN are not
  values of the model: they need a multiplier or a factor that is not finite, or a result above
  \<open>1.8e308\<close>, which is outside the range of the conversion like any other large value.
\<close>

record float_env =
  fe_round :: "real \<Rightarrow> real"
  fe_pow :: "real \<Rightarrow> real \<Rightarrow> real"
  fe_overflow :: "real \<Rightarrow> int"

text \<open>
  The facts about IEEE 754 double precision the properties rely on: rounding is monotone and
  symmetric, leaves rounded values alone, is exact on 53-bit integers scaled by a power of two
  (up or down), and powers of two are computed exactly.
\<close>

definition ieee :: "float_env \<Rightarrow> bool" where
  "ieee fe \<longleftrightarrow>
     (\<forall>x y. x \<le> y \<longrightarrow> fe_round fe x \<le> fe_round fe y)
   \<and> (\<forall>x. fe_round fe (- x) = - fe_round fe x)
   \<and> (\<forall>x. fe_round fe (fe_round fe x) = fe_round fe x)
   \<and> (\<forall>m k. \<bar>m\<bar> \<le> 2 ^ 53 \<longrightarrow> k \<le> 900 \<longrightarrow>
        fe_round fe (of_int m * 2 ^ k) = of_int m * 2 ^ k
        \<and> fe_round fe (of_int m / 2 ^ k) = of_int m / 2 ^ k)
   \<and> (\<forall>k. k \<le> 900 \<longrightarrow> fe_pow fe 2 (real k) = 2 ^ k)"

text \<open>The conversion \<open>time.Duration(x)\<close> of a \<open>float64\<close> truncates towards zero.\<close>

definition truncate_real :: "real \<Rightarrow> int" where
  "truncate_real x = (if 0 \<le> x then \<lfloor>x\<rfloor> else \<lceil>x\<rceil>)"

definition to_int64 :: "float_env \<Rightarrow> real \<Rightarrow> int" where
  "to_int64 fe x = (if in_int64 (truncate_real x) then truncate_real x else fe_overflow fe x)"

section \<open>Policies\<close>

datatype Policy =
    FixedPolicy duration
  | ExponentialPolicy duration duration real
  | JitterPolicy Policy real

definition NextDelay_Exponential ::
  "float_env \<Rightarrow> duration \<Rightarrow> duration \<Rightarrow> real \<Rightarrow> int \<Rightarrow> duration" where
  "NextDelay_Exponential fe BaseDelay MaxDelay Multiplier attempt =
     (let delay = fe_round fe (fe_round fe (of_int BaseDelay)
                    * fe_pow fe Multiplier (fe_round fe (of_int (attempt - 1))))
      in if MaxDelay < to_int64 fe delay then MaxDelay else to_int64 fe delay)"

text \<open>\<open>r\<close> is the result of \<open>rand.Float64()\<close>.\<close>

definition NextDelay_Jitter :: "float_env \<Rightarrow> real \<Rightarrow> duration \<Rightarrow> real \<Rightarrow> duration" where
  "NextDelay_Jitter fe r baseDelay JitterFactor =
     (let base = fe_round fe (of_int baseDelay);
          jitter = fe_round fe (fe_round fe (base * JitterFactor)
                     * fe_round fe (fe_round fe (r * 2) - 1));
          finalDelay = fe_round fe (base + jitter)
      in to_int64 fe (if finalDelay < 0 then fe_round fe (base * fe_round fe (1 / 10))
                      else finalDelay))"

text \<open>
  \<open>rs\<close> holds the results of \<open>rand.Float64()\<close> in the order they are drawn; a jitter
  policy draws after its base policy has.
\<close>

fun jitters :: "Policy \<Rightarrow> nat" where
  "jitters (FixedPolicy d) = 0"
| "jitters (ExponentialPolicy b m x) = 0"
| "jitters (JitterPolicy p f) = Suc (jitters p)"

fun NextDelay :: "float_env \<Rightarrow> (nat \<Rightarrow> real) \<Rightarrow> Policy \<Rightarrow> int \<Rightarrow> duration" where
  "NextDelay fe rs (FixedPolicy d) attempt = d"
| "NextDelay fe rs (ExponentialPolicy b m x) attempt = NextDelay_Exponential fe b m x attempt"
| "NextDelay fe rs (JitterPolicy p f) attempt =
     NextDelay_Jitter fe (rs (jitters p)) (NextDelay fe rs p attempt) f"

definition NewFixedPolicy :: "duration \<Rightarrow> Policy" where
  "NewFixedPolicy delay = FixedPolicy delay"

definition NewExponentialPolicy :: "duration \<Rightarrow> duration \<Rightarrow> real \<Rightarrow> Policy" where
  "NewExponentialPolicy baseDelay maxDelay multiplier = ExponentialPolicy baseDelay maxDelay multiplier"

definition NewJitterPolicy :: "Policy \<Rightarrow> real \<Rightarrow> Policy" where
  "NewJitterPolicy basePolicy jitterFactor = JitterPolicy basePolicy jitterFactor"

definition CreatePolicy ::
  "string \<Rightarrow> duration \<Rightarrow> duration \<Rightarrow> real \<Rightarrow> real \<Rightarrow> Policy" where
  "CreatePolicy policyType baseDelay maxDelay multiplier jitterFactor =
     (let basePolicy =
        (if policyType = ''fixed'' then NewFixedPolicy baseDelay
         else if policyType = ''exponential'' then NewExponentialPolicy baseDelay maxDelay multiplier
         else NewExponentialPolicy baseDelay maxDelay multiplier)
      in if 0 < jitterFactor then NewJitterPolicy basePolicy jitterFactor else basePolicy)"

lemmas NewPolicy_defs = NewFixedPolicy_def NewExponentialPolicy_def NewJitterPolicy_def

section \<open>The exact environment\<close>

text \<open>
  Exact real arithmetic with the overflow value of amd64 satisfies \<open>ieee\<close>: the contract
  is not contradictory, and the witnesses below compute in it.
\<close>

definition exact_env :: float_env where
  "exact_env = \<lparr>fe_round = (\<lambda>x. x), fe_pow = (\<lambda>x y. x powr y), fe_overflow = (\<lambda>_. - (2 ^ 63))\<rparr>"

lemma ieee_exact_env: "ieee exact_env"
  by (simp add: ieee_def exact_env_def powr_realpow)

section \<open>Facts about rounding\<close>

lemma ieee_mono: "ieee fe \<Longrightarrow> x \<le> y \<Longrightarrow> fe_round fe x \<le> fe_round fe y"
  by (simp add: ieee_def)

lemma ieee_neg: "ieee fe \<Longrightarrow> fe_round fe (- x) = - fe_round fe x"
  by (simp add: ieee_def)

lemma ieee_idem: "ieee fe \<Longrightarrow> fe_round fe (fe_round fe x) = fe_round fe x"
  by (simp add: ieee_def)

lemma ieee_scaled:
  "ieee fe \<Longrightarrow> \<bar>m\<bar> \<le> 2 ^ 53 \<Longrightarrow> k \<le> 900 \<Longrightarrow> fe_round fe (of_int m * 2 ^ k) = of_int m * 2 ^ k"
  by (simp add: ieee_def)

lemma ieee_scaled_down:
  "ieee fe \<Longrightarrow> \<bar>m\<bar> \<le> 2 ^ 53 \<Longrightarrow> k \<le> 900 \<Longrightarrow> fe_round fe (of_int m / 2 ^ k) = of_int m / 2 ^ k"
  by (simp add: ieee_def)

lemma ieee_int: "ieee fe \<Longrightarrow> \<bar>m\<bar> \<le> 2 ^ 53 \<Longrightarrow> fe_round fe (of_int m) = of_int m"
  using ieee_scaled [of fe m 0] by simp

lemma ieee_pow2: "ieee fe \<Longrightarrow> k \<le> 900 \<Longrightarrow> fe_pow fe 2 (real k) = 2 ^ k"
  by (simp add: ieee_def)

lemma ieee_zero: "ieee fe \<Longrightarrow> fe_round fe 0 = 0"
  using ieee_int [of fe 0] by simp

lemma ieee_nonneg: "ieee fe \<Longrightarrow> 0 \<le> x \<Longrightarrow> 0 \<le> fe_round fe x"
  using ieee_mono [of fe 0 x] by (simp add: ieee_zero)

lemma ieee_le_int: "ieee fe \<Longrightarrow> \<bar>m\<bar> \<le> 2 ^ 53 \<Longrightarrow> x \<le> of_int m \<Longrightarrow> fe_round fe x \<le> of_int m"
  using ieee_mono [of fe x "of_int m"] by (simp add: ieee_int)

lemma ieee_ge_int: "ieee fe \<Longrightarrow> \<bar>m\<bar> \<le> 2 ^ 53 \<Longrightarrow> of_int m \<le> x \<Longrightarrow> of_int m \<le> fe_round fe x"
  using ieee_mono [of fe "of_int m" x] by (simp add: ieee_int)

lemma truncate_real_nonneg: "0 \<le> x \<Longrightarrow> 0 \<le> truncate_real x"
  by (simp add: truncate_real_def)

lemma truncate_real_le: "0 \<le> x \<Longrightarrow> x \<le> of_int m \<Longrightarrow> truncate_real x \<le> m"
  by (simp add: truncate_real_def floor_le_iff)

lemma truncate_real_int [simp]: "truncate_real (of_int m) = m"
  by (simp add: truncate_real_def)

lemma to_int64_int: "in_int64 m \<Longrightarrow> to_int64 fe (of_int m) = m"
  by (simp add: to_int64_def)

lemma to_int64_bounds:
  assumes "0 \<le> x" and "x \<le> of_int m" and "m < 2 ^ 63"
  shows "0 \<le> to_int64 fe x \<and> to_int64 fe x \<le> m"
proof -
  from assms have "0 \<le> truncate_real x" and le: "truncate_real x \<le> m"
    by (simp_all add: truncate_real_nonneg truncate_real_le)
  then show ?thesis using assms(3) by (simp add: to_int64_def in_int64_def)
qed

section \<open>Exponential back-off\<close>

lemma exponential_exact:
  assumes "ieee fe" and "1 \<le> n" and "n \<le> 900" and "0 \<le> b" and "b \<le> 2 ^ 53"
  shows "NextDelay_Exponential fe b m 2 n =
    (let d = to_int64 fe (of_int (b * 2 ^ nat (n - 1))) in if m < d then m else d)"
proof -
  have n1: "fe_round fe (of_int (n - 1)) = of_int (n - 1)"
    using assms(2,3) by (intro ieee_int [OF assms(1)]) simp
  have nat: "real_of_int (n - 1) = real (nat (n - 1))" using assms(2) by simp
  have le: "nat (n - 1) \<le> 900" using assms(3) by simp
  have pow: "fe_pow fe 2 (of_int (n - 1)) = 2 ^ nat (n - 1)"
    unfolding nat by (rule ieee_pow2 [OF assms(1) le])
  have fb: "fe_round fe (of_int b) = of_int b"
    using assms(4,5) by (intro ieee_int [OF assms(1)]) simp
  have "fe_round fe (of_int b * 2 ^ nat (n - 1)) = of_int b * 2 ^ nat (n - 1)"
    using assms(4,5) le by (intro ieee_scaled [OF assms(1)]) simp_all
  then show ?thesis
    unfolding NextDelay_Exponential_def n1 pow fb by (simp add: Let_def)
qed

text \<open>Exponential back-off is capped, whatever the arithmetic does.\<close>

theorem exponential_capped:
  "NextDelay fe rs (ExponentialPolicy b m x) n \<le> m"
  by (simp add: NextDelay_Exponential_def Let_def)

text \<open>C23: with multiplier 2 the n-th delay is the base doubled n - 1 times, cut at the cap, as
  long as the doubled value fits into 64 bits.\<close>

theorem exponential_doubles:
  assumes "ieee fe" and "1 \<le> n" and "n \<le> 900" and "0 \<le> b" and "b \<le> 2 ^ 53"
    and "b * 2 ^ nat (n - 1) < 2 ^ 63"
  shows "NextDelay fe rs (ExponentialPolicy b m 2) n = min m (b * 2 ^ nat (n - 1))"
proof -
  have "in_int64 (b * 2 ^ nat (n - 1))"
    using assms(4,6) by (auto simp: in_int64_def intro: order_trans [of _ 0])
  then have "to_int64 fe (of_int (b * 2 ^ nat (n - 1))) = b * 2 ^ nat (n - 1)"
    by (rule to_int64_int)
  then show ?thesis
    using exponential_exact [OF assms(1-5), of m] by (simp add: Let_def)
qed

theorem exponential_doubles_witness:
  "NextDelay exact_env (\<lambda>_. 0) (ExponentialPolicy (seconds 1) (seconds 10) 2) 3 = seconds 4"
  using exponential_doubles [OF ieee_exact_env, of 3 "seconds 1" "\<lambda>_. 0" "seconds 10"] by simp

text \<open>Where the conversion of an out-of-range value yields the least integer (amd64), an
  attempt number so large that the doubled base no longer fits gives that negative delay, not
  the cap.\<close>

theorem exponential_overflow:
  assumes "ieee fe" and "\<And>x. fe_overflow fe x = - (2 ^ 63)"
    and "1 \<le> n" and "n \<le> 900" and "b \<le> 2 ^ 53"
    and "2 ^ 63 \<le> b * 2 ^ nat (n - 1)" and "0 \<le> m"
  shows "NextDelay fe rs (ExponentialPolicy b m 2) n = - (2 ^ 63)"
proof -
  have "0 \<le> b"
  proof (rule ccontr)
    assume "\<not> 0 \<le> b"
    then have "b * 2 ^ nat (n - 1) \<le> 0" by (simp add: mult_nonpos_nonneg)
    with assms(6) show False by simp
  qed
  moreover have "\<not> in_int64 (b * 2 ^ nat (n - 1))"
    using assms(6) by (simp add: in_int64_def)
  then have "to_int64 fe (of_int (b * 2 ^ nat (n - 1))) = - (2 ^ 63)"
    unfolding to_int64_def truncate_real_int assms(2) by simp
  ultimately show ?thesis
    using exponential_exact [OF assms(1,3,4) _ assms(5), of m] assms(7) by (simp add: Let_def)
qed

theorem exponential_overflow_witness:
  "NextDelay exact_env (\<lambda>_. 0) (ExponentialPolicy (seconds 1) (seconds 60) 2) 40 = - (2 ^ 63)"
  by (rule exponential_overflow [OF ieee_exact_env]) (simp_all add: exact_env_def)

section \<open>Jitter\<close>

lemma jitter_factor_bounds:
  assumes "ieee fe" and "0 \<le> r" and "r < 1"
  shows "-1 \<le> fe_round fe (fe_round fe (r * 2) - 1) \<and> fe_round fe (fe_round fe (r * 2) - 1) \<le> 1"
proof -
  have "0 \<le> fe_round fe (r * 2)" using assms by (intro ieee_nonneg) auto
  moreover have "fe_round fe (r * 2) \<le> of_int 2" using assms by (intro ieee_le_int) auto
  ultimately have "of_int (-1) \<le> fe_round fe (r * 2) - 1" "fe_round fe (r * 2) - 1 \<le> of_int 1"
    by simp_all
  then have "of_int (-1) \<le> fe_round fe (fe_round fe (r * 2) - 1)"
    and "fe_round fe (fe_round fe (r * 2) - 1) \<le> of_int 1"
    by (simp_all only: ieee_ge_int [OF assms(1), of "-1"] ieee_le_int [OF assms(1), of 1] abs_minus_cancel
        abs_one one_le_numeral one_le_power)
  then show ?thesis by simp
qed

lemma jitter_amount_bounds:
  assumes "ieee fe" and "0 \<le> x" and "-1 \<le> y" and "y \<le> 1"
  shows "- fe_round fe x \<le> fe_round fe (fe_round fe x * y)
       \<and> fe_round fe (fe_round fe x * y) \<le> fe_round fe x"
proof -
  let ?x = "fe_round fe x"
  have x: "0 \<le> ?x" using assms(1,2) by (rule ieee_nonneg)
  have "?x * y \<le> ?x * 1" and "?x * (-1) \<le> ?x * y"
    using x assms(3,4) by (intro mult_left_mono; simp)+
  then have "fe_round fe (?x * y) \<le> fe_round fe ?x" and "fe_round fe (- ?x) \<le> fe_round fe (?x * y)"
    using assms(1) by (auto intro: ieee_mono)
  then show ?thesis using assms(1) by (simp add: ieee_neg ieee_idem)
qed

lemma jitter_bounds:
  assumes "ieee fe" and "0 \<le> r" and "r < 1" and "0 \<le> b" and "b \<le> 2 ^ 52"
    and "0 \<le> f" and "f \<le> 1"
  shows "0 \<le> NextDelay_Jitter fe r b f \<and> NextDelay_Jitter fe r b f \<le> 2 * b"
proof -
  let ?j = "fe_round fe (fe_round fe (of_int b * f) * fe_round fe (fe_round fe (r * 2) - 1))"
  have base: "fe_round fe (of_int b) = of_int b" using assms by (intro ieee_int) auto
  have "of_int b * f \<le> of_int b * 1" using assms by (intro mult_left_mono) auto
  then have "fe_round fe (of_int b * f) \<le> of_int b"
    using assms by (intro ieee_le_int) auto
  moreover have "- fe_round fe (of_int b * f) \<le> ?j \<and> ?j \<le> fe_round fe (of_int b * f)"
    using assms jitter_factor_bounds [OF assms(1-3)] by (intro jitter_amount_bounds) auto
  ultimately have lo: "0 \<le> of_int b + ?j" and hi: "of_int b + ?j \<le> of_int (2 * b)" by auto
  from lo have "0 \<le> fe_round fe (of_int b + ?j)" by (rule ieee_nonneg [OF assms(1)])
  moreover have "fe_round fe (of_int b + ?j) \<le> of_int (2 * b)"
    using hi assms(4,5) by (intro ieee_le_int [OF assms(1)]) auto
  ultimately have "0 \<le> to_int64 fe (fe_round fe (of_int b + ?j))
           \<and> to_int64 fe (fe_round fe (of_int b + ?j)) \<le> 2 * b"
    using assms(5) by (intro to_int64_bounds) auto
  with \<open>0 \<le> fe_round fe (of_int b + ?j)\<close> show ?thesis
    by (simp add: NextDelay_Jitter_def base Let_def)
qed

text \<open>The jitter of a policy made with a factor of at most 1 keeps the delay between zero
  and twice the delay of the policy it wraps, so it never makes a delay negative.\<close>

theorem jitter_between_zero_and_double:
  assumes "ieee fe" and "\<And>i. 0 \<le> rs i \<and> rs i < 1"
    and "0 \<le> NextDelay fe rs p n" and "NextDelay fe rs p n \<le> 2 ^ 52"
    and "0 \<le> f" and "f \<le> 1"
  shows "0 \<le> NextDelay fe rs (JitterPolicy p f) n
       \<and> NextDelay fe rs (JitterPolicy p f) n \<le> 2 * NextDelay fe rs p n"
  using jitter_bounds [OF assms(1) _ _ assms(3-6)] assms(2) by simp

theorem jitter_between_zero_and_double_witness:
  "0 \<le> NextDelay exact_env (\<lambda>_. 1/4) (JitterPolicy (FixedPolicy (seconds 1)) (1/2)) 1
   \<and> NextDelay exact_env (\<lambda>_. 1/4) (JitterPolicy (FixedPolicy (seconds 1)) (1/2)) 1
       \<le> 2 * seconds 1"
  using jitter_between_zero_and_double
    [OF ieee_exact_env, of "\<lambda>_. 1/4" "FixedPolicy (seconds 1)" 1 "1/2"] by simp

text \<open>The jitter is applied after the cap, so a configured maximal delay of 60 seconds is
  exceeded: with factor 1/2 the seventh attempt can wait 75 seconds.\<close>

theorem jitter_exceeds_max_delay:
  assumes "ieee fe"
  shows "NextDelay fe (\<lambda>_. 3/4)
           (CreatePolicy ''exponential'' (seconds 1) (seconds 60) 2 (1/2)) 7 = seconds 75"
proof -
  have base: "NextDelay fe (\<lambda>_. 3/4) (ExponentialPolicy (seconds 1) (seconds 60) 2) 7 = seconds 60"
    by (subst exponential_doubles [OF assms]) simp_all
  have ints: "fe_round fe 60000000000 = 60000000000" "fe_round fe 30000000000 = 30000000000"
    "fe_round fe 15000000000 = 15000000000" "fe_round fe 75000000000 = 75000000000"
    using ieee_int [OF assms, of 60000000000] ieee_int [OF assms, of 30000000000]
      ieee_int [OF assms, of 15000000000] ieee_int [OF assms, of 75000000000] by simp_all
  have halves: "fe_round fe (3/2) = 3/2" "fe_round fe (1/2) = 1/2"
    using ieee_scaled_down [OF assms, of 3 1] ieee_scaled_down [OF assms, of 1 1] by simp_all
  have conv: "to_int64 fe 75000000000 = 75000000000"
    using to_int64_int [of 75000000000 fe] by (simp add: in_int64_def)
  show ?thesis
    using base by (simp add: CreatePolicy_def NewPolicy_defs NextDelay_Jitter_def ints halves conv)
qed

theorem jitter_exceeds_max_delay_witness:
  "NextDelay exact_env (\<lambda>_. 3/4)
     (CreatePolicy ''exponential'' (seconds 1) (seconds 60) 2 (1/2)) 7 = seconds 75"
  by (rule jitter_exceeds_max_delay [OF ieee_exact_env])

section \<open>The interface \<open>Policy\<close>\<close>

text \<open>
  What the worker pool relies on when it asks a policy for a delay: in the range of attempts
  where no conversion overflows, the delay is not negative and has a bound.
\<close>

locale delay_policy =
  fixes next_delay :: "'p \<Rightarrow> int \<Rightarrow> duration"
    and in_range :: "'p \<Rightarrow> int \<Rightarrow> bool"
    and longest :: "'p \<Rightarrow> duration"
  assumes delay_nonneg: "in_range p n \<Longrightarrow> 0 \<le> next_delay p n"
    and delay_longest: "in_range p n \<Longrightarrow> next_delay p n \<le> longest p"
begin

lemma due_instant:
  "in_range p n \<Longrightarrow> now \<le> now + next_delay p n \<and> now + next_delay p n \<le> now + longest p"
  using delay_nonneg [of p n] delay_longest [of p n] by simp

end

fun longest_delay :: "Policy \<Rightarrow> duration" where
  "longest_delay (FixedPolicy d) = d"
| "longest_delay (ExponentialPolicy b m x) = m"
| "longest_delay (JitterPolicy p f) = 2 * longest_delay p"

fun policy_in_range :: "float_env \<Rightarrow> (nat \<Rightarrow> real) \<Rightarrow> Policy \<Rightarrow> int \<Rightarrow> bool" where
  "policy_in_range fe rs (FixedPolicy d) n \<longleftrightarrow> 0 \<le> d"
| "policy_in_range fe rs (ExponentialPolicy b m x) n \<longleftrightarrow> 0 \<le> m \<and>
     0 \<le> to_int64 fe (fe_round fe (fe_round fe (of_int b) * fe_pow fe x (fe_round fe (of_int (n - 1)))))"
| "policy_in_range fe rs (JitterPolicy p f) n \<longleftrightarrow> ieee fe \<and> (\<forall>i. 0 \<le> rs i \<and> rs i < 1)
     \<and> policy_in_range fe rs p n \<and> longest_delay p \<le> 2 ^ 52 \<and> 0 \<le> f \<and> f \<le> 1"

lemma policy_in_range_bounds:
  "policy_in_range fe rs p n \<Longrightarrow> 0 \<le> NextDelay fe rs p n \<and> NextDelay fe rs p n \<le> longest_delay p"
proof (induction p)
  case (FixedPolicy d)
  then show ?case by simp
next
  case (ExponentialPolicy b m x)
  then show ?case by (simp add: NextDelay_Exponential_def Let_def)
next
  case (JitterPolicy p f)
  then have "0 \<le> NextDelay fe rs p n" "NextDelay fe rs p n \<le> longest_delay p" by simp_all
  moreover from JitterPolicy.prems this have "0 \<le> NextDelay_Jitter fe (rs (jitters p)) (NextDelay fe rs p n) f
      \<and> NextDelay_Jitter fe (rs (jitters p)) (NextDelay fe rs p n) f \<le> 2 * NextDelay fe rs p n"
    by (intro jitter_bounds) auto
  ultimately show ?case by simp
qed

interpretation policies: delay_policy "NextDelay fe rs" "policy_in_range fe rs" longest_delay
  for fe rs
  by unfold_locales (simp_all add: policy_in_range_bounds)

end
