(* ===== verification/Worker.thy ===== *)
theory Worker
  imports Prelude
begin

text \<open>
  The workers of a pool (\<open>Worker\<close>, \<open>WorkerStats\<close> and the functions of
  \<open>internal/worker/pool.go\<close> that create them and read their state), and the two scans for
  a worker of least and of greatest load that the pool and the load balancers share.
\<close>

record Worker =
  w_id :: string
  w_nodeID :: string
  w_isActive :: bool
  w_jobCount :: int

record WorkerStats =
  ws_ID :: string
  ws_NodeID :: string
  ws_IsActive :: bool
  ws_JobCount :: int

section \<open>Creation and statistics\<close>

definition generateWorkerID :: "string \<Rightarrow> nat \<Rightarrow> string" where
  "generateWorkerID nodeID index = nodeID @ ''-worker-'' @ show_nat index"

text \<open>The workers of \<open>NewPool\<close>: \<open>make\<close> panics for a negative count.\<close>

definition new_workers :: "int \<Rightarrow> string \<Rightarrow> Worker list outcome" where
  "new_workers workerCount nodeID =
     (if workerCount < 0 then Panics
      else Returns (map (\<lambda>i. \<lparr>w_id = generateWorkerID nodeID i, w_nodeID = nodeID,
                              w_isActive = False, w_jobCount = 0\<rparr>) [0..<nat workerCount]))"

definition worker_stats :: "Worker \<Rightarrow> WorkerStats" where
  "worker_stats w = \<lparr>ws_ID = w_id w, ws_NodeID = w_nodeID w,
     ws_IsActive = w_isActive w, ws_JobCount = w_jobCount w\<rparr>"

definition GetWorkerStats :: "Worker list \<Rightarrow> WorkerStats list" where
  "GetWorkerStats ws = map worker_stats ws"

section \<open>Scanning for the least and the greatest load\<close>

text \<open>
  The loop \<open>if ok(w) && (minLoad == -1 || load(w) < minLoad)\<close>, with its two variables
  \<open>minLoad\<close> and \<open>selected\<close>, and the loop \<open>if load(w) > maxLoad\<close>.
\<close>

fun scan_min :: "('a \<Rightarrow> bool) \<Rightarrow> ('a \<Rightarrow> int) \<Rightarrow> 'a list \<Rightarrow> int \<Rightarrow> 'a option \<Rightarrow> 'a option" where
  "scan_min ok load [] minLoad selected = selected"
| "scan_min ok load (w # ws) minLoad selected =
     (if ok w \<and> (minLoad = -1 \<or> load w < minLoad) then scan_min ok load ws (load w) (Some w)
      else scan_min ok load ws minLoad selected)"

fun scan_max :: "('a \<Rightarrow> int) \<Rightarrow> 'a list \<Rightarrow> int \<Rightarrow> 'a option \<Rightarrow> 'a option" where
  "scan_max load [] maxLoad selected = selected"
| "scan_max load (w # ws) maxLoad selected =
     (if maxLoad < load w then scan_max load ws (load w) (Some w)
      else scan_max load ws maxLoad selected)"

text \<open>The reference: the first element none of the others is below (above).\<close>

definition first_least :: "('a \<Rightarrow> int) \<Rightarrow> 'a list \<Rightarrow> 'a option" where
  "first_least load ws = find (\<lambda>w. \<forall>v\<in>set ws. load w \<le> load v) ws"

definition first_greatest :: "('a \<Rightarrow> int) \<Rightarrow> 'a list \<Rightarrow> 'a option" where
  "first_greatest load ws = find (\<lambda>w. \<forall>v\<in>set ws. load v \<le> load w) ws"

lemma find_cong_set: "(\<And>x. x \<in> set xs \<Longrightarrow> P x = Q x) \<Longrightarrow> find P xs = find Q xs"
  by (induction xs) auto

lemma first_least_step:
  "first_least c (s # x # ys) = (if c x < c s then first_least c (x # ys) else first_least c (s # ys))"
  unfolding first_least_def by (auto intro!: find_cong_set)

lemma first_greatest_step:
  "first_greatest c (s # x # ys) =
     (if c s < c x then first_greatest c (x # ys) else first_greatest c (s # ys))"
  unfolding first_greatest_def by (auto intro!: find_cong_set)

lemma scan_min_Some:
  assumes "\<forall>w\<in>set ws. ok w \<longrightarrow> 0 \<le> c w" and "0 \<le> c s"
  shows "scan_min ok c ws (c s) (Some s) = first_least c (s # filter ok ws)"
  using assms
proof (induction ws arbitrary: s)
  case Nil
  then show ?case by (simp add: first_least_def)
next
  case (Cons x xs)
  then show ?case by (auto simp: first_least_step)
qed

lemma scan_min_reference:
  assumes "\<forall>w\<in>set ws. ok w \<longrightarrow> 0 \<le> c w"
  shows "scan_min ok c ws (-1) None = first_least c (filter ok ws)"
  using assms
proof (induction ws)
  case Nil
  then show ?case by (simp add: first_least_def)
next
  case (Cons x xs)
  then show ?case by (auto simp: scan_min_Some)
qed

lemma scan_max_Some: "scan_max c ws (c s) (Some s) = first_greatest c (s # ws)"
proof (induction ws arbitrary: s)
  case Nil
  then show ?case by (simp add: first_greatest_def)
next
  case (Cons x xs)
  then show ?case by (auto simp: first_greatest_step)
qed

lemma scan_max_reference:
  assumes "\<forall>w\<in>set ws. 0 \<le> c w"
  shows "scan_max c ws (-1) None = first_greatest c ws"
proof (cases ws)
  case Nil
  then show ?thesis by (simp add: first_greatest_def)
next
  case (Cons x xs)
  with assms have "-1 < c x" by auto
  with Cons show ?thesis by (simp add: scan_max_Some)
qed

text \<open>Soundness needs no assumption on the counts: what is selected was scanned and is eligible.\<close>

lemma scan_min_sound:
  "scan_min ok c ws m s = Some w \<Longrightarrow> s = Some w \<or> (w \<in> set ws \<and> ok w)"
  by (induction ws arbitrary: m s) (auto split: if_splits)

lemma scan_min_keeps: "scan_min ok c ws m (Some s) \<noteq> None"
  by (induction ws arbitrary: m s) auto

lemma scan_min_complete:
  "w \<in> set ws \<Longrightarrow> ok w \<Longrightarrow> scan_min ok c ws (-1) None \<noteq> None"
proof (induction ws)
  case Nil
  then show ?case by simp
next
  case (Cons x xs)
  show ?case
  proof (cases "ok x")
    case True
    then show ?thesis using scan_min_keeps by simp
  next
    case False
    with Cons.prems have "w \<in> set xs" by auto
    with Cons False show ?thesis by simp
  qed
qed

lemma scan_max_sound:
  "scan_max c ws m s = Some w \<Longrightarrow> s = Some w \<or> w \<in> set ws"
  by (induction ws arbitrary: m s) (auto split: if_splits)

lemma first_least_exists: "ws \<noteq> [] \<Longrightarrow> \<exists>w. first_least c ws = Some w"
proof -
  assume "ws \<noteq> []"
  then have "Min (c ` set ws) \<in> c ` set ws" by (intro Min_in) auto
  then obtain w where "w \<in> set ws" and "c w = Min (c ` set ws)" by auto
  then have "\<forall>v\<in>set ws. c w \<le> c v" by simp
  with \<open>w \<in> set ws\<close> have "first_least c ws \<noteq> None"
    unfolding first_least_def find_None_iff by blast
  then show ?thesis by simp
qed

lemma first_greatest_exists: "ws \<noteq> [] \<Longrightarrow> \<exists>w. first_greatest c ws = Some w"
  using first_least_exists [of ws "\<lambda>w. - c w"] by (simp add: first_least_def first_greatest_def)

lemma first_leastD: "first_least c ws = Some w \<Longrightarrow> w \<in> set ws \<and> (\<forall>v\<in>set ws. c w \<le> c v)"
  by (auto simp: first_least_def dest: find_SomeD)

lemma first_greatestD: "first_greatest c ws = Some w \<Longrightarrow> w \<in> set ws \<and> (\<forall>v\<in>set ws. c v \<le> c w)"
  by (auto simp: first_greatest_def dest: find_SomeD)

section \<open>The pool's own selection\<close>

definition GetLeastLoadedWorker :: "Worker list \<Rightarrow> Worker option" where
  "GetLeastLoadedWorker workers = scan_min (\<lambda>w. \<not> w_isActive w) w_jobCount workers (-1) None"

text \<open>The workers of a pool carry pairwise distinct identifiers, start idle and with no job
  counted.\<close>

theorem new_workers_distinct:
  assumes "new_workers n nodeID = Returns ws"
  shows "int (length ws) = n \<and> distinct (map w_id ws)
       \<and> (\<forall>w\<in>set ws. \<not> w_isActive w \<and> w_jobCount w = 0)"
  using assms
  by (auto simp: new_workers_def generateWorkerID_def distinct_map inj_on_def comp_def
      split: if_splits)

theorem new_workers_distinct_witness:
  "\<exists>ws. new_workers 2 ''n1'' = Returns ws \<and> int (length ws) = 2 \<and> distinct (map w_id ws)"
proof -
  obtain ws where ws: "new_workers 2 ''n1'' = Returns ws" by (simp add: new_workers_def)
  with new_workers_distinct [OF ws] show ?thesis by blast
qed

end
