(* ===== verification/Pool.thy ===== *)
theory Pool
  imports Queue Storage Retry Worker
begin

text \<open>
  What a worker of \<open>internal/worker/pool.go\<close> does with a job: pop it, mark it running,
  process it, and complete, retry or fail it, on the shared queue and storage. \<open>clk n\<close> is the
  clock's reading at the \<open>n\<close>-th place where an operation reads it. Errors of the storage
  and of the queue are only logged, as in the code.
\<close>

section \<open>State\<close>

record PoolConfig =
  pc_registry :: ProcessorRegistry
  pc_delay :: "int \<Rightarrow> duration"

record ('r, 'd) PoolState =
  po_queue :: "'r RedisQueue"
  po_storage :: "'d MongoStorage"

definition RegisterProcessor :: "processor \<Rightarrow> PoolConfig \<Rightarrow> PoolConfig" where
  "RegisterProcessor p c = c\<lparr>pc_registry := registry_Register (pc_registry c) p\<rparr>"

definition shift :: "nat \<Rightarrow> (nat \<Rightarrow> gtime) \<Rightarrow> nat \<Rightarrow> gtime" where
  "shift k clk n = clk (k + n)"

text \<open>\<open>p.storage.UpdateJob(p.ctx, j)\<close>: the job is updated in place, an error is logged.\<close>

definition pool_update :: "gtime \<Rightarrow> job \<Rightarrow> ('r, 'd) PoolState \<Rightarrow> job \<times> ('r, 'd) PoolState" where
  "pool_update now j st =
     (let ((err, j'), s') = UpdateJob now j (po_storage st) in (j', st\<lparr>po_storage := s'\<rparr>))"

section \<open>What becomes of a job\<close>

definition handleJobFailure ::
  "(nat \<Rightarrow> gtime) \<Rightarrow> job \<Rightarrow> string \<Rightarrow> ('r, 'd) PoolState \<Rightarrow> job \<times> ('r, 'd) PoolState" where
  "handleJobFailure clk j errorMsg st =
     (let (j2, st2) = pool_update (clk 1)
            (j\<lparr>j_Status := StatusFailed, j_Error := errorMsg, j_UpdatedAt := clk 0\<rparr>) st
      in (j2, st2\<lparr>po_queue := snd (Fail j2 (po_queue st2))\<rparr>))"

definition handleJobError ::
  "(int \<Rightarrow> duration) \<Rightarrow> (nat \<Rightarrow> gtime) \<Rightarrow> job \<Rightarrow> goerr \<Rightarrow> ('r, 'd) PoolState \<Rightarrow> job \<times> ('r, 'd) PoolState" where
  "handleJobError delay clk j err st =
     (let j1 = j\<lparr>j_Error := Error err, j_RetryCount := int64 (j_RetryCount j + 1), j_UpdatedAt := clk 0\<rparr>
      in if j_RetryCount j1 < j_MaxRetries j1 then
           let d = delay (j_RetryCount j1);
               (j2, st2) = pool_update (clk 1) (j1\<lparr>j_Status := StatusRetrying\<rparr>) st;
               ((e, j3), q') = Retry (clk 2) (clk 3) j2 d (po_queue st2)
           in (j3, st2\<lparr>po_queue := q'\<rparr>)
         else handleJobFailure (shift 1 clk) j1 (Error err) st)"

text \<open>The duration that is logged at the end reads \<open>*j.StartedAt\<close>, which panics when the
  processor has set it to nil.\<close>

definition handleJobSuccess ::
  "(nat \<Rightarrow> gtime) \<Rightarrow> job \<Rightarrow> ('r, 'd) PoolState \<Rightarrow> (job \<times> ('r, 'd) PoolState) outcome" where
  "handleJobSuccess clk j st =
     (let (j2, st2) = pool_update (clk 1)
            (j\<lparr>j_Status := StatusCompleted, j_CompletedAt := Some (clk 0), j_UpdatedAt := clk 0\<rparr>) st;
          st3 = st2\<lparr>po_queue := snd (Complete j2 (po_queue st2))\<rparr>
      in if j_StartedAt j2 = None then Panics else Returns (j2, st3))"

definition start_job :: "gtime \<Rightarrow> Worker \<Rightarrow> job \<Rightarrow> job" where
  "start_job now w j = j\<lparr>j_WorkerID := w_id w, j_Status := StatusRunning, j_StartedAt := Some now,
     j_UpdatedAt := now\<rparr>"

text \<open>From the update to running on: the processor is looked up and run.\<close>

definition run_job ::
  "PoolConfig \<Rightarrow> (nat \<Rightarrow> gtime) \<Rightarrow> job \<Rightarrow> ('r, 'd) PoolState \<Rightarrow> (job \<times> ('r, 'd) PoolState) outcome" where
  "run_job c clk j st =
     (let (j2, st2) = pool_update (clk 0) j st
      in case registry_Get (pc_registry c) (j_Type j2) of
           None \<Rightarrow> Returns (handleJobFailure (shift 1 clk) j2 (''No processor found for job type: '' @ j_Type j2) st2)
         | Some p \<Rightarrow>
             (case p_Process p j2 of
                (Some err, j3) \<Rightarrow> Returns (handleJobError (pc_delay c) (shift 1 clk) j3 err st2)
              | (None, j3) \<Rightarrow> handleJobSuccess (shift 1 clk) j3 st2))"

definition processJob ::
  "PoolConfig \<Rightarrow> (nat \<Rightarrow> gtime) \<Rightarrow> Worker \<Rightarrow> ('r, 'd) PoolState \<Rightarrow> (Worker \<times> ('r, 'd) PoolState) outcome" where
  "processJob c clk w st =
     (case Pop (clk 0) (po_queue st) of
        (Inl err, q') \<Rightarrow> Returns (w, st\<lparr>po_queue := q'\<rparr>)
      | (Inr None, q') \<Rightarrow> Returns (w, st\<lparr>po_queue := q'\<rparr>)
      | (Inr (Some j), q') \<Rightarrow>
          (let w1 = w\<lparr>w_isActive := True, w_jobCount := int64 (w_jobCount w + 1)\<rparr>
           in obind (run_job c (shift 2 clk) (start_job (clk 1) w1 j) (st\<lparr>po_queue := q'\<rparr>))
                (\<lambda>(j', st'). Returns (w1\<lparr>w_isActive := False\<rparr>, st'))))"

text \<open>The loop of a worker until its context is cancelled: one clock per round.\<close>

fun runWorker ::
  "PoolConfig \<Rightarrow> (nat \<Rightarrow> gtime) list \<Rightarrow> Worker \<Rightarrow> ('r, 'd) PoolState \<Rightarrow> (Worker \<times> ('r, 'd) PoolState) outcome" where
  "runWorker c [] w st = Returns (w, st)"
| "runWorker c (clk # clks) w st = obind (processJob c clk w st) (\<lambda>(w', st'). runWorker c clks w' st')"

section \<open>Effect on queue and storage\<close>

definition pool_up :: "('r, 'd) PoolState \<Rightarrow> bool" where
  "pool_up st \<longleftrightarrow> queue_up (po_queue st) \<and> storage_up (po_storage st)"

definition processing :: "'r RedisQueue \<Rightarrow> json list" where
  "processing q = rv_lists (q_view q) ProcessingQueue"

abbreviation (input) stored :: "('r, 'd) PoolState \<Rightarrow> ObjectID \<rightharpoonup> job" where
  "stored st \<equiv> ms_jobs (po_storage st)"

lemma pool_update_spec:
  assumes "pool_up st"
  shows "\<exists>s'. pool_update now j st = (j\<lparr>j_UpdatedAt := now\<rparr>, st\<lparr>po_storage := s'\<rparr>) \<and> storage_up s'
    \<and> ms_jobs s' = abs_update (j\<lparr>j_UpdatedAt := now\<rparr>) (stored st)"
proof -
  have "storage_up (po_storage st)" using assms by (simp add: pool_up_def)
  from UpdateJob_spec [OF this, of now j] show ?thesis by (auto simp: pool_update_def)
qed

text \<open>A job all of whose instants can be written; its JSON form is then known.\<close>

definition times_ok :: "job \<Rightarrow> bool" where
  "times_ok j \<longleftrightarrow> list_all json_time_ok (job_times j)"

definition doc :: "job \<Rightarrow> json" where
  "doc j = JObj (job_fields j)"

lemma marshal_doc: "times_ok j \<Longrightarrow> marshal_job j = Inr (doc j)"
  by (simp add: times_ok_def doc_def marshal_job_def)

lemma times_ok_simps [simp]:
  "times_ok (j\<lparr>j_Status := a\<rparr>) = times_ok j" "times_ok (j\<lparr>j_Error := b\<rparr>) = times_ok j"
  "times_ok (j\<lparr>j_RetryCount := c\<rparr>) = times_ok j" "times_ok (j\<lparr>j_WorkerID := d\<rparr>) = times_ok j"
  by (simp_all add: times_ok_def job_times_def)

lemma times_ok_set:
  "times_ok j \<Longrightarrow> json_time_ok t \<Longrightarrow> times_ok (j\<lparr>j_UpdatedAt := t\<rparr>)"
  "times_ok j \<Longrightarrow> json_time_ok t \<Longrightarrow> times_ok (j\<lparr>j_ScheduledAt := t\<rparr>)"
  "times_ok j \<Longrightarrow> json_time_ok t \<Longrightarrow> times_ok (j\<lparr>j_StartedAt := Some t\<rparr>)"
  "times_ok j \<Longrightarrow> json_time_ok t \<Longrightarrow> times_ok (j\<lparr>j_CompletedAt := Some t\<rparr>)"
  by (auto simp: times_ok_def job_times_def split: option.splits)

lemma keys_distinct [simp]: "CompletedQueue \<noteq> ProcessingQueue" "FailedQueue \<noteq> ProcessingQueue"
  "JobQueue \<noteq> ProcessingQueue" "ProcessingQueue \<noteq> JobQueue"
  by (simp_all add: status_simps)

lemma push_finished_processing:
  assumes "queue_up q" and "times_ok j" and "key \<noteq> ProcessingQueue"
  shows "processing (snd (push_finished key j q)) = remove1 (doc j) (processing q)"
proof -
  from push_finished_spec [OF assms(1) marshal_doc [OF assms(2)], of key] obtain q1 q'
    where q: "removeFromProcessing j q = (None, q1)" "push_finished key j q = (None, q')"
      "q_view q' = rcmd_effect (RLPush key (doc j)) (q_view q1)" by blast
  from removeFromProcessing_spec [OF assms(1) marshal_doc [OF assms(2)]] q(1)
  have "q_view q1 = (q_view q)\<lparr>rv_lists := (rv_lists (q_view q))(ProcessingQueue :=
         remove1 (doc j) (rv_lists (q_view q) ProcessingQueue))\<rparr>" by auto
  with q assms(3) show ?thesis by (simp add: processing_def)
qed

lemma Complete_effect:
  assumes "queue_up q" and "times_ok j"
  shows "queue_up (snd (Complete j q))"
    and "abs_q (snd (Complete j q)) = (abs_q q)\<lparr>a_completed := doc j # a_completed (abs_q q)\<rparr>"
    and "processing (snd (Complete j q)) = remove1 (doc j) (processing q)"
  using Complete_refines [OF assms(1) marshal_doc [OF assms(2)]]
    push_finished_processing [OF assms, of CompletedQueue] by (auto simp: Complete_def)

lemma Fail_effect:
  assumes "queue_up q" and "times_ok j"
  shows "queue_up (snd (Fail j q))"
    and "abs_q (snd (Fail j q)) = (abs_q q)\<lparr>a_failed := doc j # a_failed (abs_q q)\<rparr>"
    and "processing (snd (Fail j q)) = remove1 (doc j) (processing q)"
  using Fail_refines [OF assms(1) marshal_doc [OF assms(2)]]
    push_finished_processing [OF assms, of FailedQueue] by (auto simp: Fail_def)

lemma Push_processing:
  assumes "queue_up q" and "times_ok j"
  shows "processing (snd (Push now j q)) = processing q"
proof (cases "now < j_ScheduledAt j")
  case True
  with do_ZAdd [OF assms(1), of DelayedQueue "time_Unix (j_ScheduledAt j)" "doc j"] show ?thesis
    by (auto simp: Push_def marshal_doc [OF assms(2)] processing_def)
next
  case False
  with do_LPush [OF assms(1), of JobQueue "doc j"] show ?thesis
    by (auto simp: Push_def marshal_doc [OF assms(2)] processing_def)
qed

lemma Retry_effect:
  assumes "queue_up q" and "times_ok j" and "json_time_ok (now1 + delay)"
  shows "\<exists>q'. Retry now1 now2 j delay q = ((None, j\<lparr>j_ScheduledAt := now1 + delay\<rparr>), q') \<and> queue_up q'
    \<and> abs_q q' = abs_push now2 (now1 + delay) (doc (j\<lparr>j_ScheduledAt := now1 + delay\<rparr>)) (abs_q q)
    \<and> processing q' = remove1 (doc j) (processing q)"
proof -
  let ?j = "j\<lparr>j_ScheduledAt := now1 + delay\<rparr>"
  have ok: "times_ok ?j" using assms(2,3) by (rule times_ok_set)
  from Retry_refines [OF assms(1) marshal_doc [OF assms(2)] marshal_doc [OF ok], of now2] obtain q'
    where q': "Retry now1 now2 j delay q = ((None, ?j), q')" "queue_up q'"
      "abs_q q' = abs_push now2 (now1 + delay) (doc ?j) (abs_q q)" by blast
  from removeFromProcessing_spec [OF assms(1) marshal_doc [OF assms(2)]] obtain q1
    where q1: "removeFromProcessing j q = (None, q1)" "queue_up q1"
      "processing q1 = remove1 (doc j) (processing q)" by (auto simp: processing_def)
  with q'(1) have "q' = snd (Push now2 ?j q1)" by (auto simp: Retry_def Let_def split: prod.splits)
  with Push_processing [OF q1(2) ok] q1(3) q' show ?thesis by simp
qed

lemma Pop_effect:
  assumes "queue_up q" and "due_entries now (abs_q q) = {}" and "a_waiting (abs_q q) = doc j # rest"
    and "wf_job j" and "times_ok j"
  shows "\<exists>q'. Pop now q = (Inr (Some j), q') \<and> queue_up q'
    \<and> abs_q q' = (abs_q q)\<lparr>a_waiting := rest\<rparr> \<and> processing q' = doc j # processing q"
proof -
  from moveDelayed_query_spec [OF assms(1), of now] assms(2) obtain q1
    where "moveDelayed_query now q = (Inr [], q1)" and q1: "queue_up q1" "q_view q1 = q_view q"
    by (metis set_empty)
  then have m: "moveDelayedJobs now q = q1" by (simp add: moveDelayedJobs_def)
  have wait: "rv_lists (q_view q1) JobQueue = rev rest @ [doc j]"
    using assms(3) q1(2) unfolding abs_q_def by (simp add: rev_swap)
  with do_BRPop [OF q1(1), of JobQueue] obtain q2
    where q2: "redis_do (\<lambda>c. c_BRPop c JobQueue) q1 = (Inr (doc j), q2)" "queue_up q2"
      "q_view q2 = (q_view q1)\<lparr>rv_lists := (rv_lists (q_view q1))(JobQueue := rev rest)\<rparr>"
    by auto
  from do_LPush [OF q2(2), of ProcessingQueue "doc j"] obtain q3
    where q3: "moveToProcessing j q2 = (None, q3)" "queue_up q3"
      "q_view q3 = rcmd_effect (RLPush ProcessingQueue (doc j)) (q_view q2)"
    by (auto simp: moveToProcessing_def marshal_doc [OF assms(5)])
  have "unmarshal_job (doc j) = Inr j" by (simp add: doc_def unmarshal_job_fields [OF assms(4)])
  with m q2(1) q3(1) have "Pop now q = (Inr (Some j), q3)" by (simp add: Pop_def)
  moreover have "abs_q q3 = (abs_q q)\<lparr>a_waiting := rest\<rparr>" "processing q3 = doc j # processing q"
    using q1(2) q2(3) q3(3) by (simp_all add: abs_simps processing_def)
  ultimately show ?thesis using q3(2) by blast
qed

section \<open>The fate of a job\<close>

text \<open>What a job comes to, from the job as it is handed to the processor: a function of the
  registry, the delays and the clock alone. \<open>Again j due now\<close> is a job to run again at
  \<open>due\<close>, queued at \<open>now\<close>.\<close>

datatype fate =
    Completed job
  | GaveUp job
  | Again job gtime gtime

definition error_fate :: "(int \<Rightarrow> duration) \<Rightarrow> (nat \<Rightarrow> gtime) \<Rightarrow> job \<Rightarrow> goerr \<Rightarrow> fate" where
  "error_fate delay clk j err =
     (let n = int64 (j_RetryCount j + 1); j1 = j\<lparr>j_Error := Error err, j_RetryCount := n\<rparr>
      in if n < j_MaxRetries j
         then Again (j1\<lparr>j_Status := StatusRetrying, j_UpdatedAt := clk 1\<rparr>) (clk 2 + delay n) (clk 3)
         else GaveUp (j1\<lparr>j_Status := StatusFailed, j_UpdatedAt := clk 2\<rparr>))"

definition fate_of :: "PoolConfig \<Rightarrow> (nat \<Rightarrow> gtime) \<Rightarrow> job \<Rightarrow> fate" where
  "fate_of c clk j = (case registry_Get (pc_registry c) (j_Type j) of
       None \<Rightarrow> GaveUp (j\<lparr>j_Status := StatusFailed,
         j_Error := ''No processor found for job type: '' @ j_Type j, j_UpdatedAt := clk 1\<rparr>)
     | Some p \<Rightarrow> (case p_Process p j of
         (Some err, j3) \<Rightarrow> error_fate (pc_delay c) clk j3 err
       | (None, j3) \<Rightarrow> Completed (j3\<lparr>j_Status := StatusCompleted, j_CompletedAt := Some (clk 0),
           j_UpdatedAt := clk 1\<rparr>)))"

fun written :: "fate \<Rightarrow> job" where
  "written (Completed j) = j"
| "written (GaveUp j) = j"
| "written (Again j due now) = j"

fun fate_queue :: "fate \<Rightarrow> abs_queue \<Rightarrow> abs_queue" where
  "fate_queue (Completed j) a = a\<lparr>a_completed := doc j # a_completed a\<rparr>"
| "fate_queue (GaveUp j) a = a\<lparr>a_failed := doc j # a_failed a\<rparr>"
| "fate_queue (Again j due now) a = abs_push now due (doc (j\<lparr>j_ScheduledAt := due\<rparr>)) a"

text \<open>The fate can be written down: its instants are within the years that JSON allows, and the
  processor has not taken the start time away.\<close>

definition fate_ok :: "fate \<Rightarrow> bool" where
  "fate_ok f \<longleftrightarrow> times_ok (written f) \<and> (case f of
       Completed j \<Rightarrow> j_StartedAt j \<noteq> None
     | GaveUp j \<Rightarrow> True
     | Again j due now \<Rightarrow> json_time_ok due)"

definition carried_out :: "fate \<Rightarrow> ('r, 'd) PoolState \<Rightarrow> ('r, 'd) PoolState \<Rightarrow> bool" where
  "carried_out f st st' \<longleftrightarrow> pool_up st'
     \<and> stored st' = abs_update (written f) (stored st)
     \<and> abs_q (po_queue st') = fate_queue f (abs_q (po_queue st))
     \<and> processing (po_queue st') = remove1 (doc (written f)) (processing (po_queue st))"

lemma handleJobFailure_spec:
  assumes "pool_up st" and "jf = j\<lparr>j_Status := StatusFailed, j_Error := msg, j_UpdatedAt := clk 1\<rparr>"
    and "times_ok jf"
  shows "\<exists>st'. handleJobFailure clk j msg st = (jf, st') \<and> carried_out (GaveUp jf) st st'"
proof -
  from pool_update_spec [OF assms(1), of "clk 1" "j\<lparr>j_Status := StatusFailed, j_Error := msg, j_UpdatedAt := clk 0\<rparr>"]
  obtain s' where s': "pool_update (clk 1) (j\<lparr>j_Status := StatusFailed, j_Error := msg, j_UpdatedAt := clk 0\<rparr>) st
      = (jf, st\<lparr>po_storage := s'\<rparr>)" "storage_up s'" "ms_jobs s' = abs_update jf (stored st)"
    using assms(2) by auto
  have q: "queue_up (po_queue st)" using assms(1) by (simp add: pool_up_def)
  show ?thesis using s' Fail_effect [OF q assms(3)]
    by (simp add: handleJobFailure_def carried_out_def pool_up_def)
qed

lemma handleJobSuccess_spec:
  assumes "pool_up st"
    and "jf = j\<lparr>j_Status := StatusCompleted, j_CompletedAt := Some (clk 0), j_UpdatedAt := clk 1\<rparr>"
    and "fate_ok (Completed jf)"
  shows "\<exists>st'. handleJobSuccess clk j st = Returns (jf, st') \<and> carried_out (Completed jf) st st'"
proof -
  let ?j = "j\<lparr>j_Status := StatusCompleted, j_CompletedAt := Some (clk 0), j_UpdatedAt := clk 0\<rparr>"
  from pool_update_spec [OF assms(1), of "clk 1" ?j]
  obtain s' where s': "pool_update (clk 1) ?j st = (jf, st\<lparr>po_storage := s'\<rparr>)" "storage_up s'"
    "ms_jobs s' = abs_update jf (stored st)"
    using assms(2) by auto
  have q: "queue_up (po_queue st)" using assms(1) by (simp add: pool_up_def)
  have t: "times_ok jf" "j_StartedAt jf \<noteq> None" using assms(3) by (simp_all add: fate_ok_def)
  show ?thesis using s' Complete_effect [OF q t(1)] t(2)
    by (simp add: handleJobSuccess_def carried_out_def pool_up_def)
qed

lemma handleJobError_spec:
  assumes "pool_up st" and "f = error_fate delay clk j err" and "fate_ok f"
  shows "\<exists>j' st'. handleJobError delay clk j err st = (j', st') \<and> carried_out f st st'"
proof -
  let ?n = "int64 (j_RetryCount j + 1)"
  let ?j1 = "j\<lparr>j_Error := Error err, j_RetryCount := ?n, j_UpdatedAt := clk 0\<rparr>"
  show ?thesis
  proof (cases "?n < j_MaxRetries j")
    case True
    let ?jr = "j\<lparr>j_Error := Error err, j_RetryCount := ?n, j_Status := StatusRetrying, j_UpdatedAt := clk 1\<rparr>"
    have f: "f = Again ?jr (clk 2 + delay ?n) (clk 3)" using True assms(2) by (simp add: error_fate_def Let_def)
    from pool_update_spec [OF assms(1), of "clk 1" "?j1\<lparr>j_Status := StatusRetrying\<rparr>"]
    obtain s' where s': "pool_update (clk 1) (?j1\<lparr>j_Status := StatusRetrying\<rparr>) st = (?jr, st\<lparr>po_storage := s'\<rparr>)"
      "storage_up s'" "ms_jobs s' = abs_update ?jr (stored st)" by auto
    have q: "queue_up (po_queue st)" using assms(1) by (simp add: pool_up_def)
    have t: "times_ok ?jr" "json_time_ok (clk 2 + delay ?n)" using assms(3) f by (simp_all add: fate_ok_def)
    from Retry_effect [OF q t, of "clk 3"] obtain q'
      where q': "Retry (clk 2) (clk 3) ?jr (delay ?n) (po_queue st) =
          ((None, ?jr\<lparr>j_ScheduledAt := clk 2 + delay ?n\<rparr>), q')"
        "queue_up q'" "abs_q q' = abs_push (clk 3) (clk 2 + delay ?n)
          (doc (?jr\<lparr>j_ScheduledAt := clk 2 + delay ?n\<rparr>)) (abs_q (po_queue st))"
        "processing q' = remove1 (doc ?jr) (processing (po_queue st))" by blast
    have "handleJobError delay clk j err st =
        (?jr\<lparr>j_ScheduledAt := clk 2 + delay ?n\<rparr>, st\<lparr>po_storage := s', po_queue := q'\<rparr>)"
      using True s'(1) q'(1) by (simp add: handleJobError_def Let_def)
    moreover have "carried_out f st (st\<lparr>po_storage := s', po_queue := q'\<rparr>)"
      using s'(2,3) q'(2-4) by (simp add: f carried_out_def pool_up_def)
    ultimately show ?thesis by blast
  next
    case False
    let ?jf = "?j1\<lparr>j_Status := StatusFailed, j_Error := Error err, j_UpdatedAt := clk 2\<rparr>"
    have f: "f = GaveUp ?jf" using False assms(2) by (simp add: error_fate_def Let_def)
    then have t: "times_ok ?jf" using assms(3) by (simp add: fate_ok_def)
    have "?jf = ?j1\<lparr>j_Status := StatusFailed, j_Error := Error err, j_UpdatedAt := shift 1 clk 1\<rparr>"
      by (simp add: shift_def numeral_2_eq_2)
    from handleJobFailure_spec [where j = ?j1 and msg = "Error err" and clk = "shift 1 clk",
        OF assms(1) this t] False show ?thesis
      by (auto simp: handleJobError_def Let_def f)
  qed
qed

lemma run_job_spec:
  assumes "pool_up st" and "j1 = j\<lparr>j_UpdatedAt := clk 0\<rparr>" and "f = fate_of c (shift 1 clk) j1"
    and "fate_ok f"
  shows "\<exists>j' st' st1. run_job c clk j st = Returns (j', st') \<and> pool_up st1
    \<and> stored st1 = abs_update j1 (stored st) \<and> po_queue st1 = po_queue st \<and> carried_out f st1 st'"
proof -
  from pool_update_spec [OF assms(1), of "clk 0" j] obtain s1
    where s1: "pool_update (clk 0) j st = (j1, st\<lparr>po_storage := s1\<rparr>)" "storage_up s1"
      "ms_jobs s1 = abs_update j1 (stored st)" using assms(2) by blast
  let ?st1 = "st\<lparr>po_storage := s1\<rparr>"
  have up: "pool_up ?st1" using assms(1) s1(2) by (simp add: pool_up_def)
  have "\<exists>j' st'. run_job c clk j st = Returns (j', st') \<and> carried_out f ?st1 st'"
  proof (cases "registry_Get (pc_registry c) (j_Type j1)")
    case None
    let ?msg = "''No processor found for job type: '' @ j_Type j1"
    let ?jf = "j1\<lparr>j_Status := StatusFailed, j_Error := ?msg, j_UpdatedAt := shift 1 clk 1\<rparr>"
    have f: "f = GaveUp ?jf" using None assms(3) by (simp add: fate_of_def)
    then have "times_ok ?jf" using assms(4) by (simp add: fate_ok_def)
    from handleJobFailure_spec [where j = j1 and msg = ?msg and clk = "shift 1 clk", OF up refl this]
      None s1(1) show ?thesis
      by (auto simp: run_job_def f)
  next
    case (Some p)
    show ?thesis
    proof (cases "fst (p_Process p j1)")
      case None
      then obtain j3 where p: "p_Process p j1 = (None, j3)" by (metis prod.collapse)
      let ?jf = "j3\<lparr>j_Status := StatusCompleted, j_CompletedAt := Some (shift 1 clk 0),
        j_UpdatedAt := shift 1 clk 1\<rparr>"
      have f: "f = Completed ?jf" using Some p assms(3) by (simp add: fate_of_def)
      from handleJobSuccess_spec [where j = j3 and clk = "shift 1 clk", OF up refl] assms(4) [unfolded f] Some p s1(1) show ?thesis
        by (fastforce simp: run_job_def f)
    next
      case (Some err)
      then obtain j3 where p: "p_Process p j1 = (Some err, j3)" by (metis prod.collapse)
      have f: "f = error_fate (pc_delay c) (shift 1 clk) j3 err"
        using \<open>registry_Get (pc_registry c) (j_Type j1) = Some p\<close> p assms(3) by (simp add: fate_of_def)
      from handleJobError_spec [OF up f assms(4)] \<open>registry_Get (pc_registry c) (j_Type j1) = Some p\<close> p s1(1)
      show ?thesis by (auto simp: run_job_def)
    qed
  qed
  with s1(3) up show ?thesis by fastforce
qed

section \<open>Properties\<close>

text \<open>The job as the processor is given it.\<close>

definition running :: "(nat \<Rightarrow> gtime) \<Rightarrow> Worker \<Rightarrow> job \<Rightarrow> job" where
  "running clk w j = (start_job (clk 1) w j)\<lparr>j_UpdatedAt := clk 2\<rparr>"

lemma shift_1_2: "shift 1 (shift 2 clk) = shift 3 clk"
  by (simp add: shift_def fun_eq_iff numeral_3_eq_3 numeral_2_eq_2)

lemma processJob_spec:
  assumes "pool_up st" and "due_entries (clk 0) (abs_q (po_queue st)) = {}"
    and "a_waiting (abs_q (po_queue st)) = doc j # rest" and "wf_job j" and "times_ok j"
    and "f = fate_of c (shift 3 clk) (running clk w j)" and "fate_ok f"
  shows "\<exists>st'. processJob c clk w st =
      Returns (w\<lparr>w_isActive := False, w_jobCount := int64 (w_jobCount w + 1)\<rparr>, st') \<and> pool_up st'
    \<and> stored st' = abs_update (written f) (abs_update (running clk w j) (stored st))
    \<and> abs_q (po_queue st') = fate_queue f ((abs_q (po_queue st))\<lparr>a_waiting := rest\<rparr>)
    \<and> processing (po_queue st') = remove1 (doc (written f)) (doc j # processing (po_queue st))"
proof -
  have q: "queue_up (po_queue st)" using assms(1) by (simp add: pool_up_def)
  from Pop_effect [OF q assms(2-5)] obtain q1
    where q1: "Pop (clk 0) (po_queue st) = (Inr (Some j), q1)" "queue_up q1"
      "abs_q q1 = (abs_q (po_queue st))\<lparr>a_waiting := rest\<rparr>" "processing q1 = doc j # processing (po_queue st)"
    by blast
  let ?w = "w\<lparr>w_isActive := True, w_jobCount := int64 (w_jobCount w + 1)\<rparr>"
    and ?st1 = "st\<lparr>po_queue := q1\<rparr>"
  have up1: "pool_up ?st1" using assms(1) q1(2) by (simp add: pool_up_def)
  have "running clk w j = (start_job (clk 1) ?w j)\<lparr>j_UpdatedAt := shift 2 clk 0\<rparr>"
    by (simp add: running_def start_job_def shift_def)
  from run_job_spec [where j = "start_job (clk 1) ?w j" and clk = "shift 2 clk" and f = f and c = c,
      OF up1 this, unfolded shift_1_2, OF assms(6,7)] obtain j' st' st2
    where r: "run_job c (shift 2 clk) (start_job (clk 1) ?w j) ?st1 = Returns (j', st')"
      "stored st2 = abs_update (running clk w j) (stored ?st1)" "po_queue st2 = q1" "carried_out f st2 st'"
    by auto
  have "processJob c clk w st = Returns (?w\<lparr>w_isActive := False\<rparr>, st')"
    by (simp add: processJob_def q1(1) r(1) Let_def del: One_nat_def)
  with r(2-4) q1(3,4) show ?thesis by (simp add: carried_out_def)
qed

text \<open>C1: a worker that finds a job waiting carries out the job's fate: what is stored is the
  running job and then its final form, and the job moves from the head of the queue to the
  completed ones, to the failed ones, or back to wait for its retry; the worker has counted one
  job and is idle again.\<close>

theorem process_carries_out_the_fate:
  assumes "pool_up st" and "due_entries (clk 0) (abs_q (po_queue st)) = {}"
    and "a_waiting (abs_q (po_queue st)) = doc j # rest" and "wf_job j" and "times_ok j"
    and "f = fate_of c (shift 3 clk) (running clk w j)" and "fate_ok f"
  shows "\<exists>st'. processJob c clk w st =
      Returns (w\<lparr>w_isActive := False, w_jobCount := int64 (w_jobCount w + 1)\<rparr>, st') \<and> pool_up st'
    \<and> ms_jobs (po_storage st') =
        abs_update (written f) (abs_update (running clk w j) (ms_jobs (po_storage st)))
    \<and> abs_q (po_queue st') = fate_queue f ((abs_q (po_queue st))\<lparr>a_waiting := rest\<rparr>)"
  using processJob_spec [OF assms] by blast

text \<open>The final form of a job differs from every pending job.\<close>

lemma written_status: "j_Status (written (fate_of c clk j)) \<in> {StatusCompleted, StatusFailed, StatusRetrying}"
  by (auto simp: fate_of_def error_fate_def Let_def split: option.splits prod.splits)

lemma written_not_pending:
  assumes "j_Status j = StatusPending"
  shows "doc (written (fate_of c clk k)) \<noteq> doc j"
proof
  assume "doc (written (fate_of c clk k)) = doc j"
  then have "job_fields (written (fate_of c clk k)) = job_fields j" by (simp add: doc_def)
  from job_fields_status [OF this] assms written_status [of c clk k] show False
    by (auto simp: status_simps)
qed

text \<open>C25: the entry that a pop adds to the processing list is not the one that is removed when the
  job is finished or retried, because the job has changed in between: for every pending job one
  entry stays in the list for good.\<close>

theorem processing_entry_stays:
  assumes "pool_up st" and "due_entries (clk 0) (abs_q (po_queue st)) = {}"
    and "a_waiting (abs_q (po_queue st)) = doc j # rest" and "wf_job j" and "times_ok j"
    and "j_Status j = StatusPending" and "fate_ok (fate_of c (shift 3 clk) (running clk w j))"
  shows "\<exists>w' st'. processJob c clk w st = Returns (w', st')
    \<and> count (mset (rv_lists (q_view (po_queue st')) ProcessingQueue)) (doc j)
        = Suc (count (mset (rv_lists (q_view (po_queue st)) ProcessingQueue)) (doc j))"
  using processJob_spec [OF assms(1-5) refl assms(7)] written_not_pending [OF assms(6), of c "shift 3 clk"]
  by (fastforce simp: processing_def)

text \<open>How often a job is run until its fate is decided, one clock per run.\<close>

fun executions :: "PoolConfig \<Rightarrow> Worker \<Rightarrow> (nat \<Rightarrow> gtime) list \<Rightarrow> job \<Rightarrow> nat" where
  "executions c w [] j = 0"
| "executions c w (clk # clks) j = (case fate_of c (shift 3 clk) (running clk w j) of
       Again j' due now \<Rightarrow> Suc (executions c w clks (j'\<lparr>j_ScheduledAt := due\<rparr>))
     | _ \<Rightarrow> 1)"

text \<open>A processor that always fails and leaves the job's type and counters alone.\<close>

definition always_fails :: "processor \<Rightarrow> bool" where
  "always_fails p \<longleftrightarrow> (\<forall>j. fst (p_Process p j) \<noteq> None
     \<and> j_RetryCount (snd (p_Process p j)) = j_RetryCount j
     \<and> j_MaxRetries (snd (p_Process p j)) = j_MaxRetries j
     \<and> j_Type (snd (p_Process p j)) = j_Type j)"

lemma fate_always_fails:
  assumes "always_fails p" and "pc_registry c (j_Type j) = Some p" and "in_int64 (j_RetryCount j + 1)"
  shows "if j_RetryCount j + 1 < j_MaxRetries j
    then \<exists>j' due now. fate_of c clk j = Again j' due now \<and> j_RetryCount j' = j_RetryCount j + 1
      \<and> j_MaxRetries j' = j_MaxRetries j \<and> j_Type j' = j_Type j
    else \<exists>j'. fate_of c clk j = GaveUp j'"
proof -
  obtain err j3 where p: "p_Process p j = (Some err, j3)"
    using assms(1) unfolding always_fails_def by (metis not_None_eq prod.collapse)
  then have "j_RetryCount j3 = j_RetryCount j" "j_MaxRetries j3 = j_MaxRetries j" "j_Type j3 = j_Type j"
    using assms(1) unfolding always_fails_def by (metis snd_conv)+
  with p assms(2,3) show ?thesis
    by (simp add: fate_of_def registry_Get_def error_fate_def Let_def)
qed

lemma running_simps [simp]:
  "j_RetryCount (running clk w j) = j_RetryCount j" "j_MaxRetries (running clk w j) = j_MaxRetries j"
  "j_Type (running clk w j) = j_Type j"
  by (simp_all add: running_def start_job_def)

lemma executions_left:
  assumes "always_fails p" and "pc_registry c (j_Type j) = Some p" and "0 \<le> j_RetryCount j"
    and "in_int64 (j_RetryCount j + 1)" and "j_RetryCount j < j_MaxRetries j" and "in_int64 (j_MaxRetries j)"
    and "nat (j_MaxRetries j - j_RetryCount j) \<le> length clks"
  shows "executions c w clks j = nat (j_MaxRetries j - j_RetryCount j)"
  using assms
proof (induction clks arbitrary: j)
  case Nil
  then show ?case by simp
next
  case (Cons clk clks)
  note fate = fate_always_fails [OF Cons.prems(1), of c "running clk w j" "shift 3 clk"]
  show ?case
  proof (cases "j_RetryCount j + 1 < j_MaxRetries j")
    case True
    with fate Cons.prems obtain j' due now
      where f: "fate_of c (shift 3 clk) (running clk w j) = Again j' due now"
        and j': "j_RetryCount j' = j_RetryCount j + 1" "j_MaxRetries j' = j_MaxRetries j" "j_Type j' = j_Type j"
      by auto
    let ?j = "j'\<lparr>j_ScheduledAt := due\<rparr>"
    have "executions c w clks ?j = nat (j_MaxRetries ?j - j_RetryCount ?j)"
      by (rule Cons.IH) (use Cons.prems True j' in \<open>auto simp: in_int64_def\<close>)
    with f j' True show ?thesis by simp
  next
    case False
    with fate Cons.prems obtain j' where "fate_of c (shift 3 clk) (running clk w j) = GaveUp j'" by auto
    with False Cons.prems(5) show ?thesis by simp
  qed
qed


section \<open>Witnesses\<close>

definition sample_pool :: "(mem_redis, mem_mongo) PoolState" where
  "sample_pool = \<lparr>po_queue = new_queue\<lparr>q_db := mem_empty\<lparr>mr_lists := (\<lambda>_. [])(JobQueue := [doc sample_job])\<rparr>\<rparr>,
     po_storage = new_storage\<rparr>"

definition sample_config :: "goerr option \<Rightarrow> PoolConfig" where
  "sample_config r = RegisterProcessor \<lparr>p_Type = ''email'', p_Process = (\<lambda>j. (r, j))\<rparr>
     \<lparr>pc_registry = Map.empty, pc_delay = (\<lambda>_. seconds 1)\<rparr>"

lemma sample_pool_facts:
  "pool_up sample_pool" "due_entries t (abs_q (po_queue sample_pool)) = {}"
  "a_waiting (abs_q (po_queue sample_pool)) = doc sample_job # []"
  "wf_job sample_job" "times_ok sample_job" "j_Status sample_job = StatusPending"
  by (simp_all add: sample_pool_def pool_up_def queue_up_def new_queue_def mem_contract mem_reliable
      due_entries_def in_score_range_def abs_q_def q_view_def mem_view_def mem_empty_def
      sample_job_def zero_job_def wf_job_def in_int64_def status_simps times_ok_def job_times_def
      json_time_ok_def zero_time_def)

lemma sample_fate:
  "fate_of (sample_config None) (\<lambda>_. 0) (running (\<lambda>_. 0) w sample_job) =
     Completed ((running (\<lambda>_. 0) w sample_job)\<lparr>j_Status := StatusCompleted, j_CompletedAt := Some 0\<rparr>)"
  by (simp add: fate_of_def sample_config_def RegisterProcessor_def registry_Register_def registry_Get_def
      sample_job_def running_def start_job_def)

lemma shift_const: "shift k (\<lambda>_. t) = (\<lambda>_. t)"
  by (simp add: shift_def fun_eq_iff)

lemma sample_fate_ok: "fate_ok (fate_of (sample_config None) (shift k (\<lambda>_. 0)) (running (\<lambda>_. 0) w sample_job))"
  unfolding shift_const sample_fate
  by (simp add: fate_ok_def running_def start_job_def times_ok_set sample_pool_facts(5) json_time_ok_def)

theorem process_carries_out_the_fate_witness:
  "\<exists>st'. processJob (sample_config None) (\<lambda>_. 0) \<lparr>w_id = ''w'', w_nodeID = ''n'', w_isActive = False, w_jobCount = 4\<rparr>
      sample_pool = Returns (\<lparr>w_id = ''w'', w_nodeID = ''n'', w_isActive = False, w_jobCount = 5\<rparr>, st')
    \<and> a_waiting (abs_q (po_queue st')) = []"
proof -
  let ?w = "\<lparr>w_id = ''w'', w_nodeID = ''n'', w_isActive = False, w_jobCount = 4\<rparr>"
  from process_carries_out_the_fate [OF sample_pool_facts(1-5) refl sample_fate_ok, of ?w] obtain st'
    where st': "processJob (sample_config None) (\<lambda>_. 0) ?w sample_pool =
        Returns (?w\<lparr>w_isActive := False, w_jobCount := int64 (w_jobCount ?w + 1)\<rparr>, st')"
      "abs_q (po_queue st') = fate_queue (fate_of (sample_config None) (shift 3 (\<lambda>_. 0))
          (running (\<lambda>_. 0) ?w sample_job)) ((abs_q (po_queue sample_pool))\<lparr>a_waiting := []\<rparr>)" by blast
  from st'(2) have "a_waiting (abs_q (po_queue st')) = []" by (simp add: shift_const sample_fate)
  with st'(1) show ?thesis by (simp add: int64_def)
qed

theorem processing_entry_stays_witness:
  "\<exists>w' st'. processJob (sample_config None) (\<lambda>_. 0) \<lparr>w_id = ''w'', w_nodeID = ''n'', w_isActive = False, w_jobCount = 4\<rparr>
      sample_pool = Returns (w', st')
    \<and> count (mset (rv_lists (q_view (po_queue st')) ProcessingQueue)) (doc sample_job)
      = Suc (count (mset (rv_lists (q_view (po_queue sample_pool)) ProcessingQueue)) (doc sample_job))"
  by (rule processing_entry_stays [OF sample_pool_facts sample_fate_ok])


section \<open>The loop of a worker\<close>

text \<open>The connection stays the same.\<close>

lemma pool_update_client: "pool_update now j st = (j', st') \<Longrightarrow> ms_client (po_storage st') = ms_client (po_storage st)"
  by (auto simp: pool_update_def UpdateJob_def mongo_do_def Let_def split: prod.splits sum.splits)

lemma handle_client:
  "handleJobFailure clk j msg st = (j', st') \<Longrightarrow> ms_client (po_storage st') = ms_client (po_storage st)"
  "handleJobError delay clk j err st = (j', st') \<Longrightarrow> ms_client (po_storage st') = ms_client (po_storage st)"
  "handleJobSuccess clk j st = Returns (j', st') \<Longrightarrow> ms_client (po_storage st') = ms_client (po_storage st)"
proof -
  show f: "handleJobFailure clk j msg st = (j', st') \<Longrightarrow> ms_client (po_storage st') = ms_client (po_storage st)" for clk j msg
    by (auto simp: handleJobFailure_def split: prod.splits dest: pool_update_client)
  show "handleJobError delay clk j err st = (j', st') \<Longrightarrow> ms_client (po_storage st') = ms_client (po_storage st)"
    by (auto simp: handleJobError_def Let_def split: prod.splits if_splits dest: pool_update_client f)
  show "handleJobSuccess clk j st = Returns (j', st') \<Longrightarrow> ms_client (po_storage st') = ms_client (po_storage st)"
    by (auto simp: handleJobSuccess_def Let_def split: prod.splits if_splits dest: pool_update_client)
qed

lemma run_job_client: "run_job c clk j st = Returns (j', st') \<Longrightarrow> ms_client (po_storage st') = ms_client (po_storage st)"
  by (auto simp: run_job_def split: prod.splits option.splits dest!: pool_update_client handle_client)

lemma processJob_client: "processJob c clk w st = Returns (w', st') \<Longrightarrow> ms_client (po_storage st') = ms_client (po_storage st)"
  by (auto simp: processJob_def Let_def obind_eq_Returns split: prod.splits sum.splits option.splits dest!: run_job_client)

text \<open>A job that is decided in one run: it completes or is given up.\<close>

definition decided :: "fate \<Rightarrow> bool" where
  "decided f \<longleftrightarrow> fate_ok f \<and> (case f of Again j due now \<Rightarrow> False | _ \<Rightarrow> True)"

lemma running_id: "w_id v = w_id w \<Longrightarrow> running clk v j = running clk w j"
  by (simp add: running_def start_job_def)

lemma runWorker_drains:
  assumes "pool_up st" and "a_delayed (abs_q (po_queue st)) = Map.empty"
    and "a_waiting (abs_q (po_queue st)) = map doc js" and "length clks = length js"
    and "\<forall>(clk, j)\<in>set (zip clks js). wf_job j \<and> times_ok j \<and> decided (fate_of c (shift 3 clk) (running clk w j))"
  shows "\<exists>w' st'. runWorker c clks w st = Returns (w', st') \<and> pool_up st'
    \<and> a_waiting (abs_q (po_queue st')) = [] \<and> a_delayed (abs_q (po_queue st')) = Map.empty
    \<and> length (a_completed (abs_q (po_queue st'))) + length (a_failed (abs_q (po_queue st')))
      = length js + length (a_completed (abs_q (po_queue st))) + length (a_failed (abs_q (po_queue st)))"
  using assms
proof (induction clks js arbitrary: w st rule: list_induct2')
  case 1
  then show ?case by simp
next
  case (4 clk clks j js)
  let ?f = "fate_of c (shift 3 clk) (running clk w j)"
  have j: "wf_job j" "times_ok j" "decided ?f" using "4.prems"(5) by auto
  have due: "due_entries (clk 0) (abs_q (po_queue st)) = {}"
    using "4.prems"(2) by (simp add: due_entries_def in_score_range_def)
  from processJob_spec [where clk = clk and c = c and w = w and j = j, OF "4.prems"(1) due _ j(1,2) refl] "4.prems"(3) j obtain w1 st1
    where s1: "processJob c clk w st = Returns (w1, st1)" "w_id w1 = w_id w" "pool_up st1"
      "abs_q (po_queue st1) = fate_queue ?f ((abs_q (po_queue st))\<lparr>a_waiting := map doc js\<rparr>)"
    by (auto simp: decided_def)
  have q: "a_waiting (abs_q (po_queue st1)) = map doc js" "a_delayed (abs_q (po_queue st1)) = Map.empty"
    "length (a_completed (abs_q (po_queue st1))) + length (a_failed (abs_q (po_queue st1)))
      = Suc (length (a_completed (abs_q (po_queue st))) + length (a_failed (abs_q (po_queue st))))"
    using s1(4) j(3) "4.prems"(2) by (auto simp: decided_def split: fate.splits)
  have "\<forall>(clk, j)\<in>set (zip clks js). wf_job j \<and> times_ok j \<and> decided (fate_of c (shift 3 clk) (running clk w1 j))"
    using "4.prems"(5) running_id [OF s1(2)] by auto
  from "4.IH" [OF s1(3) q(2,1) _ this] "4.prems"(4) obtain w' st'
    where "runWorker c clks w1 st1 = Returns (w', st')" "pool_up st'" "a_waiting (abs_q (po_queue st')) = []"
      "a_delayed (abs_q (po_queue st')) = Map.empty" "length (a_completed (abs_q (po_queue st'))) + length (a_failed (abs_q (po_queue st')))
      = length js + length (a_completed (abs_q (po_queue st1))) + length (a_failed (abs_q (po_queue st1)))" by auto
  with s1(1) q(3) show ?case by simp
qed simp_all

text \<open>C36: A worker that is left alone empties the queue: when no job is delayed and each one completes or is
  given up, as many rounds as there are jobs leave none waiting, and each has joined the completed or
  the failed ones.\<close>

theorem worker_empties_the_queue:
  assumes "pool_up st" and "a_delayed (abs_q (po_queue st)) = Map.empty"
    and "a_waiting (abs_q (po_queue st)) = map doc js" and "length clks = length js"
    and "\<forall>(clk, j)\<in>set (zip clks js). wf_job j \<and> times_ok j \<and> decided (fate_of c (shift 3 clk) (running clk w j))"
  shows "\<exists>w' st'. runWorker c clks w st = Returns (w', st') \<and> a_waiting (abs_q (po_queue st')) = []
    \<and> length (a_completed (abs_q (po_queue st'))) + length (a_failed (abs_q (po_queue st')))
      = length js + length (a_completed (abs_q (po_queue st))) + length (a_failed (abs_q (po_queue st)))"
  using runWorker_drains [OF assms] by blast

theorem worker_empties_the_queue_witness:
  "\<exists>w' st'. runWorker (sample_config None) [\<lambda>_. 0] \<lparr>w_id = ''w'', w_nodeID = ''n'', w_isActive = False, w_jobCount = 4\<rparr>
      sample_pool = Returns (w', st') \<and> a_waiting (abs_q (po_queue st')) = []"
proof -
  have d: "decided (fate_of (sample_config None) (shift 3 (\<lambda>_. 0)) (running (\<lambda>_. 0) v sample_job))" for v
    using sample_fate_ok [of 3 v] unfolding decided_def shift_const sample_fate by simp
  have q: "a_delayed (abs_q (po_queue sample_pool)) = Map.empty"
    by (simp add: sample_pool_def abs_q_def q_view_def new_queue_def mem_view_def mem_client_def mem_empty_def)
  show ?thesis
    using worker_empties_the_queue [OF sample_pool_facts(1) q, of "[sample_job]" "[\<lambda>_. 0]" "sample_config None"
        "\<lparr>w_id = ''w'', w_nodeID = ''n'', w_isActive = False, w_jobCount = 4\<rparr>"]
      sample_pool_facts d by auto
qed

end
