(* ===== verification/LoadBalancer.thy ===== *)
theory LoadBalancer
  imports Job Worker
begin

text \<open>
  The load balancers of \<open>internal/loadbalancer\<close>: round robin, least loaded, random and
  by priority, the factory, and their common interface as the locale
  \<open>load_balancer\<close>. A selection returns the selected worker's statistics (None for nil)
  and the balancer's next state; an index out of range is a panic.
\<close>

section \<open>The four balancers\<close>

text \<open>The loop of several balancers that collects the workers that are not active.\<close>

definition availableWorkers :: "WorkerStats list \<Rightarrow> WorkerStats list" where
  "availableWorkers workers = filter (\<lambda>w. \<not> ws_IsActive w) workers"

definition LeastLoaded_SelectWorker :: "WorkerStats list \<Rightarrow> WorkerStats option" where
  "LeastLoaded_SelectWorker workers =
     (if workers = [] then None
      else scan_min (\<lambda>w. \<not> ws_IsActive w) ws_JobCount workers (-1) None)"

definition index_worker :: "WorkerStats list \<Rightarrow> int \<Rightarrow> WorkerStats outcome" where
  "index_worker ws i = (if 0 \<le> i \<and> i < int (length ws) then Returns (ws ! nat i) else Panics)"

definition RoundRobin_SelectWorker ::
  "int \<Rightarrow> WorkerStats list \<Rightarrow> (WorkerStats option \<times> int) outcome" where
  "RoundRobin_SelectWorker current workers =
     (if workers = [] then Returns (None, current)
      else let av = availableWorkers workers
           in if av = [] then Returns (None, current)
              else obind (index_worker av (go_rem current (int (length av))))
                     (\<lambda>selected. Returns (Some selected, int64 (current + 1))))"

text \<open>\<open>intn g n\<close> is \<open>rng.Intn(n)\<close>: a number below \<open>n\<close> and the generator's next state.\<close>

definition Random_SelectWorker ::
  "('g \<Rightarrow> nat \<Rightarrow> nat \<times> 'g) \<Rightarrow> 'g \<Rightarrow> WorkerStats list \<Rightarrow> (WorkerStats option \<times> 'g) outcome" where
  "Random_SelectWorker intn rng workers =
     (if workers = [] then Returns (None, rng)
      else let av = availableWorkers workers
           in if av = [] then Returns (None, rng)
              else let (index, rng') = intn rng (length av)
                   in obind (index_worker av (int index)) (\<lambda>w. Returns (Some w, rng')))"

definition selectByLeastLoad :: "WorkerStats list \<Rightarrow> WorkerStats option" where
  "selectByLeastLoad workers = scan_min (\<lambda>_. True) ws_JobCount workers (-1) None"

definition selectRoundRobin :: "WorkerStats list \<Rightarrow> WorkerStats option" where
  "selectRoundRobin workers = (if workers = [] then None else Some (workers ! 0))"

definition selectByMostLoad :: "WorkerStats list \<Rightarrow> WorkerStats option" where
  "selectByMostLoad workers = scan_max ws_JobCount workers (-1) None"

definition Priority_SelectWorker :: "WorkerStats list \<Rightarrow> job \<Rightarrow> WorkerStats option" where
  "Priority_SelectWorker workers j =
     (if workers = [] then None
      else let av = availableWorkers workers
           in if av = [] then None
              else if j_Priority j = PriorityHigh then selectByLeastLoad av
              else if j_Priority j = PriorityNormal then selectRoundRobin av
              else if j_Priority j = PriorityLow then selectByMostLoad av
              else selectByLeastLoad av)"

section \<open>The interface and the factory\<close>

datatype 'g LoadBalancer =
    RoundRobinBalancer int
  | LeastLoadedBalancer
  | RandomBalancer 'g
  | PriorityBalancer

fun SelectWorker ::
  "('g \<Rightarrow> nat \<Rightarrow> nat \<times> 'g) \<Rightarrow> 'g LoadBalancer \<Rightarrow> WorkerStats list \<Rightarrow> job
     \<Rightarrow> (WorkerStats option \<times> 'g LoadBalancer) outcome" where
  "SelectWorker intn (RoundRobinBalancer current) workers j =
     obind (RoundRobin_SelectWorker current workers) (\<lambda>(w, c). Returns (w, RoundRobinBalancer c))"
| "SelectWorker intn LeastLoadedBalancer workers j =
     Returns (LeastLoaded_SelectWorker workers, LeastLoadedBalancer)"
| "SelectWorker intn (RandomBalancer g) workers j =
     obind (Random_SelectWorker intn g workers) (\<lambda>(w, g'). Returns (w, RandomBalancer g'))"
| "SelectWorker intn PriorityBalancer workers j =
     Returns (Priority_SelectWorker workers j, PriorityBalancer)"

fun GetStrategy :: "'g LoadBalancer \<Rightarrow> string" where
  "GetStrategy (RoundRobinBalancer _) = ''round_robin''"
| "GetStrategy LeastLoadedBalancer = ''least_loaded''"
| "GetStrategy (RandomBalancer _) = ''random''"
| "GetStrategy PriorityBalancer = ''priority''"

text \<open>\<open>g\<close> is the generator that \<open>NewRandomBalancer\<close> seeds with the time.\<close>

definition NewRoundRobinBalancer :: "'g LoadBalancer" where
  "NewRoundRobinBalancer = RoundRobinBalancer 0"

definition NewLeastLoadedBalancer :: "'g LoadBalancer" where
  "NewLeastLoadedBalancer = LeastLoadedBalancer"

definition NewRandomBalancer :: "'g \<Rightarrow> 'g LoadBalancer" where
  "NewRandomBalancer g = RandomBalancer g"

definition NewPriorityBalancer :: "'g LoadBalancer" where
  "NewPriorityBalancer = PriorityBalancer"

definition LoadBalancer_Create :: "'g \<Rightarrow> string \<Rightarrow> 'g LoadBalancer" where
  "LoadBalancer_Create g strategy =
     (if strategy = ''round_robin'' then NewRoundRobinBalancer
      else if strategy = ''least_loaded'' then NewLeastLoadedBalancer
      else if strategy = ''random'' then NewRandomBalancer g
      else if strategy = ''priority'' then NewPriorityBalancer
      else NewRoundRobinBalancer)"

lemmas NewBalancer_defs = NewRoundRobinBalancer_def NewLeastLoadedBalancer_def NewRandomBalancer_def NewPriorityBalancer_def

text \<open>A series of selections, each on the statistics of its moment.\<close>

fun run_select ::
  "('b \<Rightarrow> WorkerStats list \<Rightarrow> job \<Rightarrow> (WorkerStats option \<times> 'b) outcome) \<Rightarrow> 'b
     \<Rightarrow> (WorkerStats list \<times> job) list \<Rightarrow> (WorkerStats option list \<times> 'b) outcome" where
  "run_select sel b [] = Returns ([], b)"
| "run_select sel b ((ws, j) # rs) =
     obind (sel b ws j) (\<lambda>(w, b'). obind (run_select sel b' rs) (\<lambda>(out, b''). Returns (w # out, b'')))"

text \<open>A selection is right: an idle worker of the list, or nil when there is none.\<close>

definition right_choice :: "WorkerStats list \<Rightarrow> WorkerStats option \<Rightarrow> bool" where
  "right_choice ws r = (case r of
       Some w \<Rightarrow> w \<in> set ws \<and> \<not> ws_IsActive w
     | None \<Rightarrow> \<forall>w\<in>set ws. ws_IsActive w)"

definition counts_ok :: "WorkerStats list \<Rightarrow> bool" where
  "counts_ok ws \<longleftrightarrow> (\<forall>w\<in>set ws. 0 \<le> ws_JobCount w)"

locale load_balancer =
  fixes sel :: "'b \<Rightarrow> WorkerStats list \<Rightarrow> job \<Rightarrow> (WorkerStats option \<times> 'b) outcome"
    and ready :: "nat \<Rightarrow> 'b \<Rightarrow> bool"
  assumes sel_right: "ready (Suc n) b \<Longrightarrow> counts_ok ws \<Longrightarrow>
    \<exists>r b'. sel b ws j = Returns (r, b') \<and> right_choice ws r \<and> ready n b'"
begin

lemma run_select_right:
  "ready (length rs) b \<Longrightarrow> \<forall>(ws, j)\<in>set rs. counts_ok ws \<Longrightarrow>
   \<exists>out b'. run_select sel b rs = Returns (out, b') \<and> list_all2 (\<lambda>(ws, j) r. right_choice ws r) rs out"
proof (induction rs arbitrary: b)
  case Nil
  then show ?case by simp
next
  case (Cons q rs)
  obtain ws j where q: "q = (ws, j)" by (cases q)
  with Cons.prems obtain r b' where s: "sel b ws j = Returns (r, b')" "right_choice ws r"
    and "ready (length rs) b'"
    using sel_right [of "length rs" b ws j] by auto
  with Cons obtain out b'' where "run_select sel b' rs = Returns (out, b'')"
    "list_all2 (\<lambda>(ws, j) r. right_choice ws r) rs out" by fastforce
  with q s show ?case by auto
qed

end

section \<open>Every balancer chooses rightly\<close>

text \<open>\<open>Intn(n)\<close> is documented to lie in \<open>[0, n)\<close>.\<close>

definition intn_ok :: "('g \<Rightarrow> nat \<Rightarrow> nat \<times> 'g) \<Rightarrow> bool" where
  "intn_ok intn \<longleftrightarrow> (\<forall>g n. 0 < n \<longrightarrow> fst (intn g n) < n)"

text \<open>The balancer can make \<open>n\<close> more selections: the round-robin counter does not wrap.\<close>

fun lb_ready :: "('g \<Rightarrow> nat \<Rightarrow> nat \<times> 'g) \<Rightarrow> nat \<Rightarrow> 'g LoadBalancer \<Rightarrow> bool" where
  "lb_ready intn n (RoundRobinBalancer c) \<longleftrightarrow> 0 \<le> c \<and> c + int n < 2 ^ 63"
| "lb_ready intn n (RandomBalancer g) \<longleftrightarrow> intn_ok intn"
| "lb_ready intn n _ \<longleftrightarrow> True"

lemma available_Nil_iff: "availableWorkers ws = [] \<longleftrightarrow> (\<forall>w\<in>set ws. ws_IsActive w)"
  by (simp add: availableWorkers_def filter_empty_conv)

lemma available_right: "w \<in> set (availableWorkers ws) \<Longrightarrow> right_choice ws (Some w)"
  by (simp add: availableWorkers_def right_choice_def)

lemma none_right: "availableWorkers ws = [] \<Longrightarrow> right_choice ws None"
  by (simp add: available_Nil_iff right_choice_def)

lemma counts_ok_available: "counts_ok ws \<Longrightarrow> \<forall>w\<in>set (availableWorkers ws). 0 \<le> ws_JobCount w"
  by (simp add: counts_ok_def availableWorkers_def)

lemma least_loaded_reference:
  "counts_ok ws \<Longrightarrow> LeastLoaded_SelectWorker ws = first_least ws_JobCount (availableWorkers ws)"
  by (auto simp: LeastLoaded_SelectWorker_def availableWorkers_def counts_ok_def first_least_def
      scan_min_reference)

lemma first_least_available_right: "right_choice ws (first_least c (availableWorkers ws))"
proof (cases "availableWorkers ws = []")
  case True
  then show ?thesis by (simp add: first_least_def none_right)
next
  case False
  then obtain w where "first_least c (availableWorkers ws) = Some w"
    using first_least_exists by blast
  then show ?thesis by (auto dest: first_leastD intro: available_right)
qed

lemma first_greatest_available_right: "right_choice ws (first_greatest c (availableWorkers ws))"
proof (cases "availableWorkers ws = []")
  case True
  then show ?thesis by (simp add: first_greatest_def none_right)
next
  case False
  then obtain w where "first_greatest c (availableWorkers ws) = Some w"
    using first_greatest_exists by blast
  then show ?thesis by (auto dest: first_greatestD intro: available_right)
qed

lemma priority_reference:
  assumes "counts_ok ws"
  shows "Priority_SelectWorker ws j =
     (if j_Priority j = PriorityNormal then List.find (\<lambda>w. \<not> ws_IsActive w) ws
      else if j_Priority j = PriorityLow then first_greatest ws_JobCount (availableWorkers ws)
      else first_least ws_JobCount (availableWorkers ws))"
proof -
  note ok = counts_ok_available [OF assms]
  have least: "selectByLeastLoad (availableWorkers ws) = first_least ws_JobCount (availableWorkers ws)"
    using ok by (simp add: selectByLeastLoad_def scan_min_reference)
  have most: "selectByMostLoad (availableWorkers ws) = first_greatest ws_JobCount (availableWorkers ws)"
    using ok by (simp add: selectByMostLoad_def scan_max_reference)
  have hd: "selectRoundRobin (availableWorkers ws) = List.find (\<lambda>w. \<not> ws_IsActive w) ws"
    by (induction ws) (auto simp: selectRoundRobin_def availableWorkers_def split: if_splits)
  show ?thesis
  proof (cases "availableWorkers ws = []")
    case True
    then have "List.find (\<lambda>w. \<not> ws_IsActive w) ws = None"
      by (simp add: find_None_filter availableWorkers_def)
    with True show ?thesis
      by (simp add: Priority_SelectWorker_def first_least_def first_greatest_def)
  next
    case False
    then have "ws \<noteq> []" by (auto simp: availableWorkers_def)
    with False show ?thesis
      by (simp add: Priority_SelectWorker_def Let_def least most hd status_simps)
  qed
qed

lemma index_worker_ok: "i < length ws \<Longrightarrow> index_worker ws (int i) = Returns (ws ! i)"
  by (simp add: index_worker_def)

lemma round_robin_step:
  assumes "availableWorkers ws \<noteq> []" and "0 \<le> c" and "c + 1 < 2 ^ 63"
  shows "RoundRobin_SelectWorker c ws =
    Returns (Some (availableWorkers ws ! (nat c mod length (availableWorkers ws))), c + 1)"
proof -
  let ?n = "length (availableWorkers ws)"
  from assms have ws: "ws \<noteq> []" by (auto simp: availableWorkers_def)
  have "go_rem c (int ?n) = int (nat c mod ?n)"
    using assms(1,2) by (simp add: go_rem_nonneg zmod_int)
  moreover have "nat c mod ?n < ?n" using assms(1) by simp
  ultimately show ?thesis
    using assms ws by (simp add: RoundRobin_SelectWorker_def Let_def index_worker_ok int64_small)
qed

lemma select_right:
  assumes "lb_ready intn (Suc n) b" and "counts_ok ws"
  shows "\<exists>r b'. SelectWorker intn b ws j = Returns (r, b') \<and> right_choice ws r \<and> lb_ready intn n b'"
proof (cases b)
  case (RoundRobinBalancer c)
  show ?thesis
  proof (cases "availableWorkers ws = []")
    case True
    with RoundRobinBalancer assms show ?thesis
      by (auto simp: RoundRobin_SelectWorker_def none_right)
  next
    case False
    have "right_choice ws (Some (availableWorkers ws ! (nat c mod length (availableWorkers ws))))"
      using False by (intro available_right nth_mem) simp
    with RoundRobinBalancer False assms show ?thesis by (simp add: round_robin_step)
  qed
next
  case LeastLoadedBalancer
  with assms show ?thesis by (simp add: least_loaded_reference first_least_available_right)
next
  case (RandomBalancer g)
  show ?thesis
  proof (cases "availableWorkers ws = []")
    case True
    with RandomBalancer assms show ?thesis by (auto simp: Random_SelectWorker_def none_right)
  next
    case False
    obtain i g' where i: "intn g (length (availableWorkers ws)) = (i, g')" by fastforce
    with False RandomBalancer assms(1) have lt: "i < length (availableWorkers ws)"
      unfolding lb_ready.simps intn_ok_def by (metis fst_conv length_greater_0_conv lb_ready.simps(2) intn_ok_def)
    from False have "ws \<noteq> []" by (auto simp: availableWorkers_def)
    with False i lt RandomBalancer assms(1) show ?thesis
      by (auto simp: Random_SelectWorker_def index_worker_ok intro: available_right)
  qed
next
  case PriorityBalancer
  have "right_choice ws (List.find (\<lambda>w. \<not> ws_IsActive w) ws)"
    by (auto simp: right_choice_def find_None_iff dest: find_SomeD split: option.split)
  with PriorityBalancer assms show ?thesis
    by (simp add: priority_reference first_least_available_right first_greatest_available_right)
qed

interpretation lb: load_balancer "SelectWorker intn" "lb_ready intn" for intn
  by unfold_locales (rule select_right)

lemma Create_ready: "intn_ok intn \<Longrightarrow> int n < 2 ^ 63 \<Longrightarrow> lb_ready intn n (LoadBalancer_Create g strategy)"
  by (simp add: LoadBalancer_Create_def NewBalancer_defs)

section \<open>Properties\<close>

text \<open>C16: whatever strategy the factory is asked for, every selection of a series returns, never
  panics, and yields an idle worker of the list it was given, or nil exactly when none is idle.\<close>

theorem selections_right:
  assumes "intn_ok intn" and "int (length rs) < 2 ^ 63" and "\<forall>(ws, j)\<in>set rs. counts_ok ws"
  shows "\<exists>out b'. run_select (SelectWorker intn) (LoadBalancer_Create g strategy) rs = Returns (out, b')
           \<and> list_all2 (\<lambda>(ws, j) r. right_choice ws r) rs out"
  using assms by (intro lb.run_select_right Create_ready)

theorem selections_right_witness:
  "\<exists>out b'. run_select (SelectWorker (\<lambda>g n. (0, g))) (LoadBalancer_Create () ''random'')
      [([\<lparr>ws_ID = ''a'', ws_NodeID = ''n'', ws_IsActive = False, ws_JobCount = 3\<rparr>], zero_job)]
     = Returns (out, b')
     \<and> list_all2 (\<lambda>(ws, j) r. right_choice ws r)
      [([\<lparr>ws_ID = ''a'', ws_NodeID = ''n'', ws_IsActive = False, ws_JobCount = 3\<rparr>], zero_job)] out"
  by (rule selections_right) (simp_all add: intn_ok_def counts_ok_def)

text \<open>The least-loaded scan with its sentinel is the first idle worker of least job count.\<close>

theorem least_loaded_is_first_least:
  assumes "counts_ok ws"
  shows "LeastLoaded_SelectWorker ws = first_least ws_JobCount (availableWorkers ws)"
  using assms by (rule least_loaded_reference)

theorem least_loaded_is_first_least_witness:
  "LeastLoaded_SelectWorker [\<lparr>ws_ID = ''a'', ws_NodeID = ''n'', ws_IsActive = False, ws_JobCount = 5\<rparr>,
      \<lparr>ws_ID = ''b'', ws_NodeID = ''n'', ws_IsActive = False, ws_JobCount = 2\<rparr>]
   = Some \<lparr>ws_ID = ''b'', ws_NodeID = ''n'', ws_IsActive = False, ws_JobCount = 2\<rparr>"
  by (subst least_loaded_is_first_least)
    (simp_all add: counts_ok_def availableWorkers_def first_least_def)

text \<open>A job of high (or of an unknown) priority goes to the first idle worker of least load,
  one of normal priority to the first idle worker, one of low priority to the first idle worker of
  greatest load.\<close>

theorem priority_selection:
  assumes "counts_ok ws"
  shows "Priority_SelectWorker ws j =
     (if j_Priority j = PriorityNormal then List.find (\<lambda>w. \<not> ws_IsActive w) ws
      else if j_Priority j = PriorityLow then first_greatest ws_JobCount (availableWorkers ws)
      else first_least ws_JobCount (availableWorkers ws))"
  using assms by (rule priority_reference)

theorem priority_selection_witness:
  "Priority_SelectWorker [\<lparr>ws_ID = ''a'', ws_NodeID = ''n'', ws_IsActive = False, ws_JobCount = 3\<rparr>,
      \<lparr>ws_ID = ''b'', ws_NodeID = ''n'', ws_IsActive = False, ws_JobCount = 5\<rparr>]
      (zero_job\<lparr>j_Priority := PriorityLow\<rparr>)
   = Some \<lparr>ws_ID = ''b'', ws_NodeID = ''n'', ws_IsActive = False, ws_JobCount = 5\<rparr>"
  by (subst priority_selection)
    (simp_all add: counts_ok_def availableWorkers_def first_greatest_def status_simps)

lemma round_robin_run:
  assumes "availableWorkers ws \<noteq> []" and "0 \<le> c" and "c + int k < 2 ^ 63"
  shows "run_select (SelectWorker intn) (RoundRobinBalancer c) (replicate k (ws, j)) =
    Returns (map (\<lambda>i. Some (availableWorkers ws ! ((nat c + i) mod length (availableWorkers ws)))) [0..<k],
             RoundRobinBalancer (c + int k))"
  using assms
proof (induction k arbitrary: c)
  case 0
  then show ?case by simp
next
  case (Suc k)
  have "nat (c + 1) + i = nat c + Suc i" for i using Suc.prems(2) by simp
  with Suc show ?case
    by (simp add: round_robin_step upt_conv_Cons map_Suc_upt [symmetric] comp_def del: upt_Suc)
qed

lemma nth_shift_rotate:
  "xs \<noteq> [] \<Longrightarrow> map (\<lambda>i. xs ! ((c + i) mod length xs)) [0..<length xs] = rotate c xs"
  by (rule nth_equalityI) (simp_all add: nth_rotate)

lemma mset_rotate_same: "mset (rotate c xs) = mset xs"
  by (metis append_take_drop_id mset_append rotate_drop_take union_commute)

text \<open>Over as many selections as there are idle workers, round robin selects each idle
  worker exactly once, from whatever count it starts at.\<close>

theorem round_robin_fair:
  assumes "availableWorkers ws \<noteq> []" and "0 \<le> c"
    and "c + int (length (availableWorkers ws)) < 2 ^ 63"
  shows "\<exists>out b'. run_select (SelectWorker intn) (RoundRobinBalancer c)
             (replicate (length (availableWorkers ws)) (ws, j)) = Returns (map Some out, b')
           \<and> mset out = mset (availableWorkers ws)"
proof -
  let ?av = "availableWorkers ws"
  have "run_select (SelectWorker intn) (RoundRobinBalancer c) (replicate (length ?av) (ws, j)) =
      Returns (map Some (map (\<lambda>i. ?av ! ((nat c + i) mod length ?av)) [0..<length ?av]),
               RoundRobinBalancer (c + int (length ?av)))"
    using round_robin_run [OF assms] by (simp add: comp_def)
  moreover have "mset (map (\<lambda>i. ?av ! ((nat c + i) mod length ?av)) [0..<length ?av]) = mset ?av"
    by (simp only: nth_shift_rotate [OF assms(1)] mset_rotate_same)
  ultimately show ?thesis by blast
qed

theorem round_robin_fair_witness:
  "\<exists>out b'. run_select (SelectWorker (\<lambda>(g::unit) n. (0, g))) (RoundRobinBalancer 4)
      (replicate (length (availableWorkers [\<lparr>ws_ID = ''a'', ws_NodeID = ''n'', ws_IsActive = False,
          ws_JobCount = 3\<rparr>])) ([\<lparr>ws_ID = ''a'', ws_NodeID = ''n'', ws_IsActive = False,
          ws_JobCount = 3\<rparr>], zero_job)) = Returns (map Some out, b')
     \<and> mset out = mset (availableWorkers [\<lparr>ws_ID = ''a'', ws_NodeID = ''n'', ws_IsActive = False,
          ws_JobCount = 3\<rparr>])"
  by (rule round_robin_fair) (simp_all add: availableWorkers_def)

end
