(* ===== verification/NodeStore.thy ===== *)
theory NodeStore
  imports Storage
begin

text \<open>
  The node half of \<open>internal/storage/mongodb.go\<close>: registration, listing, and the protocol by
  which a node claims the leadership. A claim is a sequence of separate driver calls, so the claims
  of several nodes interleave; \<open>claim_step\<close> is one call of a claim and \<open>claims_reach\<close>
  the states that any interleaving reaches. The main result is that of all claims whose clock
  readings lie within two seconds at most one succeeds, even when calls fail.
\<close>

section \<open>Registration and listing\<close>

text \<open>\<open>RegisterNode\<close> stamps the document with its own reading of the clock; the fields
  \<open>LastSeen\<close> and \<open>Term\<close> of its argument are not written.\<close>

definition register_set :: "gtime \<Rightarrow> NodeInfo \<Rightarrow> bset" where
  "register_set now node =
     [(''address'', BStr (ni_Address node)), (''is_leader'', BBool (ni_IsLeader node)),
      (''last_seen'', btime now), (''worker_count'', BInt (ni_WorkerCount node)),
      (''version'', BStr (ni_Version node))]"

definition RegisterNode :: "gtime \<Rightarrow> NodeInfo \<Rightarrow> 'd MongoStorage \<Rightarrow> goerr option \<times> 'd MongoStorage" where
  "RegisterNode now node s =
     (case mongo_do (\<lambda>c. nodes_UpdateOne c (by_id (ni_ID node)) (register_set now node) True) s of
        (Inl err, s') \<Rightarrow> (Some err, s')
      | (Inr _, s') \<Rightarrow> (None, s'))"

text \<open>The pair of what \<open>GetNodes\<close> returns: with an error of the cursor, the nodes read so far.\<close>

fun decode_all :: "'a res list \<Rightarrow> 'a list \<Rightarrow> 'a list res" where
  "decode_all [] acc = Inr acc"
| "decode_all (Inl err # rs) acc = Inl err"
| "decode_all (Inr x # rs) acc = decode_all rs (acc @ [x])"

definition recent_filter :: "gtime \<Rightarrow> bfilter" where
  "recent_filter now = [(''last_seen'', [CGte (btime (now - seconds 300))])]"

definition GetNodes ::
  "gtime \<Rightarrow> 'd MongoStorage \<Rightarrow> (NodeInfo list \<times> goerr option) \<times> 'd MongoStorage" where
  "GetNodes now s =
     (case mongo_do (\<lambda>c. nodes_Find c (recent_filter now)) s of
        (Inl err, s') \<Rightarrow> (([], Some err), s')
      | (Inr (docs, cursor_err), s') \<Rightarrow>
          (case decode_all docs [] of
             Inl err \<Rightarrow> (([], Some err), s')
           | Inr nodes \<Rightarrow> ((nodes, cursor_err), s')))"

definition ClearAllNodes :: "'d MongoStorage \<Rightarrow> goerr option \<times> 'd MongoStorage" where
  "ClearAllNodes s =
     (case mongo_do (\<lambda>c. nodes_DeleteMany c []) s of
        (Inl err, s') \<Rightarrow> (Some (Wrap ''failed to clear all nodes'' err), s')
      | (Inr _, s') \<Rightarrow> (None, s'))"

section \<open>Claiming the leadership\<close>

definition stale_filter :: "gtime \<Rightarrow> bfilter" where
  "stale_filter t = [(''is_leader'', [CEq (BBool True)]), (''last_seen'', [CLt (btime (t - seconds 10))])]"

definition active_filter :: "gtime \<Rightarrow> string \<Rightarrow> bfilter" where
  "active_filter now nodeID = [(''is_leader'', [CEq (BBool True)]),
     (''last_seen'', [CGte (btime (now - seconds 3))]), (''_id'', [CNe (BStr nodeID)])]"

definition verify_filter :: "gtime \<Rightarrow> bfilter" where
  "verify_filter now = [(''is_leader'', [CEq (BBool True)]), (''last_seen'', [CGte (btime (now - seconds 2))])]"

definition claim_set :: "gtime \<Rightarrow> int \<Rightarrow> bset" where
  "claim_set now tm = [(''address'', BStr ''localhost:8080''), (''is_leader'', BBool True),
     (''last_seen'', btime now), (''worker_count'', BInt 10), (''version'', BStr ''1.0.0''),
     (''term'', BInt tm)]"

definition unclaim_set :: bset where
  "unclaim_set = [(''is_leader'', BBool False)]"

text \<open>The loop of step 4; the number counts the attempts left.\<close>

fun claim_verify ::
  "gtime \<Rightarrow> string \<Rightarrow> bool \<Rightarrow> nat \<Rightarrow> 'd MongoStorage \<Rightarrow> bool res \<times> 'd MongoStorage" where
  "claim_verify now nodeID changed 0 s = (Inr changed, s)"
| "claim_verify now nodeID changed (Suc n) s =
     (case mongo_do (\<lambda>c. nodes_CountDocuments c (verify_filter now)) s of
        (Inl err, s1) \<Rightarrow>
          if n = 0 then (Inl (Wrap ''failed to verify leadership after retries'' err), s1)
          else claim_verify now nodeID changed n s1
      | (Inr leaderCount, s1) \<Rightarrow>
          if 1 < leaderCount then
            (case mongo_do (\<lambda>c. nodes_UpdateOne c (by_id nodeID) unclaim_set False) s1 of
               (Inl err, s2) \<Rightarrow> (Inl (Wrap ''leadership conflict and failed to step down'' err), s2)
             | (Inr _, s2) \<Rightarrow> (Inr False, s2))
          else (Inr changed, s1))"

definition write_changed :: "UpdateResult \<Rightarrow> bool" where
  "write_changed result \<longleftrightarrow> 0 < ModifiedCount result \<or> 0 < UpsertedCount result"

text \<open>\<open>t0\<close> is the clock's reading for the stale leaders, \<open>now\<close> the one of the claim.
  \<open>Inl err\<close> is false together with the error.\<close>

definition AtomicClaimLeadership ::
  "gtime \<Rightarrow> gtime \<Rightarrow> string \<Rightarrow> int \<Rightarrow> 'd MongoStorage \<Rightarrow> bool res \<times> 'd MongoStorage" where
  "AtomicClaimLeadership t0 now nodeID tm s =
     (case mongo_do (\<lambda>c. nodes_UpdateMany c (stale_filter t0) unclaim_set) s of
        (Inl err, s1) \<Rightarrow> (Inl (Wrap ''failed to clear stale leaders'' err), s1)
      | (Inr _, s1) \<Rightarrow>
          (case mongo_do (\<lambda>c. nodes_CountDocuments c (active_filter now nodeID)) s1 of
             (Inl err, s2) \<Rightarrow> (Inl (Wrap ''failed to count active leaders'' err), s2)
           | (Inr activeLeaderCount, s2) \<Rightarrow>
               if 0 < activeLeaderCount then (Inr False, s2)
               else (case mongo_do (\<lambda>c. nodes_UpdateOne c (by_id nodeID) (claim_set now tm) True) s2 of
                       (Inl err, s3) \<Rightarrow> (Inl (Wrap ''failed to register as leader'' err), s3)
                     | (Inr result, s3) \<Rightarrow> claim_verify now nodeID (write_changed result) 3 s3)))"

text \<open>
  The same claim one driver call at a time: where the claim stands, and the step from there with
  the clock reading \<open>t\<close> of that moment.
\<close>

datatype claim_pc =
    Fresh
  | Cleared
  | NoRival gtime
  | Wrote gtime bool nat
  | Conflict
  | Settled "bool res"

fun claim_step ::
  "string \<Rightarrow> int \<Rightarrow> gtime \<Rightarrow> claim_pc \<Rightarrow> 'd MongoStorage \<Rightarrow> claim_pc \<times> 'd MongoStorage" where
  "claim_step nodeID tm t Fresh s =
     (case mongo_do (\<lambda>c. nodes_UpdateMany c (stale_filter t) unclaim_set) s of
        (Inl err, s1) \<Rightarrow> (Settled (Inl (Wrap ''failed to clear stale leaders'' err)), s1)
      | (Inr _, s1) \<Rightarrow> (Cleared, s1))"
| "claim_step nodeID tm t Cleared s =
     (case mongo_do (\<lambda>c. nodes_CountDocuments c (active_filter t nodeID)) s of
        (Inl err, s1) \<Rightarrow> (Settled (Inl (Wrap ''failed to count active leaders'' err)), s1)
      | (Inr activeLeaderCount, s1) \<Rightarrow>
          (if 0 < activeLeaderCount then Settled (Inr False) else NoRival t, s1))"
| "claim_step nodeID tm t (NoRival now) s =
     (case mongo_do (\<lambda>c. nodes_UpdateOne c (by_id nodeID) (claim_set now tm) True) s of
        (Inl err, s1) \<Rightarrow> (Settled (Inl (Wrap ''failed to register as leader'' err)), s1)
      | (Inr result, s1) \<Rightarrow> (Wrote now (write_changed result) 3, s1))"
| "claim_step nodeID tm t (Wrote now changed 0) s = (Settled (Inr changed), s)"
| "claim_step nodeID tm t (Wrote now changed (Suc n)) s =
     (case mongo_do (\<lambda>c. nodes_CountDocuments c (verify_filter now)) s of
        (Inl err, s1) \<Rightarrow>
          (if n = 0 then Settled (Inl (Wrap ''failed to verify leadership after retries'' err))
           else Wrote now changed n, s1)
      | (Inr leaderCount, s1) \<Rightarrow>
          (if 1 < leaderCount then Conflict else Settled (Inr changed), s1))"
| "claim_step nodeID tm t Conflict s =
     (case mongo_do (\<lambda>c. nodes_UpdateOne c (by_id nodeID) unclaim_set False) s of
        (Inl err, s1) \<Rightarrow> (Settled (Inl (Wrap ''leadership conflict and failed to step down'' err)), s1)
      | (Inr _, s1) \<Rightarrow> (Settled (Inr False), s1))"
| "claim_step nodeID tm t (Settled r) s = (Settled r, s)"

fun claim_run :: "string \<Rightarrow> int \<Rightarrow> gtime list \<Rightarrow> claim_pc \<times> 'd MongoStorage \<Rightarrow> claim_pc \<times> 'd MongoStorage" where
  "claim_run nodeID tm [] (pc, s) = (pc, s)"
| "claim_run nodeID tm (t # ts) (pc, s) = claim_run nodeID tm ts (claim_step nodeID tm t pc s)"

text \<open>
  Any interleaving of the claims of any number of nodes, each with its term, all the clock
  readings lying in the \<open>w\<close> nanoseconds after \<open>start\<close>.
\<close>

inductive claims_reach ::
  "(string \<Rightarrow> int) \<Rightarrow> gtime \<Rightarrow> duration \<Rightarrow> 'd MongoStorage \<Rightarrow> (string \<Rightarrow> claim_pc) \<Rightarrow> 'd MongoStorage \<Rightarrow> bool"
  for tm :: "string \<Rightarrow> int" and start :: gtime and w :: duration and s0 :: "'d MongoStorage" where
  begin_claims: "claims_reach tm start w s0 (\<lambda>_. Fresh) s0"
| step_claim: "claims_reach tm start w s0 pcs s \<Longrightarrow> start \<le> t \<Longrightarrow> t \<le> start + w \<Longrightarrow>
    claim_step i (tm i) t (pcs i) s = (pc, s') \<Longrightarrow> claims_reach tm start w s0 (pcs(i := pc)) s'"

section \<open>What a driver call does to the node documents\<close>

lemma do_nodes_UpdateMany:
  assumes "mongo_do (\<lambda>c. nodes_UpdateMany c f u) s = (x, s')" and "storage_ok s"
  shows "storage_ok s' \<and> (\<forall>i. ms_nodes s' i = ms_nodes s i \<or> ms_nodes s' i = update_many f u (ms_nodes s) i)
    \<and> (\<forall>r. x = Inr r \<longrightarrow> ms_nodes s' = update_many f u (ms_nodes s)) \<and> ms_client s' = ms_client s"
proof -
  obtain d where d: "nodes_UpdateMany (ms_client s) f u (ms_db s) = (x, d)" and s': "s' = s\<lparr>ms_db := d\<rparr>"
    using assms(1) by (auto simp: mongo_do_def split: prod.splits)
  with mongo_laws(10) [of "ms_client s"] assms(2) show ?thesis
    unfolding law_nodes_UpdateMany_def storage_ok_def ms_nodes_def by (cases x) fastforce+
qed

lemma do_nodes_Count:
  assumes "mongo_do (\<lambda>c. nodes_CountDocuments c f) s = (x, s')" and "storage_ok s"
  shows "storage_ok s' \<and> ms_nodes s' = ms_nodes s \<and> ms_client s' = ms_client s
    \<and> (\<forall>k. x = Inr k \<longrightarrow> k = int (card (nodes_matching f (ms_nodes s))))"
proof -
  obtain d where d: "nodes_CountDocuments (ms_client s) f (ms_db s) = (x, d)" and s': "s' = s\<lparr>ms_db := d\<rparr>"
    using assms(1) by (auto simp: mongo_do_def split: prod.splits)
  with mongo_laws(11) [of "ms_client s"] assms(2) show ?thesis
    unfolding law_nodes_Count_def storage_ok_def ms_nodes_def by (cases x) fastforce+
qed

lemma do_nodes_UpdateOne:
  assumes "mongo_do (\<lambda>c. nodes_UpdateOne c (by_id i) u ups) s = (x, s')" and "storage_ok s"
  shows "storage_ok s' \<and> ms_client s' = ms_client s
    \<and> (\<forall>r. x = Inr r \<longrightarrow> (r, ms_nodes s') = update_one_result i u ups (ms_nodes s))
    \<and> (\<forall>k. k \<noteq> i \<longrightarrow> ms_nodes s' k = ms_nodes s k)"
proof -
  obtain d where d: "nodes_UpdateOne (ms_client s) (by_id i) u ups (ms_db s) = (x, d)"
    and s': "s' = s\<lparr>ms_db := d\<rparr>"
    using assms(1) by (auto simp: mongo_do_def split: prod.splits)
  have law: "case x of
       Inr r \<Rightarrow> (r, ms_nodes s') = update_one_result i u ups (ms_nodes s)
     | Inl e \<Rightarrow> ms_nodes s' = ms_nodes s \<or> ms_nodes s' = snd (update_one_result i u ups (ms_nodes s))"
  proof -
    have "nodes_UpdateOne (ms_client s) (by_id i) u ups (ms_db s) = (x, d) \<longrightarrow>
      jobs_view (ms_client s) d = jobs_view (ms_client s) (ms_db s) \<and> (case x of
         Inr r \<Rightarrow> (r, nodes_view (ms_client s) d) = update_one_result i u ups (nodes_view (ms_client s) (ms_db s))
       | Inl e \<Rightarrow> nodes_view (ms_client s) d = nodes_view (ms_client s) (ms_db s)
           \<or> nodes_view (ms_client s) d = snd (update_one_result i u ups (nodes_view (ms_client s) (ms_db s))))"
      using mongo_laws(9) [of "ms_client s"] assms(2)
      unfolding law_nodes_UpdateOne_def storage_ok_def by blast
    with d s' show ?thesis by (cases x) (simp_all add: ms_nodes_def)
  qed
  have frame: "snd (update_one_result i u ups v) k = v k" if "k \<noteq> i" for v k
    using that by (auto simp: update_one_result_def split: option.splits)
  have "ms_nodes s' k = ms_nodes s k" if "k \<noteq> i" for k
  proof (cases x)
    case (Inl e)
    with law frame [OF that] show ?thesis by auto
  next
    case (Inr r)
    with law have "(r, ms_nodes s') = update_one_result i u ups (ms_nodes s)" by simp
    then have "ms_nodes s' = snd (update_one_result i u ups (ms_nodes s))" by (metis snd_conv)
    with frame [OF that] show ?thesis by simp
  qed
  moreover have "(r, ms_nodes s') = update_one_result i u ups (ms_nodes s)" if "x = Inr r" for r
    using law that by simp
  ultimately show ?thesis using s' assms(2) by simp
qed

lemma finite_nodes: "storage_ok s \<Longrightarrow> finite (nodes_matching f (ms_nodes s))"
proof -
  assume "storage_ok s"
  then have "finite (dom (ms_nodes s))"
    using mongo_laws(1) [of "ms_client s"] unfolding storage_ok_def law_views_def ms_nodes_def by blast
  moreover have "nodes_matching f (ms_nodes s) \<subseteq> dom (ms_nodes s)"
    by (auto simp: nodes_matching_def)
  ultimately show ?thesis by (rule finite_subset [rotated])
qed

lemma nodes_key: "storage_ok s \<Longrightarrow> ms_nodes s i = Some n \<Longrightarrow> ni_ID n = i"
  using mongo_laws(1) [of "ms_client s"] unfolding storage_ok_def law_views_def ms_nodes_def by blast

lemmas node_calls = do_nodes_UpdateMany do_nodes_Count do_nodes_UpdateOne

section \<open>At most one claim succeeds\<close>

text \<open>A document that shows a leader seen since \<open>start\<close>, to the millisecond.\<close>

definition leads_since :: "gtime \<Rightarrow> NodeInfo \<Rightarrow> bool" where
  "leads_since start n \<longleftrightarrow> ni_IsLeader n \<and> start div 1000000 \<le> ni_LastSeen n div 1000000"

definition leading :: "gtime \<Rightarrow> 'd MongoStorage \<Rightarrow> string \<Rightarrow> bool" where
  "leading start s i \<longleftrightarrow> (\<exists>n. ms_nodes s i = Some n \<and> leads_since start n)"

lemma node_field_leader [simp]:
  "node_field n ''is_leader'' = Some (BBool (ni_IsLeader n))"
  "node_field n ''last_seen'' = Some (BTime (ni_LastSeen n div 1000000))"
  "node_field n ''_id'' = Some (BStr (ni_ID n))"
  by (simp_all add: node_field_def btime_def)

lemma not_stale:
  assumes "leads_since start n" and "t \<le> start + seconds 2"
  shows "\<not> matches (node_field n) (stale_filter t)"
proof -
  have "(t - seconds 10) div 1000000 \<le> start div 1000000" using assms(2) by (intro zdiv_mono1) auto
  with assms(1) show ?thesis by (simp add: stale_filter_def btime_def leads_since_def)
qed

lemma leader_verifies:
  assumes "leads_since start n" and "now \<le> start + seconds 2"
  shows "matches (node_field n) (verify_filter now)"
proof -
  have "(now - seconds 2) div 1000000 \<le> start div 1000000" using assms(2) by (intro zdiv_mono1) auto
  with assms(1) show ?thesis by (simp add: verify_filter_def btime_def leads_since_def)
qed

lemma claim_set_leads: "start \<le> now \<Longrightarrow> leads_since start (apply_set (claim_set now tm) n)"
  by (simp add: claim_set_def btime_def leads_since_def zdiv_mono1)

text \<open>A step of one claim leaves the leading documents of other nodes leading.\<close>

lemma claim_step_frame:
  assumes "claim_step i tm t pc s = (pc', s')" and "storage_ok s" and "t \<le> start + seconds 2"
    and "k \<noteq> i" and "leading start s k"
  shows "leading start s' k"
proof -
  obtain n where n: "ms_nodes s k = Some n" "leads_since start n"
    using assms(5) by (auto simp: leading_def)
  have "ms_nodes s' k = Some n"
  proof (cases pc)
    case Fresh
    obtain x s1 where x: "mongo_do (\<lambda>c. nodes_UpdateMany c (stale_filter t) unclaim_set) s = (x, s1)"
      by fastforce
    with Fresh assms(1) have "s' = s1" by (auto split: sum.splits)
    moreover have "update_many (stale_filter t) unclaim_set (ms_nodes s) k = Some n"
      using n(1) not_stale [OF n(2) assms(3)] by (simp add: update_many_def)
    ultimately show ?thesis using do_nodes_UpdateMany [OF x assms(2)] n(1) by metis
  next
    case Conflict
    obtain x s1 where x: "mongo_do (\<lambda>c. nodes_UpdateOne c (by_id i) unclaim_set False) s = (x, s1)"
      by fastforce
    with Conflict assms(1) have "s' = s1" by (auto split: sum.splits)
    with do_nodes_UpdateOne [OF x assms(2)] n assms(4) show ?thesis by simp
  next
    case (NoRival now)
    obtain x s1 where x: "mongo_do (\<lambda>c. nodes_UpdateOne c (by_id i) (claim_set now tm) True) s = (x, s1)"
      by fastforce
    with NoRival assms(1) have "s' = s1" by (auto split: sum.splits)
    with do_nodes_UpdateOne [OF x assms(2)] n assms(4) show ?thesis by simp
  next
    case Cleared
    obtain x s1 where x: "mongo_do (\<lambda>c. nodes_CountDocuments c (active_filter t i)) s = (x, s1)"
      by fastforce
    with Cleared assms(1) have "s' = s1" by (auto split: sum.splits)
    with do_nodes_Count [OF x assms(2)] n show ?thesis by simp
  next
    case (Wrote now c m)
    obtain x s1 where x: "mongo_do (\<lambda>c. nodes_CountDocuments c (verify_filter now)) s = (x, s1)"
      by fastforce
    with Wrote assms(1) have "s' = s1 \<or> s' = s" by (cases m) (auto split: sum.splits if_splits)
    with do_nodes_Count [OF x assms(2)] n show ?thesis by auto
  next
    case (Settled r)
    with assms(1) n show ?thesis by simp
  qed
  with n(2) show ?thesis by (simp add: leading_def)
qed

lemma claim_step_ok: "claim_step i tm t pc s = (pc', s') \<Longrightarrow> storage_ok s \<Longrightarrow> storage_ok s'"
  by (induction i tm t pc s rule: claim_step.induct)
    (auto split: sum.splits prod.splits if_splits dest: node_calls)

fun holds_claim :: "claim_pc \<Rightarrow> bool" where
  "holds_claim (Wrote _ _ _) \<longleftrightarrow> True"
| "holds_claim (Settled (Inr True)) \<longleftrightarrow> True"
| "holds_claim _ \<longleftrightarrow> False"

fun pc_ok :: "gtime \<Rightarrow> claim_pc \<Rightarrow> bool" where
  "pc_ok start (NoRival now) \<longleftrightarrow> start \<le> now \<and> now \<le> start + seconds 2"
| "pc_ok start (Wrote now c n) \<longleftrightarrow> start \<le> now \<and> now \<le> start + seconds 2 \<and> 0 < n"
| "pc_ok start _ \<longleftrightarrow> True"

lemma holds_Settled [simp]: "holds_claim (Settled r) \<longleftrightarrow> r = Inr True"
proof (cases r)
  case (Inr b)
  then show ?thesis by (cases b) simp_all
qed simp

lemma update_one_there:
  "(r, v') = update_one_result i u True v \<Longrightarrow> \<exists>n. v' i = Some (apply_set u n)"
  by (auto simp: update_one_result_def split: option.splits)

lemma claim_step_own:
  assumes "claim_step i tm t pc s = (pc', s')" and "storage_ok s"
    and "start \<le> t" and "t \<le> start + seconds 2" and "pc_ok start pc"
    and "holds_claim pc \<longrightarrow> leading start s i"
  shows "pc_ok start pc' \<and> (holds_claim pc' \<longrightarrow> leading start s' i)"
proof (cases pc)
  case Fresh
  with assms(1) show ?thesis by (auto split: sum.splits prod.splits)
next
  case Cleared
  with assms(1,3,4) show ?thesis by (auto split: sum.splits prod.splits if_splits)
next
  case (NoRival now)
  obtain x s1 where x: "mongo_do (\<lambda>c. nodes_UpdateOne c (by_id i) (claim_set now tm) True) s = (x, s1)"
    by fastforce
  show ?thesis
  proof (cases x)
    case (Inl e)
    with NoRival x assms(1) show ?thesis by auto
  next
    case (Inr r)
    with NoRival x assms(1) have pc': "pc' = Wrote now (write_changed r) 3" "s' = s1" by auto
    from do_nodes_UpdateOne [OF x assms(2)] Inr
    have "(r, ms_nodes s1) = update_one_result i (claim_set now tm) True (ms_nodes s)" by simp
    from update_one_there [OF this] have "leading start s1 i"
      using NoRival assms(5) by (auto simp: leading_def claim_set_leads)
    with pc' NoRival assms(5) show ?thesis by simp
  qed
next
  case (Wrote now c n)
  then obtain m where m: "n = Suc m" using assms(5) by (cases n) auto
  obtain x s1 where x: "mongo_do (\<lambda>c. nodes_CountDocuments c (verify_filter now)) s = (x, s1)"
    by fastforce
  from do_nodes_Count [OF x assms(2)] have same: "leading start s1 i = leading start s i"
    by (simp add: leading_def)
  show ?thesis
    using assms(1,5,6) x same by (cases x) (auto simp: Wrote m split: if_splits)
next
  case Conflict
  with assms(1) show ?thesis by (auto split: sum.splits prod.splits)
next
  case (Settled r)
  with assms(1,6) show ?thesis by auto
qed

lemma claim_step_wins:
  assumes "claim_step i tm t pc s = (Settled (Inr True), s')" and "pc \<noteq> Settled (Inr True)"
    and "storage_ok s" and "pc_ok start pc" and "holds_claim pc \<longrightarrow> leading start s i"
    and "k \<noteq> i" and "leading start s k"
  shows False
proof -
  obtain now n where pc: "pc = Wrote now True (Suc n)"
  proof (cases pc)
    case (Wrote now c n)
    with assms(1,4) that show ?thesis by (cases n) (auto split: sum.splits prod.splits if_splits)
  qed (use assms(1,2) in \<open>auto split: sum.splits prod.splits if_splits\<close>)
  obtain x s1 where x: "mongo_do (\<lambda>c. nodes_CountDocuments c (verify_filter now)) s = (x, s1)"
    by fastforce
  with pc assms(1) obtain m where "x = Inr m" "m \<le> 1" by (cases x) (auto split: if_splits)
  with do_nodes_Count [OF x assms(3)] have "card (nodes_matching (verify_filter now) (ms_nodes s)) \<le> 1"
    by simp
  moreover have "j \<in> nodes_matching (verify_filter now) (ms_nodes s)" if "leading start s j" for j
    using that leader_verifies [of start _ now] pc assms(4) by (auto simp: leading_def nodes_matching_def)
  ultimately show False
    using card_le_1_eq [OF finite_nodes [OF assms(3)]] assms(5,6,7) pc by auto
qed

definition claims_inv :: "gtime \<Rightarrow> (string \<Rightarrow> claim_pc) \<Rightarrow> 'd MongoStorage \<Rightarrow> bool" where
  "claims_inv start pcs s \<longleftrightarrow> storage_ok s
     \<and> (\<forall>i. pc_ok start (pcs i) \<and> (holds_claim (pcs i) \<longrightarrow> leading start s i))
     \<and> (\<forall>i j. pcs i = Settled (Inr True) \<longrightarrow> pcs j = Settled (Inr True) \<longrightarrow> i = j)"

lemma claims_inv_step:
  assumes inv: "claims_inv start pcs s" and step: "claim_step i tm t (pcs i) s = (pc, s')"
    and t: "start \<le> t" "t \<le> start + seconds 2"
  shows "claims_inv start (pcs(i := pc)) s'"
proof -
  have ok: "storage_ok s" and at: "\<And>k. pc_ok start (pcs k) \<and> (holds_claim (pcs k) \<longrightarrow> leading start s k)"
    and one: "\<And>k l. pcs k = Settled (Inr True) \<Longrightarrow> pcs l = Settled (Inr True) \<Longrightarrow> k = l"
    using inv by (auto simp: claims_inv_def)
  have own: "pc_ok start pc \<and> (holds_claim pc \<longrightarrow> leading start s' i)"
    using claim_step_own [OF step ok t] at [of i] by blast
  have "pc_ok start ((pcs(i := pc)) k) \<and> (holds_claim ((pcs(i := pc)) k) \<longrightarrow> leading start s' k)" for k
    using own at [of k] claim_step_frame [OF step ok t(2), of k] by auto
  moreover have "k = l" if k: "(pcs(i := pc)) k = Settled (Inr True)" and l: "(pcs(i := pc)) l = Settled (Inr True)"
    for k l
  proof (cases "pc = Settled (Inr True) \<and> pcs i \<noteq> Settled (Inr True)")
    case True
    have "m = i" if "(pcs(i := pc)) m = Settled (Inr True)" for m
    proof (rule ccontr)
      assume "m \<noteq> i"
      with that at [of m] have "leading start s m" by auto
      with \<open>m \<noteq> i\<close> True step at [of i] ok show False
        by (auto intro: claim_step_wins [of i tm t "pcs i" s s' start m])
    qed
    with k l show ?thesis by blast
  next
    case False
    then have "pcs k = Settled (Inr True)" and "pcs l = Settled (Inr True)"
      using k l by (auto split: if_splits)
    then show ?thesis by (rule one)
  qed
  ultimately show ?thesis using claim_step_ok [OF step ok] unfolding claims_inv_def by blast
qed

lemma claims_reach_inv:
  "claims_reach tm start w s0 pcs s \<Longrightarrow> storage_ok s0 \<Longrightarrow> w \<le> seconds 2 \<Longrightarrow> claims_inv start pcs s"
proof (induction rule: claims_reach.induct)
  case begin_claims
  then show ?case by (simp add: claims_inv_def)
next
  case (step_claim pcs s t i pc s')
  then show ?case by (intro claims_inv_step [of start pcs s i "tm i" t pc s']) auto
qed

text \<open>C2: whatever the interleaving of the claims and whichever driver calls fail, at most one of
  the claims whose clock readings lie within two seconds of each other succeeds.\<close>

theorem one_claim_succeeds:
  assumes "storage_ok s0" and "claims_reach tm start w s0 pcs s" and "w \<le> seconds 2"
    and "pcs a = Settled (Inr True)" and "pcs b = Settled (Inr True)"
  shows "a = b"
  using claims_reach_inv [OF assms(2,1,3)] assms(4,5) by (auto simp: claims_inv_def)

section \<open>A claim without interference\<close>

lemma claim_run_undisturbed:
  "claim_run i tm [t0, now, t2, t3, t4, t5, t6] (Fresh, s) =
     (Settled (fst (AtomicClaimLeadership t0 now i tm s)), snd (AtomicClaimLeadership t0 now i tm s))"
  by (simp add: AtomicClaimLeadership_def numeral_3_eq_3 split: sum.splits prod.splits)


lemma claims_reach_run:
  "claims_reach tm start w s0 pcs s \<Longrightarrow> \<forall>t\<in>set ts. start \<le> t \<and> t \<le> start + w \<Longrightarrow>
   claim_run i (tm i) ts (pcs i, s) = (pc, s') \<Longrightarrow> claims_reach tm start w s0 (pcs(i := pc)) s'"
proof (induction ts arbitrary: pcs s)
  case Nil
  then have "pcs(i := pc) = pcs" and "s' = s" by auto
  with Nil.prems(1) show ?case by simp
next
  case (Cons t ts)
  obtain pc1 s1 where st: "claim_step i (tm i) t (pcs i) s = (pc1, s1)" by fastforce
  with Cons.prems have "claims_reach tm start w s0 (pcs(i := pc1)) s1" by (auto intro: step_claim)
  moreover have "\<forall>t\<in>set ts. start \<le> t \<and> t \<le> start + w" using Cons.prems(2) by simp
  moreover have "claim_run i (tm i) ts ((pcs(i := pc1)) i, s1) = (pc, s')" using Cons.prems(3) st by simp
  ultimately have "claims_reach tm start w s0 ((pcs(i := pc1))(i := pc)) s'" by (rule Cons.IH)
  then show ?case by (simp only: fun_upd_upd)
qed

text \<open>Another node that is seen as leader in the three seconds before \<open>now\<close>.\<close>

definition active_rivals :: "gtime \<Rightarrow> string \<Rightarrow> (string \<rightharpoonup> NodeInfo) \<Rightarrow> string set" where
  "active_rivals now i v = {k. k \<noteq> i \<and> (\<exists>n. v k = Some n \<and> ni_IsLeader n
     \<and> (now - seconds 3) div 1000000 \<le> ni_LastSeen n div 1000000)}"

lemma matching_active:
  "storage_ok s \<Longrightarrow> nodes_matching (active_filter now i) (ms_nodes s) = active_rivals now i (ms_nodes s)"
  by (auto simp: nodes_matching_def active_filter_def active_rivals_def btime_def dest: nodes_key)

lemma active_rivals_clear:
  assumes "t0 \<le> now"
  shows "active_rivals now i (update_many (stale_filter t0) unclaim_set v) = active_rivals now i v"
proof -
  have "(t0 - seconds 10) div 1000000 \<le> (now - seconds 3) div 1000000"
    using assms by (intro zdiv_mono1) auto
  then have "(\<exists>n. update_many (stale_filter t0) unclaim_set v k = Some n \<and> ni_IsLeader n
        \<and> (now - seconds 3) div 1000000 \<le> ni_LastSeen n div 1000000)
     \<longleftrightarrow> (\<exists>n. v k = Some n \<and> ni_IsLeader n
        \<and> (now - seconds 3) div 1000000 \<le> ni_LastSeen n div 1000000)" for k
    by (cases "v k") (auto simp: update_many_def stale_filter_def unclaim_set_def btime_def)
  then show ?thesis by (simp add: active_rivals_def)
qed

lemma mongo_do_Inr:
  assumes "storage_up s"
  shows "\<exists>r s'. mongo_do (\<lambda>c. nodes_UpdateMany c f u) s = (Inr r, s') \<and> storage_up s'"
    and "\<exists>n s'. mongo_do (\<lambda>c. nodes_CountDocuments c f) s = (Inr n, s') \<and> storage_up s'"
    and "\<exists>r s'. mongo_do (\<lambda>c. nodes_UpdateOne c f u b) s = (Inr r, s') \<and> storage_up s'"
proof -
  have Inr: "\<exists>r s'. mongo_do call s = (Inr r, s') \<and> storage_up s'"
    if "is_ok (fst (call (ms_client s) (ms_db s)))" for call :: "'a mongo_client \<Rightarrow> 'a \<Rightarrow> 'c res \<times> 'a"
  proof -
    obtain x d where "call (ms_client s) (ms_db s) = (x, d)" by fastforce
    with that assms show ?thesis by (auto simp: mongo_doI is_ok_iff)
  qed
  note never = mongo_never_fails(7-9) [of "ms_client s"]
  show "\<exists>r s'. mongo_do (\<lambda>c. nodes_UpdateMany c f u) s = (Inr r, s') \<and> storage_up s'"
    and "\<exists>n s'. mongo_do (\<lambda>c. nodes_CountDocuments c f) s = (Inr n, s') \<and> storage_up s'"
    and "\<exists>r s'. mongo_do (\<lambda>c. nodes_UpdateOne c f u b) s = (Inr r, s') \<and> storage_up s'"
    by (rule Inr; use assms never in \<open>simp add: storage_up_def\<close>)+
qed

definition claimed_now :: "gtime \<Rightarrow> int \<Rightarrow> NodeInfo \<Rightarrow> bool" where
  "claimed_now now tm n \<longleftrightarrow> ni_IsLeader n \<and> ni_Term n = tm \<and> ni_LastSeen n = bson_ms now"

lemma claim_set_claimed: "claimed_now now tm (apply_set (claim_set now tm) n)"
  by (simp add: claim_set_def claimed_now_def btime_def bson_ms_def)

lemma write_changed_one:
  assumes "(r, v') = update_one_result i (claim_set now tm) True v"
    and "\<forall>n. v i = Some n \<longrightarrow> ni_LastSeen n \<noteq> bson_ms now"
  shows "write_changed r"
proof (cases "v i")
  case None
  with assms(1) show ?thesis by (simp add: update_one_result_def write_changed_def)
next
  case (Some n)
  have "ni_LastSeen (apply_set (claim_set now tm) n) = bson_ms now"
    using claim_set_claimed [of now tm n] by (simp add: claimed_now_def)
  with assms(2) Some have "apply_set (claim_set now tm) n \<noteq> n" by metis
  with assms(1) Some show ?thesis by (simp add: update_one_result_def write_changed_def)
qed

lemma verified_alone:
  assumes "active_rivals now i (ms_nodes s) = {}" and "storage_ok s"
  shows "nodes_matching (verify_filter now) (ms_nodes s) \<subseteq> {i}"
proof -
  have "(now - seconds 3) div 1000000 \<le> (now - seconds 2) div 1000000" by (intro zdiv_mono1) auto
  with assms show ?thesis
    by (auto simp: active_rivals_def nodes_matching_def verify_filter_def btime_def)
qed

lemma claim_verify_alone:
  assumes "storage_up s" and "active_rivals now i (ms_nodes s) = {}"
  shows "\<exists>s'. claim_verify now i changed (Suc n) s = (Inr changed, s') \<and> ms_nodes s' = ms_nodes s \<and> storage_up s'"
proof -
  have ok: "storage_ok s" by (rule storage_up_ok [OF assms(1)])
  obtain c s1 where c: "mongo_do (\<lambda>c. nodes_CountDocuments c (verify_filter now)) s = (Inr c, s1)" "storage_up s1"
    using mongo_do_Inr(2) [OF assms(1)] by blast
  have "card (nodes_matching (verify_filter now) (ms_nodes s)) \<le> card {i}"
    by (rule card_mono) (use verified_alone [OF assms(2) ok] in auto)
  with do_nodes_Count [OF c(1) ok] have "c \<le> 1" by simp
  with c do_nodes_Count [OF c(1) ok] show ?thesis by simp
qed

lemma AtomicClaimLeadership_spec:
  assumes "storage_up s" and "t0 \<le> now" and "\<forall>n. ms_nodes s i = Some n \<longrightarrow> ni_LastSeen n \<noteq> bson_ms now"
  shows "fst (AtomicClaimLeadership t0 now i tm s) = Inr (active_rivals now i (ms_nodes s) = {})
    \<and> (active_rivals now i (ms_nodes s) = {} \<longrightarrow>
         (\<exists>n. ms_nodes (snd (AtomicClaimLeadership t0 now i tm s)) i = Some n \<and> claimed_now now tm n))
    \<and> (active_rivals now i (ms_nodes s) = {} \<longrightarrow> storage_up (snd (AtomicClaimLeadership t0 now i tm s))
         \<and> (\<forall>k. k \<noteq> i \<longrightarrow> ms_nodes (snd (AtomicClaimLeadership t0 now i tm s)) k = update_many (stale_filter t0) unclaim_set (ms_nodes s) k))"
proof -
  note up = assms(1)
  have ok: "storage_ok s" by (rule storage_up_ok [OF up])
  obtain r1 s1 where s1: "mongo_do (\<lambda>c. nodes_UpdateMany c (stale_filter t0) unclaim_set) s = (Inr r1, s1)"
    using mongo_do_Inr(1) [OF up] by blast
  from do_nodes_UpdateMany [OF s1 ok] have v1: "ms_nodes s1 = update_many (stale_filter t0) unclaim_set (ms_nodes s)"
    "storage_ok s1" "storage_up s1" using up by (auto simp: storage_up_def)
  have riv1: "active_rivals now i (ms_nodes s1) = active_rivals now i (ms_nodes s)"
    unfolding v1(1) by (rule active_rivals_clear [OF assms(2)])
  have fresh1: "\<forall>n. ms_nodes s1 i = Some n \<longrightarrow> ni_LastSeen n \<noteq> bson_ms now"
    using assms(3) unfolding v1(1) by (auto simp: update_many_def unclaim_set_def)
  obtain c s2 where s2: "mongo_do (\<lambda>c. nodes_CountDocuments c (active_filter now i)) s1 = (Inr c, s2)"
    using mongo_do_Inr(2) [OF v1(3)] by blast
  from do_nodes_Count [OF s2 v1(2)] have v2: "ms_nodes s2 = ms_nodes s1" "storage_ok s2" "storage_up s2"
    and c: "c = int (card (active_rivals now i (ms_nodes s)))"
    using v1(3) riv1 matching_active [OF v1(2)] by (auto simp: storage_up_def)
  have fin: "finite (active_rivals now i (ms_nodes s))"
    using finite_nodes [OF ok, of "active_filter now i"] matching_active [OF ok] by simp
  show ?thesis
  proof (cases "active_rivals now i (ms_nodes s) = {}")
    case False
    then have "0 < c" using c fin by (simp add: card_gt_0_iff)
    with False s1 s2 show ?thesis by (simp add: AtomicClaimLeadership_def)
  next
    case True
    then have "c = 0" using c by simp
    obtain r3 s3 where s3: "mongo_do (\<lambda>c. nodes_UpdateOne c (by_id i) (claim_set now tm) True) s2 = (Inr r3, s3)"
      using mongo_do_Inr(3) [OF v2(3)] by blast
    from do_nodes_UpdateOne [OF s3 v2(2)] have r3: "(r3, ms_nodes s3) = update_one_result i (claim_set now tm) True (ms_nodes s2)"
      and others: "\<And>k. k \<noteq> i \<Longrightarrow> ms_nodes s3 k = ms_nodes s1 k" and "storage_up s3"
      using v2 by (auto simp: storage_up_def)
    have "active_rivals now i (ms_nodes s3) = active_rivals now i (ms_nodes s1)"
      using others by (auto simp: active_rivals_def)
    with True riv1 have "active_rivals now i (ms_nodes s3) = {}" by simp
    from claim_verify_alone [OF \<open>storage_up s3\<close> this, of "write_changed r3" 2]
    obtain s4 where s4: "claim_verify now i (write_changed r3) 3 s3 = (Inr (write_changed r3), s4)"
      "ms_nodes s4 = ms_nodes s3" "storage_up s4" by (auto simp: numeral_3_eq_3 numeral_2_eq_2)
    have "write_changed r3" using write_changed_one [OF r3] fresh1 v2(1) by simp
    moreover obtain n where "ms_nodes s3 i = Some (apply_set (claim_set now tm) n)"
      using update_one_there [OF r3] by blast
    ultimately show ?thesis
      using True s1 s2 s3 s4 \<open>c = 0\<close> others v1(1) by (simp add: AtomicClaimLeadership_def claim_set_claimed)
  qed
qed

text \<open>C17: while no other process interferes and no call fails, a claim succeeds exactly when no
  other node was seen as leader in the last three seconds, and then the document shows the node as
  the leader of the term, seen now (provided that it did not already carry this very reading).\<close>

theorem claim_succeeds_without_rival:
  assumes "storage_up s" and "t0 \<le> now" and "\<forall>n. ms_nodes s i = Some n \<longrightarrow> ni_LastSeen n \<noteq> bson_ms now"
  shows "fst (AtomicClaimLeadership t0 now i tm s) = Inr (active_rivals now i (ms_nodes s) = {})
    \<and> (active_rivals now i (ms_nodes s) = {} \<longrightarrow>
         (\<exists>n. ms_nodes (snd (AtomicClaimLeadership t0 now i tm s)) i = Some n \<and> claimed_now now tm n))"
  using AtomicClaimLeadership_spec [OF assms, of tm] by blast

theorem claim_succeeds_without_rival_witness:
  "fst (AtomicClaimLeadership 0 0 ''n1'' 1 new_storage) = Inr True"
  using claim_succeeds_without_rival [OF new_storage_facts(1), of 0 0 "''n1''" 1]
  by (simp add: active_rivals_def)

theorem one_claim_succeeds_witness:
  "\<exists>pcs s. claims_reach (\<lambda>_. 1) 0 0 new_storage pcs s \<and> pcs ''n1'' = Settled (Inr True)
     \<and> (\<forall>b. pcs b = Settled (Inr True) \<longrightarrow> ''n1'' = b)"
proof -
  let ?r = "AtomicClaimLeadership 0 0 ''n1'' 1 new_storage"
  have r: "fst ?r = Inr True"
    using AtomicClaimLeadership_spec [OF new_storage_facts(1), of 0 0 "''n1''" 1]
    by (simp add: active_rivals_def)
  have "claims_reach (\<lambda>_. 1) 0 0 new_storage ((\<lambda>_. Fresh)(''n1'' := Settled (fst ?r))) (snd ?r)"
    by (rule claims_reach_run [OF begin_claims, where ts = "[0, 0, 0, 0, 0, 0, 0]"])
      (simp_all only: claim_run_undisturbed, simp)
  then have "claims_reach (\<lambda>_. 1) 0 0 new_storage ((\<lambda>_. Fresh)(''n1'' := Settled (Inr True))) (snd ?r)"
    by (simp only: r)
  with one_claim_succeeds [OF storage_up_ok [OF new_storage_facts(1)] this, of "''n1''"]
  show ?thesis by (intro exI [of _ "(\<lambda>_. Fresh)(''n1'' := Settled (Inr True))"] exI [of _ "snd ?r"]) auto
qed

section \<open>Registration and listing\<close>

text \<open>The document after a registration, from the one that was there.\<close>

definition registered :: "gtime \<Rightarrow> NodeInfo \<Rightarrow> NodeInfo option \<Rightarrow> NodeInfo" where
  "registered now node old =
     \<lparr>ni_ID = ni_ID node, ni_Address = ni_Address node, ni_IsLeader = ni_IsLeader node,
      ni_LastSeen = bson_ms now, ni_WorkerCount = ni_WorkerCount node, ni_Version = ni_Version node,
      ni_Term = (case old of None \<Rightarrow> 0 | Some n \<Rightarrow> ni_Term n)\<rparr>"

lemma RegisterNode_spec:
  assumes "storage_up s"
  shows "\<exists>s'. RegisterNode now node s = (None, s') \<and> storage_up s'
    \<and> ms_nodes s' = (ms_nodes s)(ni_ID node \<mapsto> registered now node (ms_nodes s (ni_ID node)))"
proof -
  obtain r s' where s': "mongo_do (\<lambda>c. nodes_UpdateOne c (by_id (ni_ID node)) (register_set now node) True) s = (Inr r, s')"
    and up: "storage_up s'"
    using mongo_do_Inr(3) [OF assms] by blast
  from do_nodes_UpdateOne [OF s' storage_up_ok [OF assms]]
  have "(r, ms_nodes s') = update_one_result (ni_ID node) (register_set now node) True (ms_nodes s)" by simp
  then have v: "ms_nodes s' = snd (update_one_result (ni_ID node) (register_set now node) True (ms_nodes s))"
    by (metis snd_conv)
  have set: "apply_set (register_set now node) n = n\<lparr>ni_Address := ni_Address node,
      ni_IsLeader := ni_IsLeader node, ni_LastSeen := bson_ms now,
      ni_WorkerCount := ni_WorkerCount node, ni_Version := ni_Version node\<rparr>" for n
    by (simp add: register_set_def btime_def bson_ms_def)
  have "ms_nodes s' = (ms_nodes s)(ni_ID node \<mapsto> registered now node (ms_nodes s (ni_ID node)))"
  proof (cases "ms_nodes s (ni_ID node)")
    case None
    then show ?thesis by (simp add: v update_one_result_def set blank_node_def registered_def)
  next
    case (Some n)
    have "ni_ID n = ni_ID node" by (rule nodes_key [OF storage_up_ok [OF assms] Some])
    with Some show ?thesis by (cases n) (simp add: v update_one_result_def set registered_def)
  qed
  with s' up show ?thesis by (simp add: RegisterNode_def)
qed

text \<open>A registration shows the node as alive now with the given data, creates the document when
  there is none, keeps the term that is stored (it is never written here), and leaves the
  documents of other nodes alone.\<close>

theorem registration_keeps_the_term:
  assumes "storage_up s"
  shows "\<exists>s'. RegisterNode now node s = (None, s')
    \<and> ms_nodes s' = (ms_nodes s)(ni_ID node \<mapsto>
        \<lparr>ni_ID = ni_ID node, ni_Address = ni_Address node, ni_IsLeader = ni_IsLeader node,
         ni_LastSeen = bson_ms now, ni_WorkerCount = ni_WorkerCount node, ni_Version = ni_Version node,
         ni_Term = (case ms_nodes s (ni_ID node) of None \<Rightarrow> 0 | Some n \<Rightarrow> ni_Term n)\<rparr>)"
  using RegisterNode_spec [OF assms, of now node] unfolding registered_def by blast

theorem registration_keeps_the_term_witness:
  "\<exists>s'. RegisterNode 0 (blank_node ''n1'') new_storage = (None, s')
    \<and> (\<exists>n. ms_nodes s' ''n1'' = Some n \<and> ni_Term n = 0)"
  using registration_keeps_the_term [OF new_storage_facts(1), of 0 "blank_node ''n1''"]
  by (auto simp: blank_node_def)

lemma decode_all_Inr: "decode_all (map Inr xs) acc = Inr (acc @ xs)"
  by (induction xs arbitrary: acc) simp_all

lemma GetNodes_spec:
  assumes "storage_up s"
  shows "\<exists>ns s'. GetNodes now s = ((ns, None), s') \<and> distinct (map ni_ID ns) \<and> ms_nodes s' = ms_nodes s
    \<and> storage_up s' \<and> (\<forall>n. n \<in> set ns \<longleftrightarrow> ms_nodes s (ni_ID n) = Some n
          \<and> (now - seconds 300) div 1000000 \<le> ni_LastSeen n div 1000000)"
proof -
  let ?c = "ms_client s"
  have c: "mongo_contract ?c" "mongo_reliable ?c" using assms by (simp_all add: storage_up_def)
  obtain ns d where d: "nodes_Find ?c (recent_filter now) (ms_db s) = (Inr (map Inr ns, None), d)"
    using mongo_never_fails(10) [OF c(2)] unfolding all_decoded_def by (metis prod.collapse)
  with mongo_laws(12) [OF c(1)] have v: "nodes_view ?c d = ms_nodes s" and ns: "distinct (map ni_ID ns)"
    "set ns = {n \<in> ran (ms_nodes s). matches (node_field n) (recent_filter now)}"
    unfolding law_nodes_Find_def ms_nodes_def by blast+
  have "n \<in> ran (ms_nodes s) \<longleftrightarrow> ms_nodes s (ni_ID n) = Some n" for n
    using nodes_key [OF storage_up_ok [OF assms]] by (auto simp: ran_def)
  with ns(2) have "n \<in> set ns \<longleftrightarrow> ms_nodes s (ni_ID n) = Some n
      \<and> (now - seconds 300) div 1000000 \<le> ni_LastSeen n div 1000000" for n
    by (simp add: recent_filter_def btime_def)
  moreover have "GetNodes now s = ((ns, None), s\<lparr>ms_db := d\<rparr>)"
    using d by (simp add: GetNodes_def mongo_doI decode_all_Inr)
  ultimately show ?thesis using ns(1) v assms by simp
qed

text \<open>The nodes listed are those seen in the last five minutes, each once.\<close>

theorem nodes_seen_in_five_minutes:
  assumes "storage_up s"
  shows "\<exists>ns s'. GetNodes now s = ((ns, None), s') \<and> distinct (map ni_ID ns) \<and> ms_nodes s' = ms_nodes s
    \<and> (\<forall>n. n \<in> set ns \<longleftrightarrow> ms_nodes s (ni_ID n) = Some n
          \<and> (now - seconds 300) div 1000000 \<le> ni_LastSeen n div 1000000)"
  using GetNodes_spec [OF assms, of now] by blast

theorem nodes_seen_in_five_minutes_witness:
  "\<exists>s'. GetNodes 0 new_storage = (([], None), s')"
  using nodes_seen_in_five_minutes [OF new_storage_facts(1), of 0]
  by (auto simp: neq_Nil_conv)

end
