(* ===== verification/Bully.thy ===== *)
theory Bully
  imports NodeStore
begin

text \<open>
  The bully election of \<open>internal/election/bully.go\<close>: priorities hashed from node names, the
  cache of known nodes, and the check that makes a node leader or makes it step down, on the
  shared storage of nodes. The range loops over the map of nodes take the order of its keys as
  an argument, since Go leaves it open; the readings of the clock within one operation are one
  argument \<open>now\<close>. The lemmas describe when a node leads after a check.
\<close>

section \<open>State\<close>

record Node =
  nd_ID :: string
  nd_Address :: string
  nd_Priority :: int
  nd_LastSeen :: gtime

record BullyElection =
  be_nodeID :: string
  be_nodeAddr :: string
  be_nodes :: "string \<rightharpoonup> Node"
  be_isLeader :: bool
  be_timeout :: duration
  be_interval :: duration

text \<open>\<open>nodeID[len("node-"):]\<close> panics for a name of fewer than five bytes.\<close>

definition generateNodeAddress :: "string \<Rightarrow> string outcome" where
  "generateNodeAddress nodeID = (case slice_from nodeID (length ''node-'') of
       None \<Rightarrow> Panics
     | Some rest \<Rightarrow> Returns (''job-processor-'' @ rest @ '':8080''))"

definition NewBullyElection :: "string \<Rightarrow> duration \<Rightarrow> duration \<Rightarrow> BullyElection outcome" where
  "NewBullyElection nodeID timeout interval = obind (generateNodeAddress nodeID) (\<lambda>nodeAddr.
     Returns \<lparr>be_nodeID = nodeID, be_nodeAddr = nodeAddr, be_nodes = Map.empty,
              be_isLeader = False, be_timeout = timeout, be_interval = interval\<rparr>)"

section \<open>Priorities\<close>

definition hash_step :: "int \<Rightarrow> int \<Rightarrow> int" where
  "hash_step hash char = int64 (int64 (hash * 31) + char)"

definition calculatePriority :: "string \<Rightarrow> int" where
  "calculatePriority nodeID =
     (let hash = foldl hash_step 0 (runes nodeID) in if hash < 0 then int64 (- hash) else hash)"

text \<open>\<open>time.Since(node.LastSeen) < b.timeout\<close>\<close>

definition seen_within :: "gtime \<Rightarrow> duration \<Rightarrow> gtime \<Rightarrow> bool" where
  "seen_within now timeout lastSeen \<longleftrightarrow> time_Sub now lastSeen < timeout"

definition higher :: "gtime \<Rightarrow> BullyElection \<Rightarrow> int \<Rightarrow> string \<Rightarrow> int" where
  "higher now b highest k = (case be_nodes b k of
       None \<Rightarrow> highest
     | Some node \<Rightarrow>
         if highest < nd_Priority node \<and> seen_within now (be_timeout b) (nd_LastSeen node)
         then nd_Priority node else highest)"

definition getHighestPriority :: "gtime \<Rightarrow> string list \<Rightarrow> BullyElection \<Rightarrow> int" where
  "getHighestPriority now ks b = foldl (higher now b) (calculatePriority (be_nodeID b)) ks"

section \<open>Reading the storage\<close>

definition cached_node :: "NodeInfo \<Rightarrow> Node" where
  "cached_node nodeInfo = \<lparr>nd_ID = ni_ID nodeInfo, nd_Address = ni_Address nodeInfo,
     nd_Priority = calculatePriority (ni_ID nodeInfo), nd_LastSeen = ni_LastSeen nodeInfo\<rparr>"

definition updateNodes :: "gtime \<Rightarrow> BullyElection \<Rightarrow> 'd MongoStorage \<Rightarrow> BullyElection \<times> 'd MongoStorage" where
  "updateNodes now b s = (case GetNodes now s of
       ((nodes, Some err), s') \<Rightarrow> (b, s')
     | ((nodes, None), s') \<Rightarrow>
         (b\<lparr>be_nodes := foldl (\<lambda>m n. m(ni_ID n \<mapsto> cached_node n)) Map.empty nodes\<rparr>, s'))"

definition live_leader :: "gtime \<Rightarrow> duration \<Rightarrow> NodeInfo \<Rightarrow> bool" where
  "live_leader now timeout n \<longleftrightarrow> ni_IsLeader n \<and> seen_within now timeout (ni_LastSeen n)"

definition getCurrentLeader :: "gtime \<Rightarrow> BullyElection \<Rightarrow> 'd MongoStorage \<Rightarrow> string \<times> 'd MongoStorage" where
  "getCurrentLeader now b s = (case GetNodes now s of
       ((nodes, Some err), s') \<Rightarrow> ('''', s')
     | ((nodes, None), s') \<Rightarrow>
         (case List.find (live_leader now (be_timeout b)) nodes of
            Some n \<Rightarrow> ni_ID n | None \<Rightarrow> '''', s'))"

fun getCurrentLeaderUnsafe ::
  "gtime \<Rightarrow> BullyElection \<Rightarrow> string list \<Rightarrow> 'd MongoStorage \<Rightarrow> string \<times> 'd MongoStorage" where
  "getCurrentLeaderUnsafe now b [] s = ('''', s)"
| "getCurrentLeaderUnsafe now b (k # ks) s = (case be_nodes b k of
       None \<Rightarrow> getCurrentLeaderUnsafe now b ks s
     | Some node \<Rightarrow>
         if seen_within now (be_timeout b) (nd_LastSeen node) then
           (case GetNodes now s of
              ((nodes, Some err), s') \<Rightarrow> getCurrentLeaderUnsafe now b ks s'
            | ((nodes, None), s') \<Rightarrow>
                (case List.find (\<lambda>n. ni_ID n = nd_ID node \<and> live_leader now (be_timeout b) n) nodes of
                   Some n \<Rightarrow> (ni_ID n, s')
                 | None \<Rightarrow> getCurrentLeaderUnsafe now b ks s'))
         else getCurrentLeaderUnsafe now b ks s)"

definition Bully_GetLeader :: "gtime \<Rightarrow> BullyElection \<Rightarrow> 'd MongoStorage \<Rightarrow> string \<times> 'd MongoStorage" where
  "Bully_GetLeader now b s = (if be_isLeader b then (be_nodeID b, s) else getCurrentLeader now b s)"

section \<open>Writing the storage\<close>

definition own_info :: "BullyElection \<Rightarrow> bool \<Rightarrow> NodeInfo" where
  "own_info b leader = \<lparr>ni_ID = be_nodeID b, ni_Address = be_nodeAddr b, ni_IsLeader = leader,
     ni_LastSeen = zero_time, ni_WorkerCount = 10, ni_Version = ''1.0.0'', ni_Term = 0\<rparr>"

fun clear_loop :: "gtime \<Rightarrow> BullyElection \<Rightarrow> NodeInfo list \<Rightarrow> 'd MongoStorage \<Rightarrow> 'd MongoStorage" where
  "clear_loop now b [] s = s"
| "clear_loop now b (n # ns) s =
     (if ni_IsLeader n \<and> ni_ID n \<noteq> be_nodeID b
         \<and> calculatePriority (ni_ID n) < calculatePriority (be_nodeID b)
      then clear_loop now b ns (snd (RegisterNode now
             (n\<lparr>ni_IsLeader := False, ni_LastSeen := zero_time, ni_Term := 0\<rparr>) s))
      else clear_loop now b ns s)"

definition clearExistingLeaders :: "gtime \<Rightarrow> BullyElection \<Rightarrow> 'd MongoStorage \<Rightarrow> 'd MongoStorage" where
  "clearExistingLeaders now b s = (case GetNodes now s of
       ((nodes, Some err), s') \<Rightarrow> s'
     | ((nodes, None), s') \<Rightarrow> clear_loop now b nodes s')"

definition becomeLeader :: "gtime \<Rightarrow> BullyElection \<Rightarrow> 'd MongoStorage \<Rightarrow> BullyElection \<times> 'd MongoStorage" where
  "becomeLeader now b s =
     (case RegisterNode now (own_info b True) (clearExistingLeaders now b s) of
        (Some err, s') \<Rightarrow> (b\<lparr>be_isLeader := False\<rparr>, s')
      | (None, s') \<Rightarrow> (b\<lparr>be_isLeader := True\<rparr>, s'))"

definition stepDown :: "gtime \<Rightarrow> BullyElection \<Rightarrow> 'd MongoStorage \<Rightarrow> BullyElection \<times> 'd MongoStorage" where
  "stepDown now b s = (b\<lparr>be_isLeader := False\<rparr>, snd (RegisterNode now (own_info b False) s))"

definition sendHeartbeat :: "gtime \<Rightarrow> BullyElection \<Rightarrow> 'd MongoStorage \<Rightarrow> 'd MongoStorage" where
  "sendHeartbeat now b s = snd (RegisterNode now (own_info b (be_isLeader b)) s)"

section \<open>The check\<close>

text \<open>What every callback is called with.\<close>

definition notifyCallbacks :: "gtime \<Rightarrow> string list \<Rightarrow> BullyElection \<Rightarrow> bool \<times> string" where
  "notifyCallbacks now ks b =
     (let found = List.find (\<lambda>k. case be_nodes b k of
              None \<Rightarrow> False | Some node \<Rightarrow> nd_Priority node = getHighestPriority now ks b) ks;
          leaderID = (case found of None \<Rightarrow> '''' | Some k \<Rightarrow> (case be_nodes b k of
              None \<Rightarrow> '''' | Some node \<Rightarrow> nd_ID node))
      in (be_isLeader b, if leaderID = '''' \<and> be_isLeader b then be_nodeID b else leaderID))"

definition should_lead :: "gtime \<Rightarrow> string list \<Rightarrow> BullyElection \<Rightarrow> string \<Rightarrow> bool" where
  "should_lead now ks b currentLeader =
     (let my = calculatePriority (be_nodeID b); highest = getHighestPriority now ks b
      in if highest < my then True
         else if my = highest then currentLeader = '''' \<or> currentLeader = be_nodeID b
         else False)"

text \<open>The new state, the storage, and the call of the callbacks, if any. A step-down before the
  early return is not followed by a call.\<close>

definition checkLeadership ::
  "gtime \<Rightarrow> string list \<Rightarrow> BullyElection \<Rightarrow> 'd MongoStorage
     \<Rightarrow> BullyElection \<times> 'd MongoStorage \<times> (bool \<times> string) option" where
  "checkLeadership now ks b s =
     (let my = calculatePriority (be_nodeID b);
          (currentLeader, s1) = getCurrentLeaderUnsafe now b ks s;
          should = should_lead now ks b currentLeader
      in if currentLeader \<noteq> '''' \<and> currentLeader \<noteq> be_nodeID b \<and> my < calculatePriority currentLeader
         then (if be_isLeader b then let (b', s2) = stepDown now b s1 in (b', s2, None) else (b, s1, None))
         else let (b', s2) = (if should \<and> \<not> be_isLeader b then becomeLeader now b s1
                              else if \<not> should \<and> be_isLeader b then stepDown now b s1
                              else (b, s1))
              in (b', s2, if be_isLeader b \<noteq> be_isLeader b' then Some (notifyCallbacks now ks b') else None))"

definition election_round ::
  "gtime \<Rightarrow> string list \<Rightarrow> BullyElection \<Rightarrow> 'd MongoStorage
     \<Rightarrow> BullyElection \<times> 'd MongoStorage \<times> (bool \<times> string) option" where
  "election_round now ks b s = (let (b', s') = updateNodes now b s in checkLeadership now ks b' s')"

text \<open>The two goroutines that \<open>Start\<close> launches, up to the ticker of their loop: each acts once
  at once, and panics when its ticker cannot be made. \<open>Stop\<close> ends the loops and changes
  nothing else: a leader that is stopped still answers that it leads.\<close>

definition runElectionLoop ::
  "gtime \<Rightarrow> string list \<Rightarrow> BullyElection \<Rightarrow> 'd MongoStorage
     \<Rightarrow> (BullyElection \<times> 'd MongoStorage \<times> (bool \<times> string) option) outcome" where
  "runElectionLoop now ks b s =
     (let r = election_round now ks b s in obind (NewTicker (be_interval b)) (\<lambda>_. Returns r))"

definition runHeartbeat :: "gtime \<Rightarrow> BullyElection \<Rightarrow> 'd MongoStorage \<Rightarrow> 'd MongoStorage outcome" where
  "runHeartbeat now b s =
     (let s' = sendHeartbeat now b s in obind (NewTicker (go_quot (be_interval b) 2)) (\<lambda>_. Returns s'))"

definition Bully_IsLeader :: "BullyElection \<Rightarrow> bool" where
  "Bully_IsLeader b = be_isLeader b"

section \<open>The highest priority\<close>

definition live_priorities :: "gtime \<Rightarrow> BullyElection \<Rightarrow> int set" where
  "live_priorities now b = {nd_Priority n |n k. be_nodes b k = Some n \<and> seen_within now (be_timeout b) (nd_LastSeen n)}"

definition live_among :: "gtime \<Rightarrow> BullyElection \<Rightarrow> string set \<Rightarrow> int set" where
  "live_among now b K = {nd_Priority n |n k. k \<in> K \<and> be_nodes b k = Some n
     \<and> seen_within now (be_timeout b) (nd_LastSeen n)}"

lemma higher_cases:
  "higher now b h k = h \<and> (\<forall>n. be_nodes b k = Some n \<longrightarrow> seen_within now (be_timeout b) (nd_LastSeen n)
      \<longrightarrow> nd_Priority n \<le> h)
   \<or> h < higher now b h k \<and> (\<exists>n. be_nodes b k = Some n \<and> seen_within now (be_timeout b) (nd_LastSeen n)
      \<and> higher now b h k = nd_Priority n)"
  by (auto simp: higher_def split: option.splits)

lemma foldl_higher:
  "foldl (higher now b) h ks \<in> insert h (live_among now b (set ks))
   \<and> (\<forall>p\<in>insert h (live_among now b (set ks)). p \<le> foldl (higher now b) h ks)"
proof (induction ks arbitrary: h)
  case Nil
  then show ?case by (simp add: live_among_def)
next
  case (Cons k ks)
  have ins: "live_among now b (set (k # ks)) = live_among now b {k} \<union> live_among now b (set ks)"
    by (auto simp: live_among_def)
  have one: "live_among now b {k} = (case be_nodes b k of None \<Rightarrow> {} | Some n \<Rightarrow>
      if seen_within now (be_timeout b) (nd_LastSeen n) then {nd_Priority n} else {})"
    by (auto simp: live_among_def split: option.splits)
  have "higher now b h k \<in> insert h (live_among now b {k})
      \<and> (\<forall>p\<in>insert h (live_among now b {k}). p \<le> higher now b h k)"
    unfolding one by (auto simp: higher_def split: option.splits)
  with Cons.IH [of "higher now b h k"] show ?case unfolding ins by fastforce
qed

lemma live_among_all: "set ks = dom (be_nodes b) \<Longrightarrow> live_among now b (set ks) = live_priorities now b"
  by (auto simp: live_among_def live_priorities_def)

lemma getHighestPriority_spec:
  assumes "set ks = dom (be_nodes b)"
  shows "getHighestPriority now ks b \<in> insert (calculatePriority (be_nodeID b)) (live_priorities now b)"
    and "\<forall>p\<in>insert (calculatePriority (be_nodeID b)) (live_priorities now b). p \<le> getHighestPriority now ks b"
  using foldl_higher [of now b "calculatePriority (be_nodeID b)" ks]
  unfolding getHighestPriority_def live_among_all [OF assms] by blast+

text \<open>The highest priority is the greatest of the node's own and those of the cached nodes seen
  within the timeout; the order in which the map is traversed does not matter.\<close>

theorem highest_priority_is_the_greatest:
  assumes "set ks = dom (be_nodes b)"
  shows "getHighestPriority now ks b = Max (insert (calculatePriority (be_nodeID b)) (live_priorities now b))"
proof -
  have "live_priorities now b = (\<lambda>k. nd_Priority (the (be_nodes b k))) `
      {k \<in> set ks. \<exists>n. be_nodes b k = Some n \<and> seen_within now (be_timeout b) (nd_LastSeen n)}"
    unfolding live_priorities_def assms by force
  then have "finite (live_priorities now b)" by simp
  then show ?thesis
    using getHighestPriority_spec [OF assms, of now] by (intro Max_eqI [symmetric]) auto
qed

section \<open>Who leads after a check\<close>

lemma should_lead_iff:
  assumes "set ks = dom (be_nodes b)"
  shows "should_lead now ks b cur \<longleftrightarrow>
    getHighestPriority now ks b = calculatePriority (be_nodeID b) \<and> (cur = '''' \<or> cur = be_nodeID b)"
  using getHighestPriority_spec(2) [OF assms, of now] by (auto simp: should_lead_def Let_def)

lemma becomeLeader_b: "becomeLeader now b s = (b', s') \<Longrightarrow> b' = b\<lparr>be_isLeader := be_isLeader b'\<rparr>"
  by (auto simp: becomeLeader_def split: prod.splits option.splits)

text \<open>The state after a check, by cases on who is known to lead.\<close>

lemma checkLeadership_leader:
  assumes "checkLeadership now ks b s = (b', s', msg)" and "be_isLeader b'"
    and "set ks = dom (be_nodes b)"
  shows "getHighestPriority now ks b = calculatePriority (be_nodeID b)
    \<and> fst (getCurrentLeaderUnsafe now b ks s) \<in> {'''', be_nodeID b}"
proof -
  obtain cur s1 where cur: "getCurrentLeaderUnsafe now b ks s = (cur, s1)" by fastforce
  have "should_lead now ks b cur"
    using assms(1,2) cur
    by (auto simp: checkLeadership_def Let_def stepDown_def split: if_splits prod.splits)
  with should_lead_iff [OF assms(3)] cur show ?thesis by simp
qed

text \<open>A node that leads after a check has the highest priority of all nodes it knows to be
  alive, and no other live node was known as leader.\<close>

theorem leader_after_check_is_highest:
  assumes "checkLeadership now ks b s = (b', s', msg)" and "be_isLeader b'"
    and "set ks = dom (be_nodes b)"
  shows "(\<forall>k n. be_nodes b k = Some n \<longrightarrow> seen_within now (be_timeout b) (nd_LastSeen n)
        \<longrightarrow> nd_Priority n \<le> calculatePriority (be_nodeID b))
    \<and> fst (getCurrentLeaderUnsafe now b ks s) \<in> {'''', be_nodeID b}"
proof -
  note lead = checkLeadership_leader [OF assms]
  have "nd_Priority n \<in> live_priorities now b"
    if "be_nodes b k = Some n" "seen_within now (be_timeout b) (nd_LastSeen n)" for k n
    using that by (auto simp: live_priorities_def)
  then have "nd_Priority n \<le> calculatePriority (be_nodeID b)"
    if "be_nodes b k = Some n" "seen_within now (be_timeout b) (nd_LastSeen n)" for k n
    using getHighestPriority_spec(2) [OF assms(3), of now] lead that by (metis insertI2)
  with lead show ?thesis by blast
qed

definition knows_alive :: "gtime \<Rightarrow> BullyElection \<Rightarrow> string \<Rightarrow> bool" where
  "knows_alive now b i \<longleftrightarrow> (\<exists>n. be_nodes b i = Some n \<and> nd_Priority n = calculatePriority i
     \<and> seen_within now (be_timeout b) (nd_LastSeen n))"

text \<open>C10: two nodes of different priority that know each other to be alive do not both lead after
  their checks, whatever is stored and whenever the checks take place.\<close>

theorem no_two_bully_leaders:
  assumes "checkLeadership now1 ks1 b1 s1 = (b1', s1', msg1)" and "set ks1 = dom (be_nodes b1)"
    and "checkLeadership now2 ks2 b2 s2 = (b2', s2', msg2)" and "set ks2 = dom (be_nodes b2)"
    and "knows_alive now1 b1 (be_nodeID b2)" and "knows_alive now2 b2 (be_nodeID b1)"
    and "calculatePriority (be_nodeID b1) \<noteq> calculatePriority (be_nodeID b2)"
  shows "\<not> (be_isLeader b1' \<and> be_isLeader b2')"
proof
  assume lead: "be_isLeader b1' \<and> be_isLeader b2'"
  have le: "calculatePriority i \<le> calculatePriority (be_nodeID b)"
    if c: "checkLeadership now ks b s = (b', s', msg)" "be_isLeader b'" "set ks = dom (be_nodes b)"
      and k: "knows_alive now b i" for now ks b and s :: "'z MongoStorage" and b' s' msg i
  proof -
    from k have "calculatePriority i \<in> live_priorities now b"
      by (force simp: knows_alive_def live_priorities_def)
    then show ?thesis
      using getHighestPriority_spec(2) [OF c(3), of now] checkLeadership_leader [OF c] by (metis insertI2)
  qed
  from le [OF assms(1) _ assms(2,5)] le [OF assms(3) _ assms(4,6)] lead assms(7) show False by fastforce
qed

section \<open>With a storage that answers\<close>

definition to_clear :: "BullyElection \<Rightarrow> NodeInfo \<Rightarrow> bool" where
  "to_clear b n \<longleftrightarrow> ni_IsLeader n \<and> ni_ID n \<noteq> be_nodeID b
     \<and> calculatePriority (ni_ID n) < calculatePriority (be_nodeID b)"

text \<open>The document of a cleared leader: no leader any more, and seen at the moment of clearing.\<close>

definition cleared :: "gtime \<Rightarrow> NodeInfo \<Rightarrow> NodeInfo" where
  "cleared now n = n\<lparr>ni_IsLeader := False, ni_LastSeen := bson_ms now\<rparr>"

lemma clear_loop_hit:
  "to_clear b n \<Longrightarrow> clear_loop now b (n # ns) s = clear_loop now b ns (snd (RegisterNode now
     (n\<lparr>ni_IsLeader := False, ni_LastSeen := zero_time, ni_Term := 0\<rparr>) s))"
  by (simp add: to_clear_def)

lemma clear_loop_skip: "\<not> to_clear b n \<Longrightarrow> clear_loop now b (n # ns) s = clear_loop now b ns s"
  unfolding to_clear_def by (simp only: clear_loop.simps if_False)

lemma clear_loop_spec:
  "storage_up s \<Longrightarrow> distinct (map ni_ID ns) \<Longrightarrow> \<forall>n\<in>set ns. ms_nodes s (ni_ID n) = Some n \<Longrightarrow>
   storage_up (clear_loop now b ns s) \<and> (\<forall>k. ms_nodes (clear_loop now b ns s) k =
     (case ms_nodes s k of None \<Rightarrow> None
      | Some n \<Rightarrow> if n \<in> set ns \<and> to_clear b n then Some (cleared now n) else Some n))"
proof (induction ns arbitrary: s)
  case Nil
  then show ?case by (auto split: option.splits)
next
  case (Cons m ns)
  show ?case
  proof (cases "to_clear b m")
    case False
    then have "clear_loop now b (m # ns) s = clear_loop now b ns s" by (rule clear_loop_skip)
    with Cons False show ?thesis by (auto split: option.splits)
  next
    case True
    let ?reg = "m\<lparr>ni_IsLeader := False, ni_LastSeen := zero_time, ni_Term := 0\<rparr>"
    obtain s1 where s1: "RegisterNode now ?reg s = (None, s1)" "storage_up s1"
      "ms_nodes s1 = (ms_nodes s)(ni_ID m \<mapsto> registered now ?reg (ms_nodes s (ni_ID m)))"
      using RegisterNode_spec [OF Cons.prems(1), of now ?reg] by auto
    have m: "ms_nodes s (ni_ID m) = Some m" using Cons.prems(3) by simp
    have reg: "registered now ?reg (Some m) = cleared now m"
      by (cases m) (simp add: registered_def cleared_def)
    have v1: "ms_nodes s1 = (ms_nodes s)(ni_ID m \<mapsto> cleared now m)" using s1(3) m reg by simp
    have "clear_loop now b (m # ns) s = clear_loop now b ns (snd (RegisterNode now ?reg s))"
      by (rule clear_loop_hit [OF True])
    then have step: "clear_loop now b (m # ns) s = clear_loop now b ns s1" by (simp only: s1(1) snd_conv)
    have "ms_nodes s1 (ni_ID n) = Some n" if "n \<in> set ns" for n
    proof -
      have "ni_ID n \<noteq> ni_ID m" using that Cons.prems(2) by (auto simp: image_iff)
      then have "ms_nodes s1 (ni_ID n) = ms_nodes s (ni_ID n)" by (simp add: v1)
      then show ?thesis using Cons.prems(3) that by simp
    qed
    then have "\<forall>n\<in>set ns. ms_nodes s1 (ni_ID n) = Some n" by blast
    from Cons.IH [OF s1(2) _ this] Cons.prems(2)
    have IH: "storage_up (clear_loop now b ns s1)" "\<And>k. ms_nodes (clear_loop now b ns s1) k =
      (case ms_nodes s1 k of None \<Rightarrow> None
       | Some n \<Rightarrow> if n \<in> set ns \<and> to_clear b n then Some (cleared now n) else Some n)" by auto
    have nc: "\<not> to_clear b (cleared now m)" by (simp add: to_clear_def cleared_def)
    have "ms_nodes (clear_loop now b ns s1) k = (case ms_nodes s k of None \<Rightarrow> None
      | Some n \<Rightarrow> if n \<in> set (m # ns) \<and> to_clear b n then Some (cleared now n) else Some n)" for k
    proof (cases "k = ni_ID m")
      case True
      then show ?thesis using IH(2) [of k] v1 m nc \<open>to_clear b m\<close> by simp
    next
      case False
      then have "n \<noteq> m" if "ms_nodes s k = Some n" for n
        using that nodes_key [OF storage_up_ok [OF Cons.prems(1)] that] by auto
      with False show ?thesis using IH(2) [of k] v1 by (auto split: option.splits)
    qed
    with IH(1) step show ?thesis by simp
  qed
qed

lemma clearExistingLeaders_spec:
  assumes "storage_up s"
  shows "storage_up (clearExistingLeaders now b s) \<and> (\<forall>k. ms_nodes (clearExistingLeaders now b s) k =
     (case ms_nodes s k of None \<Rightarrow> None
      | Some n \<Rightarrow> if to_clear b n \<and> (now - seconds 300) div 1000000 \<le> ni_LastSeen n div 1000000
                then Some (cleared now n) else Some n))"
proof -
  obtain ns s1 where ns: "GetNodes now s = ((ns, None), s1)" "distinct (map ni_ID ns)"
    "ms_nodes s1 = ms_nodes s" "storage_up s1"
    and mem: "\<And>n. n \<in> set ns \<longleftrightarrow> ms_nodes s (ni_ID n) = Some n
          \<and> (now - seconds 300) div 1000000 \<le> ni_LastSeen n div 1000000"
    using GetNodes_spec [OF assms, of now] by blast
  have "\<forall>n\<in>set ns. ms_nodes s1 (ni_ID n) = Some n" using mem ns(3) by simp
  note loop = clear_loop_spec [OF ns(4,2) this, of now b]
  have "n \<in> set ns \<longleftrightarrow> (now - seconds 300) div 1000000 \<le> ni_LastSeen n div 1000000"
    if "ms_nodes s k = Some n" for n k
    using that mem nodes_key [OF storage_up_ok [OF assms] that] by auto
  with loop ns show ?thesis by (auto simp: clearExistingLeaders_def split: option.splits)
qed

lemma becomeLeader_spec:
  assumes "storage_up s"
  shows "\<exists>s'. becomeLeader now b s = (b\<lparr>be_isLeader := True\<rparr>, s') \<and> storage_up s'
    \<and> ms_nodes s' = (ms_nodes (clearExistingLeaders now b s))(be_nodeID b \<mapsto>
         registered now (own_info b True) (ms_nodes (clearExistingLeaders now b s) (be_nodeID b)))"
proof -
  have id: "ni_ID (own_info b True) = be_nodeID b" by (simp add: own_info_def)
  from clearExistingLeaders_spec [OF assms] have "storage_up (clearExistingLeaders now b s)" by blast
  from RegisterNode_spec [OF this, of now "own_info b True"] show ?thesis
    by (auto simp: becomeLeader_def id)
qed

lemma getCurrentLeaderUnsafe_up:
  "storage_up s \<Longrightarrow> storage_up (snd (getCurrentLeaderUnsafe now b ks s))
     \<and> ms_nodes (snd (getCurrentLeaderUnsafe now b ks s)) = ms_nodes s"
proof (induction ks arbitrary: s)
  case (Cons k ks)
  obtain ns s1 where "GetNodes now s = ((ns, None), s1)" "ms_nodes s1 = ms_nodes s" "storage_up s1"
    using GetNodes_spec [OF Cons.prems, of now] by blast
  with Cons show ?case by (auto split: option.splits)
qed simp

text \<open>C19: when the storage answers, a check leaves the node leader exactly when it has the highest
  priority it knows of and no other node is known as live leader; the callbacks are then called
  when its role changed, except after it gave way to a leader of higher priority.\<close>

theorem leads_exactly_when_due:
  assumes "storage_up s" and "set ks = dom (be_nodes b)"
    and "fst (getCurrentLeaderUnsafe now b ks s) = cur"
  shows "\<exists>b' s'. checkLeadership now ks b s = (b', s',
        if be_isLeader b' \<noteq> be_isLeader b
           \<and> \<not> (cur \<noteq> '''' \<and> cur \<noteq> be_nodeID b \<and> calculatePriority (be_nodeID b) < calculatePriority cur)
        then Some (notifyCallbacks now ks b') else None)
    \<and> be_nodes b' = be_nodes b
    \<and> (be_isLeader b' \<longleftrightarrow> getHighestPriority now ks b = calculatePriority (be_nodeID b)
          \<and> (cur = '''' \<or> cur = be_nodeID b))"
proof -
  obtain s1 where cur: "getCurrentLeaderUnsafe now b ks s = (cur, s1)"
    using assms(3) by (metis prod.collapse)
  have "storage_up s1" using getCurrentLeaderUnsafe_up [OF assms(1), of now b ks] cur by simp
  from becomeLeader_spec [OF this, of now b] obtain s2
    where s2: "becomeLeader now b s1 = (b\<lparr>be_isLeader := True\<rparr>, s2)" by blast
  show ?thesis
    using cur s2 should_lead_iff [OF assms(2), of now cur]
    by (auto simp: checkLeadership_def Let_def stepDown_def)
qed

text \<open>A new leader is registered as leader, seen now. The lower leaders seen in the last five
  minutes are leaders no more, but they too are stamped as seen now, whether they are alive
  or not; every other document is as it was.\<close>

theorem new_leader_clears_lower_leaders:
  assumes "storage_up s"
  shows "\<exists>s'. becomeLeader now b s = (b\<lparr>be_isLeader := True\<rparr>, s')
    \<and> (\<exists>n. ms_nodes s' (be_nodeID b) = Some n \<and> ni_IsLeader n \<and> ni_LastSeen n = bson_ms now)
    \<and> (\<forall>k n. k \<noteq> be_nodeID b \<longrightarrow> ms_nodes s k = Some n \<longrightarrow> ms_nodes s' k =
         (if ni_IsLeader n \<and> calculatePriority k < calculatePriority (be_nodeID b)
             \<and> (now - seconds 300) div 1000000 \<le> ni_LastSeen n div 1000000
          then Some (n\<lparr>ni_IsLeader := False, ni_LastSeen := bson_ms now\<rparr>) else Some n))"
proof -
  from becomeLeader_spec [OF assms, of now b] obtain s'
    where s': "becomeLeader now b s = (b\<lparr>be_isLeader := True\<rparr>, s')"
      "ms_nodes s' = (ms_nodes (clearExistingLeaders now b s))(be_nodeID b \<mapsto>
         registered now (own_info b True) (ms_nodes (clearExistingLeaders now b s) (be_nodeID b)))" by blast
  have "ni_ID n = k" if "ms_nodes s k = Some n" for k n
    by (rule nodes_key [OF storage_up_ok [OF assms] that])
  with s' clearExistingLeaders_spec [OF assms, of now b] show ?thesis
    by (simp add: registered_def own_info_def to_clear_def cleared_def)
qed

text \<open>A node that gives way to a leader of higher priority steps down without telling its
  callbacks, which go on taking it for the leader.\<close>

theorem step_down_without_notice:
  assumes "be_isLeader b" and "getCurrentLeaderUnsafe now b ks s = (cur, s1)"
    and "cur \<noteq> ''''" and "cur \<noteq> be_nodeID b" and "calculatePriority (be_nodeID b) < calculatePriority cur"
  shows "\<exists>s'. checkLeadership now ks b s = (b\<lparr>be_isLeader := False\<rparr>, s', None)"
  using assms by (simp add: checkLeadership_def stepDown_def Let_def)

text \<open>A node with the highest priority does not take over from a live leader of lower priority:
  as long as that one is registered and fresh, the check changes nothing.\<close>

theorem no_takeover_from_lower_leader:
  assumes "\<not> be_isLeader b" and "getCurrentLeaderUnsafe now b ks s = (cur, s1)"
    and "cur \<noteq> ''''" and "cur \<noteq> be_nodeID b" and "set ks = dom (be_nodes b)"
  shows "checkLeadership now ks b s = (b, s1, None)"
  using assms should_lead_iff [OF assms(5), of now cur]
  by (simp add: checkLeadership_def Let_def)

section \<open>Witnesses\<close>

lemma sample_priorities:
  "calculatePriority ''node-1'' = 3254795046" "calculatePriority ''node-2'' = 3254795047"
  by code_simp+

definition sample_info :: "string \<Rightarrow> bool \<Rightarrow> NodeInfo" where
  "sample_info i leader = (blank_node i)\<lparr>ni_IsLeader := leader, ni_LastSeen := 0\<rparr>"

definition sample_bully :: "string \<Rightarrow> string \<Rightarrow> bool \<Rightarrow> BullyElection" where
  "sample_bully me other leader = \<lparr>be_nodeID = me, be_nodeAddr = me,
     be_nodes = Map.empty(other \<mapsto> cached_node (sample_info other False)), be_isLeader = leader,
     be_timeout = seconds 15, be_interval = seconds 5\<rparr>"

definition sample_nodes :: "string \<Rightarrow> mem_mongo MongoStorage" where
  "sample_nodes leader = new_storage\<lparr>ms_db := mem_db_empty\<lparr>mm_nodes := [sample_info leader True]\<rparr>\<rparr>"

lemma sample_nodes_up: "storage_up (sample_nodes l)"
  by (simp add: sample_nodes_def)

lemma sample_bully_simps [simp]:
  "be_nodeID (sample_bully me other l) = me" "be_isLeader (sample_bully me other l) = l"
  "dom (be_nodes (sample_bully me other l)) = {other}" "be_timeout (sample_bully me other l) = seconds 15"
  "be_nodes (sample_bully me other l) other = Some (cached_node (sample_info other False))"
  by (simp_all add: sample_bully_def)

lemma sample_cur:
  "fst (getCurrentLeaderUnsafe 0 (sample_bully ''node-1'' ''node-2'' True) [''node-2''] (sample_nodes ''node-2'')) = ''node-2''"
  "fst (getCurrentLeaderUnsafe 0 (sample_bully ''node-2'' ''node-1'' False) [''node-1''] (sample_nodes ''node-1'')) = ''node-1''"
  by code_simp+

lemma sample_cur_ex:
  "\<exists>s1. getCurrentLeaderUnsafe 0 (sample_bully ''node-1'' ''node-2'' True) [''node-2''] (sample_nodes ''node-2'') = (''node-2'', s1)"
  "\<exists>s1. getCurrentLeaderUnsafe 0 (sample_bully ''node-2'' ''node-1'' False) [''node-1''] (sample_nodes ''node-1'') = (''node-1'', s1)"
  using sample_cur by (metis prod.collapse)+

theorem step_down_without_notice_witness:
  "\<exists>s'. checkLeadership 0 [''node-2''] (sample_bully ''node-1'' ''node-2'' True) (sample_nodes ''node-2'') =
     ((sample_bully ''node-1'' ''node-2'' True)\<lparr>be_isLeader := False\<rparr>, s', None)"
proof -
  obtain s1 where "getCurrentLeaderUnsafe 0 (sample_bully ''node-1'' ''node-2'' True) [''node-2'']
      (sample_nodes ''node-2'') = (''node-2'', s1)" using sample_cur_ex(1) by blast
  from step_down_without_notice [OF _ this] show ?thesis by (simp add: sample_priorities)
qed

theorem no_takeover_from_lower_leader_witness:
  "\<exists>s1. checkLeadership 0 [''node-1''] (sample_bully ''node-2'' ''node-1'' False) (sample_nodes ''node-1'') =
     (sample_bully ''node-2'' ''node-1'' False, s1, None)
   \<and> calculatePriority ''node-1'' < calculatePriority ''node-2''"
proof -
  obtain s1 where "getCurrentLeaderUnsafe 0 (sample_bully ''node-2'' ''node-1'' False) [''node-1'']
      (sample_nodes ''node-1'') = (''node-1'', s1)" using sample_cur_ex(2) by blast
  from no_takeover_from_lower_leader [OF _ this] show ?thesis by (auto simp: sample_priorities)
qed

theorem new_leader_clears_lower_leaders_witness:
  "\<exists>s' n. becomeLeader 0 (sample_bully ''node-2'' ''node-1'' False) (sample_nodes ''node-1'') =
     ((sample_bully ''node-2'' ''node-1'' False)\<lparr>be_isLeader := True\<rparr>, s')
   \<and> ms_nodes s' ''node-1'' = Some n \<and> \<not> ni_IsLeader n"
proof -
  have "ms_nodes (sample_nodes ''node-1'') ''node-1'' = Some (sample_info ''node-1'' True)"
    by (simp add: sample_nodes_def ms_nodes_def new_storage_def sample_info_def blank_node_def)
  with new_leader_clears_lower_leaders [OF sample_nodes_up, of 0 "sample_bully ''node-2'' ''node-1'' False" "''node-1''"]
  show ?thesis by (auto simp: sample_priorities sample_info_def)
qed

theorem highest_priority_is_the_greatest_witness:
  "getHighestPriority 0 [''node-2''] (sample_bully ''node-1'' ''node-2'' True) =
   Max (insert (calculatePriority ''node-1'') (live_priorities 0 (sample_bully ''node-1'' ''node-2'' True)))"
  using highest_priority_is_the_greatest [of "[''node-2'']" "sample_bully ''node-1'' ''node-2'' True" 0] by simp

theorem leads_exactly_when_due_witness:
  "\<exists>b' s' msg. checkLeadership 0 [''node-1''] (sample_bully ''node-2'' ''node-1'' False) new_storage = (b', s', msg)
    \<and> be_isLeader b'"
proof -
  have cur: "fst (getCurrentLeaderUnsafe 0 (sample_bully ''node-2'' ''node-1'' False) [''node-1''] new_storage) = ''''"
    by code_simp
  have hp: "getHighestPriority 0 [''node-1''] (sample_bully ''node-2'' ''node-1'' False) = calculatePriority ''node-2''"
    by code_simp
  have d: "set [''node-1''] = dom (be_nodes (sample_bully ''node-2'' ''node-1'' False))" by simp
  from leads_exactly_when_due [OF new_storage_facts(1) d cur] show ?thesis
    by (elim exE conjE) (intro exI conjI, assumption, simp add: hp)
qed

theorem leader_after_check_is_highest_witness:
  "\<exists>b' s' msg. checkLeadership 0 [''node-1''] (sample_bully ''node-2'' ''node-1'' False) new_storage = (b', s', msg)
    \<and> be_isLeader b' \<and> calculatePriority ''node-1'' \<le> calculatePriority ''node-2''"
proof -
  let ?b = "sample_bully ''node-2'' ''node-1'' False"
  obtain b' s' msg where c: "checkLeadership 0 [''node-1''] ?b new_storage = (b', s', msg)" by (metis prod_cases3)
  have "be_isLeader (fst (checkLeadership 0 [''node-1''] ?b new_storage))" by code_simp
  with c have l: "be_isLeader b'" by simp
  have "seen_within 0 (be_timeout ?b) (nd_LastSeen (cached_node (sample_info ''node-1'' False)))" by code_simp
  moreover have "nd_Priority (cached_node (sample_info ''node-1'' False)) = calculatePriority ''node-1''"
    by (simp add: cached_node_def sample_info_def blank_node_def)
  ultimately have "calculatePriority ''node-1'' \<le> calculatePriority ''node-2''"
    using leader_after_check_is_highest [OF c l] sample_bully_simps(5) [of "''node-2''" "''node-1''" False]
    by (metis list.set(1) list.set(2) sample_bully_simps(1) sample_bully_simps(3))
  with c l show ?thesis by blast
qed

theorem no_two_bully_leaders_witness:
  "\<not> (be_isLeader (fst (checkLeadership 0 [''node-2''] (sample_bully ''node-1'' ''node-2'' True) new_storage))
    \<and> be_isLeader (fst (checkLeadership 0 [''node-1''] (sample_bully ''node-2'' ''node-1'' True) new_storage)))"
proof -
  obtain b1 s1 m1 where c1: "checkLeadership 0 [''node-2''] (sample_bully ''node-1'' ''node-2'' True) new_storage = (b1, s1, m1)"
    by (metis prod_cases3)
  obtain b2 s2 m2 where c2: "checkLeadership 0 [''node-1''] (sample_bully ''node-2'' ''node-1'' True) new_storage = (b2, s2, m2)"
    by (metis prod_cases3)
  have k: "knows_alive 0 (sample_bully me other l) other" for me other l
    by (simp add: knows_alive_def cached_node_def sample_info_def blank_node_def seen_within_def)
  have "\<not> (be_isLeader b1 \<and> be_isLeader b2)"
    by (rule no_two_bully_leaders [OF c1 _ c2]) (simp_all add: k sample_priorities)
  with c1 c2 show ?thesis by simp
qed

end
