(* ===== verification/Locks.thy ===== *)
theory Locks
  imports Prelude
begin

text \<open>
  Programs that run under a \<open>sync.RWMutex\<close>: a program takes the object that holds the mutex
  and what is outside it (the storage), and returns a value and both anew, or blocks for ever, or
  panics. The mutex is the field \<open>mu\<close>, seen by one goroutine while no other holds it; that
  is enough to see a goroutine wait for itself.
\<close>

record guarded =
  mu :: rwmutex

type_synonym ('r, 'e, 'a) prog = "'r \<times> 'e \<Rightarrow> ('a \<times> 'r \<times> 'e) outcome"

definition ret :: "'a \<Rightarrow> ('r, 'e, 'a) prog" where
  "ret x st = Returns (x, st)"

definition rbind :: "('r, 'e, 'a) prog \<Rightarrow> ('a \<Rightarrow> ('r, 'e, 'b) prog) \<Rightarrow> ('r, 'e, 'b) prog" where
  "rbind m f st = obind (m st) (\<lambda>(x, st'). f x st')"

definition rthen :: "('r, 'e, 'a) prog \<Rightarrow> ('r, 'e, 'b) prog \<Rightarrow> ('r, 'e, 'b) prog" where
  "rthen m n = rbind m (\<lambda>_. n)"

definition gets :: "('r \<Rightarrow> 'a) \<Rightarrow> ('r, 'e, 'a) prog" where
  "gets f = (\<lambda>(r, e). Returns (f r, (r, e)))"

definition modify :: "('r \<Rightarrow> 'r) \<Rightarrow> ('r, 'e, unit) prog" where
  "modify f = (\<lambda>(r, e). Returns ((), (f r, e)))"

text \<open>A call to what is outside, such as a storage operation.\<close>

definition outside :: "('e \<Rightarrow> 'a \<times> 'e) \<Rightarrow> ('r, 'e, 'a) prog" where
  "outside call = (\<lambda>(r, e). let (x, e') = call e in Returns (x, (r, e')))"

definition panic :: "('r, 'e, 'a) prog" where
  "panic st = Panics"

section \<open>The mutex\<close>

text \<open>To ask for a lock one already holds is to wait for ever; to release a lock one does not hold
  is a fatal error.\<close>

definition lock :: "('r guarded_scheme, 'e, unit) prog" where
  "lock = (\<lambda>(r, e). case mu r of Free \<Rightarrow> Returns ((), (r\<lparr>mu := WHeld\<rparr>, e)) | _ \<Rightarrow> Blocks)"

definition unlock :: "('r guarded_scheme, 'e, unit) prog" where
  "unlock = (\<lambda>(r, e). case mu r of WHeld \<Rightarrow> Returns ((), (r\<lparr>mu := Free\<rparr>, e)) | _ \<Rightarrow> Panics)"

definition rlock :: "('r guarded_scheme, 'e, unit) prog" where
  "rlock = (\<lambda>(r, e). case mu r of WHeld \<Rightarrow> Blocks | _ \<Rightarrow> Returns ((), (r\<lparr>mu := RHeld\<rparr>, e)))"

definition runlock :: "('r guarded_scheme, 'e, unit) prog" where
  "runlock = (\<lambda>(r, e). case mu r of RHeld \<Rightarrow> Returns ((), (r\<lparr>mu := Free\<rparr>, e)) | _ \<Rightarrow> Panics)"

text \<open>\<open>mu.Lock(); defer mu.Unlock()\<close> around a body, and the same for reading.\<close>

definition locked :: "('r guarded_scheme, 'e, 'a) prog \<Rightarrow> ('r guarded_scheme, 'e, 'a) prog" where
  "locked body = rthen lock (rbind body (\<lambda>x. rthen unlock (ret x)))"

definition rlocked :: "('r guarded_scheme, 'e, 'a) prog \<Rightarrow> ('r guarded_scheme, 'e, 'a) prog" where
  "rlocked body = rthen rlock (rbind body (\<lambda>x. rthen runlock (ret x)))"

section \<open>Running programs\<close>

named_theorems prog_simps \<open>running the constructs of programs\<close>

lemma run_prog [prog_simps]:
  "ret x st = Returns (x, st)"
  "rbind m f st = obind (m st) (\<lambda>(x, st'). f x st')"
  "rthen m n st = obind (m st) (\<lambda>(x, st'). n st')"
  "gets g (r, e) = Returns (g r, (r, e))"
  "modify h (r, e) = Returns ((), (h r, e))"
  "outside call (r, e) = Returns (fst (call e), (r, snd (call e)))"
  "panic st = Panics"
  by (simp_all add: ret_def rbind_def rthen_def gets_def modify_def outside_def panic_def split_beta Let_def)

lemma run_mutex [prog_simps]:
  "mu r = Free \<Longrightarrow> lock (r, e) = Returns ((), (r\<lparr>mu := WHeld\<rparr>, e))"
  "mu r \<noteq> Free \<Longrightarrow> lock (r, e) = Blocks"
  "mu r = WHeld \<Longrightarrow> unlock (r, e) = Returns ((), (r\<lparr>mu := Free\<rparr>, e))"
  "mu r = WHeld \<Longrightarrow> rlock (r, e) = Blocks"
  "mu r \<noteq> WHeld \<Longrightarrow> rlock (r, e) = Returns ((), (r\<lparr>mu := RHeld\<rparr>, e))"
  "mu r = RHeld \<Longrightarrow> runlock (r, e) = Returns ((), (r\<lparr>mu := Free\<rparr>, e))"
  by (simp_all add: lock_def unlock_def rlock_def runlock_def split: rwmutex.splits)

lemma run_locked [prog_simps]:
  "locked body st = obind (lock st) (\<lambda>(_, st1). obind (body st1) (\<lambda>(x, st2). obind (unlock st2) (\<lambda>(_, st3). Returns (x, st3))))"
  "rlocked body st = obind (rlock st) (\<lambda>(_, st1). obind (body st1) (\<lambda>(x, st2). obind (runlock st2) (\<lambda>(_, st3). Returns (x, st3))))"
  by (simp_all add: locked_def rlocked_def run_prog)

text \<open>Holding the lock and asking for it again blocks, whatever comes before and after.\<close>

lemma locked_blocks: "mu r = Free \<Longrightarrow> body (r\<lparr>mu := WHeld\<rparr>, e) = Blocks \<Longrightarrow> locked body (r, e) = Blocks"
  by (simp add: prog_simps)

end
