(* ===== verification/Raft.thy ===== *)
theory Raft
  imports Locks NodeStore
begin

text \<open>
  The Raft-style election of \<open>internal/election/raft.go\<close>, every operation as a program that
  runs under the node's mutex on the shared storage of nodes. The readings of the clock within one
  operation are one argument \<open>now\<close> (a leadership claim has its own first reading \<open>t0\<close>),
  the two numbers a new election timer draws are the pair \<open>rs\<close>. Timers are their durations; the
  calls of the callbacks are recorded in a field of the state. Votes are not exchanged by the code:
  the answer to a vote request is drawn at random, and here an argument.
\<close>

section \<open>State\<close>

datatype RaftState = Follower | Candidate | Leader

record LogEntry =
  le_Term :: int
  le_Index :: int
  le_Data :: json
  le_Timestamp :: gtime

record VoteRequest =
  vq_Term :: int
  vq_CandidateID :: string
  vq_LastLogIndex :: int
  vq_LastLogTerm :: int

record VoteResponse =
  vr_Term :: int
  vr_VoteGranted :: bool

record AppendEntriesRequest =
  ae_Term :: int
  ae_LeaderID :: string
  ae_PrevLogIndex :: int
  ae_PrevLogTerm :: int
  ae_Entries :: "LogEntry list"
  ae_LeaderCommit :: int

text \<open>\<open>ra_votes\<close> are the keys of the map of votes, whose values are all true.
  \<open>ra_notified\<close> records what the callbacks were called with.\<close>

record RaftElection = guarded +
  ra_nodeID :: string
  ra_state :: RaftState
  ra_currentTerm :: int
  ra_votedFor :: string
  ra_log :: "LogEntry list"
  ra_commitIndex :: int
  ra_lastApplied :: int
  ra_nextIndex :: "string \<rightharpoonup> int"
  ra_matchIndex :: "string \<rightharpoonup> int"
  ra_electionTimeout :: duration
  ra_heartbeatTimeout :: duration
  ra_lastHeartbeat :: gtime
  ra_votes :: "string list"
  ra_electionTimer :: "duration option"
  ra_heartbeatTimer :: "duration option"
  ra_leadershipStartTime :: gtime
  ra_lastHeartbeatReceived :: gtime
  ra_notified :: "(bool \<times> string) list"

definition NewRaftElection :: "gtime \<Rightarrow> string \<Rightarrow> duration \<Rightarrow> duration \<Rightarrow> RaftElection" where
  "NewRaftElection now nodeID electionTimeout heartbeatTimeout =
     \<lparr>mu = Free, ra_nodeID = nodeID, ra_state = Follower, ra_currentTerm = 0, ra_votedFor = '''',
      ra_log = [], ra_commitIndex = 0, ra_lastApplied = 0, ra_nextIndex = Map.empty,
      ra_matchIndex = Map.empty, ra_electionTimeout = electionTimeout,
      ra_heartbeatTimeout = heartbeatTimeout, ra_lastHeartbeat = now, ra_votes = [],
      ra_electionTimer = None, ra_heartbeatTimer = None, ra_leadershipStartTime = zero_time,
      ra_lastHeartbeatReceived = now, ra_notified = []\<rparr>"

type_synonym ('d, 'a) raft = "(RaftElection, 'd MongoStorage, 'a) prog"

section \<open>Timer, registration, callbacks\<close>

text \<open>\<open>rand.Intn\<close> panics when its argument is not positive, which is the case for an election
  timeout below a millisecond.\<close>

definition resetElectionTimer :: "int \<times> int \<Rightarrow> ('d, unit) raft" where
  "resetElectionTimer rs = rbind (gets ra_electionTimeout) (\<lambda>baseTimeout.
     if baseTimeout < millis 1 then panic
     else modify (\<lambda>r. r\<lparr>ra_electionTimer := Some (int64 (baseTimeout + millis (fst rs) + millis (snd rs)))\<rparr>))"

definition updateNodeInfo :: "gtime \<Rightarrow> bool \<Rightarrow> ('d, unit) raft" where
  "updateNodeInfo now isLeader =
     rbind (rlocked (gets ra_currentTerm)) (\<lambda>currentTerm.
     rbind (gets ra_nodeID) (\<lambda>nodeID.
     rthen (outside (RegisterNode now \<lparr>ni_ID = nodeID, ni_Address = ''localhost:8080'',
              ni_IsLeader = isLeader, ni_LastSeen = zero_time, ni_WorkerCount = 10,
              ni_Version = ''1.0.0'', ni_Term = currentTerm\<rparr>))
       (ret ())))"

text \<open>The nodes of the storage, None when the storage reports an error.\<close>

definition listed_nodes :: "gtime \<Rightarrow> ('d, NodeInfo list option) raft" where
  "listed_nodes now = rbind (outside (GetNodes now))
     (\<lambda>(nodes, err). ret (if err = None then Some nodes else None))"

definition leader_among :: "NodeInfo list \<Rightarrow> string" where
  "leader_among nodes = (case List.find ni_IsLeader nodes of Some n \<Rightarrow> ni_ID n | None \<Rightarrow> '''')"

definition notifyCallbacks :: "gtime \<Rightarrow> ('d, unit) raft" where
  "notifyCallbacks now = rbind (gets (\<lambda>r. r)) (\<lambda>r.
     if ra_state r = Leader
     then modify (\<lambda>r. r\<lparr>ra_notified := ra_notified r @ [(True, ra_nodeID r)]\<rparr>)
     else rbind (listed_nodes now) (\<lambda>nodes.
       modify (\<lambda>r. r\<lparr>ra_notified := ra_notified r @ [(False, case nodes of None \<Rightarrow> '''' | Some ns \<Rightarrow> leader_among ns)]\<rparr>)))"

section \<open>Reading the storage\<close>

definition hasMajority :: "gtime \<Rightarrow> nat \<Rightarrow> ('d, bool) raft" where
  "hasMajority now voteCount = rbind (listed_nodes now) (\<lambda>nodes. case nodes of
       None \<Rightarrow> ret False
     | Some ns \<Rightarrow> ret (length ns div 2 < voteCount))"

definition hasMajorityUnsafe :: "gtime \<Rightarrow> nat \<Rightarrow> ('d, bool) raft" where
  "hasMajorityUnsafe now voteCount = rbind (listed_nodes now) (\<lambda>nodes. case nodes of
       None \<Rightarrow> ret False
     | Some ns \<Rightarrow> ret (length ns div 2 < voteCount))"

definition hasLeaderInCurrentTerm :: "gtime \<Rightarrow> ('d, bool) raft" where
  "hasLeaderInCurrentTerm now = rbind (listed_nodes now) (\<lambda>nodes. rbind (gets (\<lambda>r. r)) (\<lambda>r. case nodes of
       None \<Rightarrow> ret False
     | Some ns \<Rightarrow> ret (\<exists>n\<in>set ns. ni_ID n \<noteq> ra_nodeID r \<and> ni_IsLeader n
          \<and> time_Sub now (ni_LastSeen n) < int64 (ra_heartbeatTimeout r * 3))))"

definition heartbeat_from :: "gtime \<Rightarrow> RaftElection \<Rightarrow> int \<Rightarrow> NodeInfo \<Rightarrow> bool" where
  "heartbeat_from now r currentTerm n \<longleftrightarrow> ni_ID n \<noteq> ra_nodeID r \<and> ni_IsLeader n
     \<and> time_Sub now (ni_LastSeen n) < ra_heartbeatTimeout r \<and> currentTerm \<le> ni_Term n"

definition receiveHeartbeat :: "gtime \<Rightarrow> ('d, bool) raft" where
  "receiveHeartbeat now = rbind (listed_nodes now) (\<lambda>nodes. case nodes of
       None \<Rightarrow> ret False
     | Some ns \<Rightarrow>
         rbind (rlocked (gets ra_currentTerm)) (\<lambda>currentTerm.
         rbind (gets (\<lambda>r. List.find (heartbeat_from now r currentTerm) ns)) (\<lambda>found. case found of
             None \<Rightarrow> ret False
           | Some n \<Rightarrow>
               rthen (if currentTerm < ni_Term n
                      then locked (modify (\<lambda>r. r\<lparr>ra_currentTerm := ni_Term n, ra_votedFor := ''''\<rparr>))
                      else ret ())
                 (ret True))))"

fun term_check :: "gtime \<Rightarrow> NodeInfo list \<Rightarrow> ('d, bool) raft" where
  "term_check now [] = ret True"
| "term_check now (n # ns) = rbind (gets (\<lambda>r. r)) (\<lambda>r.
     if ra_currentTerm r < ni_Term n then
       rthen (modify (\<lambda>r. r\<lparr>ra_currentTerm := ni_Term n, ra_votedFor := ''''\<rparr>)) (ret False)
     else if ni_IsLeader n \<and> ni_Term n = ra_currentTerm r \<and> ni_ID n \<noteq> ra_nodeID r
        \<and> time_Sub now (ni_LastSeen n) < int64 (ra_heartbeatTimeout r * 2) then ret False
     else term_check now ns)"

definition validateTermConsistency :: "gtime \<Rightarrow> ('d, bool) raft" where
  "validateTermConsistency now = rbind (listed_nodes now) (\<lambda>nodes. case nodes of
       None \<Rightarrow> ret False
     | Some ns \<Rightarrow> term_check now ns)"

fun continuity_scan :: "gtime \<Rightarrow> int \<Rightarrow> string \<Rightarrow> nat \<Rightarrow> NodeInfo list \<Rightarrow> bool" where
  "continuity_scan now currentTerm nodeID activeLeaders [] = (activeLeaders \<noteq> 0)"
| "continuity_scan now currentTerm nodeID activeLeaders (n # ns) =
     (if currentTerm < ni_Term n then False
      else if ni_IsLeader n \<and> ni_Term n = currentTerm \<and> time_Sub now (ni_LastSeen n) < seconds 3 then
        if ni_ID n \<noteq> nodeID then False
        else continuity_scan now currentTerm nodeID (activeLeaders + 1) ns
      else continuity_scan now currentTerm nodeID activeLeaders ns)"

definition validateLeadershipContinuity :: "gtime \<Rightarrow> ('d, bool) raft" where
  "validateLeadershipContinuity now = rbind (rlocked (gets (\<lambda>r. r))) (\<lambda>r.
     if ra_state r \<noteq> Leader then ret False
     else if time_Sub now (ra_leadershipStartTime r) < seconds 2 then ret True
     else rbind (listed_nodes now) (\<lambda>nodes. case nodes of
         None \<Rightarrow> ret True
       | Some ns \<Rightarrow> ret (continuity_scan now (ra_currentTerm r) (ra_nodeID r) 0 ns)))"

definition tryClaimLeadership :: "gtime \<Rightarrow> gtime \<Rightarrow> ('d, bool) raft" where
  "tryClaimLeadership t0 now = rbind (gets (\<lambda>r. r)) (\<lambda>r.
     rbind (outside (AtomicClaimLeadership t0 now (ra_nodeID r) (ra_currentTerm r))) (\<lambda>claimed.
     case claimed of Inl err \<Rightarrow> ret False | Inr b \<Rightarrow> ret b))"

fun clear_stale :: "gtime \<Rightarrow> duration \<Rightarrow> NodeInfo list \<Rightarrow> 'd MongoStorage \<Rightarrow> 'd MongoStorage" where
  "clear_stale now limit [] s = s"
| "clear_stale now limit (n # ns) s =
     (if ni_IsLeader n \<and> limit < time_Sub now (ni_LastSeen n)
      then clear_stale now limit ns (snd (RegisterNode now
             (n\<lparr>ni_IsLeader := False, ni_LastSeen := zero_time, ni_Term := 0\<rparr>) s))
      else clear_stale now limit ns s)"

definition clearStaleLeaders :: "gtime \<Rightarrow> ('d, unit) raft" where
  "clearStaleLeaders now = rbind (listed_nodes now) (\<lambda>nodes. rbind (gets ra_heartbeatTimeout) (\<lambda>hb. case nodes of
       None \<Rightarrow> ret ()
     | Some ns \<Rightarrow> outside (\<lambda>s. ((), clear_stale now (int64 (hb * 3)) ns s))))"

section \<open>Transitions\<close>

definition adopt_term :: "int \<Rightarrow> RaftElection \<Rightarrow> RaftElection" where
  "adopt_term tm r = (if ra_currentTerm r < tm then r\<lparr>ra_currentTerm := tm, ra_votedFor := ''''\<rparr> else r)"

definition becomeFollower :: "gtime \<Rightarrow> int \<times> int \<Rightarrow> int \<Rightarrow> ('d, unit) raft" where
  "becomeFollower now rs tm = locked (
     rthen (modify (adopt_term tm))
     (rbind (gets ra_state) (\<lambda>oldState.
      rthen (modify (\<lambda>r. r\<lparr>ra_state := Follower, ra_lastHeartbeat := now, ra_lastHeartbeatReceived := now\<rparr>))
      (rthen (resetElectionTimer rs)
      (if oldState \<noteq> Follower then rthen (updateNodeInfo now False) (notifyCallbacks now)
       else ret ())))))"

text \<open>For a caller that holds the lock.\<close>

definition becomeFollowerUnsafe :: "gtime \<Rightarrow> int \<times> int \<Rightarrow> int \<Rightarrow> ('d, unit) raft" where
  "becomeFollowerUnsafe now rs tm =
     rthen (modify (adopt_term tm))
     (rbind (gets ra_state) (\<lambda>state.
      if state \<noteq> Follower then
        rthen (modify (\<lambda>r. r\<lparr>ra_state := Follower, ra_votes := []\<rparr>))
        (rthen (resetElectionTimer rs) (notifyCallbacks now))
      else ret ()))"

text \<open>While it sleeps the lock is free: \<open>meanwhile\<close> is what other goroutines do to the state.\<close>

definition becomeCandidate :: "(RaftElection \<Rightarrow> RaftElection) \<Rightarrow> ('d, unit) raft" where
  "becomeCandidate meanwhile = rthen lock (rthen unlock (rthen (modify meanwhile) (locked (
     rbind (gets ra_state) (\<lambda>state.
       if state \<noteq> Follower then ret () else modify (\<lambda>r. r\<lparr>ra_state := Candidate\<rparr>))))))"

definition initializeLeaderState :: "gtime \<Rightarrow> ('d, unit) raft" where
  "initializeLeaderState now =
     rthen (modify (\<lambda>r. r\<lparr>ra_nextIndex := Map.empty, ra_matchIndex := Map.empty\<rparr>))
     (rbind (listed_nodes now) (\<lambda>nodes. case nodes of
        None \<Rightarrow> ret ()
      | Some ns \<Rightarrow> modify (\<lambda>r. foldl (\<lambda>r n. if ni_ID n \<noteq> ra_nodeID r
            then r\<lparr>ra_nextIndex := (ra_nextIndex r)(ni_ID n \<mapsto> int (length (ra_log r)) + 1),
                   ra_matchIndex := (ra_matchIndex r)(ni_ID n \<mapsto> 0)\<rparr>
            else r) r ns)))"

text \<open>The end of \<open>becomeLeader\<close>: registration happens with the lock released.\<close>

definition take_leadership :: "gtime \<Rightarrow> ('d, unit) raft" where
  "take_leadership now =
     rthen (modify (\<lambda>r. r\<lparr>ra_state := Leader\<rparr>))
     (rthen (initializeLeaderState now)
     (rthen (notifyCallbacks now)
     (rthen unlock
     (rthen (updateNodeInfo now True)
     (rthen (locked (modify (\<lambda>r. r\<lparr>ra_leadershipStartTime := now\<rparr>))) lock)))))"

definition becomeLeader :: "gtime \<Rightarrow> gtime \<Rightarrow> int \<times> int \<Rightarrow> ('d, unit) raft" where
  "becomeLeader t0 now rs = locked (rbind (gets ra_state) (\<lambda>state.
     if state \<noteq> Candidate then ret ()
     else rbind (validateTermConsistency now) (\<lambda>consistent.
       if \<not> consistent then
         rbind (gets ra_currentTerm) (\<lambda>currentTerm. becomeFollowerUnsafe now rs (int64 (currentTerm + 1)))
       else rbind (gets (\<lambda>r. length (ra_votes r))) (\<lambda>voteCount.
         rbind (hasMajorityUnsafe now voteCount) (\<lambda>majority.
         if \<not> majority then rbind (gets ra_currentTerm) (\<lambda>currentTerm. becomeFollowerUnsafe now rs currentTerm)
         else rbind (tryClaimLeadership t0 now) (\<lambda>claimed.
           if \<not> claimed then rbind (gets ra_currentTerm) (\<lambda>currentTerm. becomeFollowerUnsafe now rs currentTerm)
           else take_leadership now))))))"

section \<open>Votes and heartbeats\<close>

definition getLastLogTerm :: "RaftElection \<Rightarrow> int" where
  "getLastLogTerm r = (if ra_log r = [] then 0 else le_Term (last (ra_log r)))"

text \<open>The requests that are sent, each to one node.\<close>

definition requestVotes :: "gtime \<Rightarrow> ('d, (string \<times> VoteRequest) list) raft" where
  "requestVotes now = rbind (listed_nodes now) (\<lambda>nodes. case nodes of
       None \<Rightarrow> ret []
     | Some ns \<Rightarrow> rbind (rlocked (gets (\<lambda>r. r))) (\<lambda>r.
         ret (map (\<lambda>n. (ni_ID n, \<lparr>vq_Term = ra_currentTerm r, vq_CandidateID = ra_nodeID r,
                vq_LastLogIndex = int (length (ra_log r)), vq_LastLogTerm = getLastLogTerm r\<rparr>))
           (filter (\<lambda>n. ni_ID n \<noteq> ra_nodeID r) ns))))"

text \<open>The higher-term test comes after the test for an equal term, as in the code.\<close>

definition handleVoteResponse :: "int \<times> int \<Rightarrow> string \<Rightarrow> VoteResponse \<Rightarrow> ('d, unit) raft" where
  "handleVoteResponse rs nodeID response = locked (rbind (gets (\<lambda>r. r)) (\<lambda>r.
     if ra_state r \<noteq> Candidate \<or> vr_Term response \<noteq> ra_currentTerm r then ret ()
     else if ra_currentTerm r < vr_Term response then
       rthen (modify (\<lambda>r. r\<lparr>ra_currentTerm := vr_Term response, ra_votedFor := '''', ra_state := Follower\<rparr>))
         (resetElectionTimer rs)
     else if vr_VoteGranted response then
       modify (\<lambda>r. r\<lparr>ra_votes := List.insert nodeID (ra_votes r)\<rparr>)
     else ret ()))"

text \<open>\<open>sendVoteRequest\<close> answers itself: \<open>granted\<close> is \<open>rand.Float32() > 0.3\<close>.\<close>

definition sendVoteRequest :: "int \<times> int \<Rightarrow> bool \<Rightarrow> string \<Rightarrow> VoteRequest \<Rightarrow> ('d, unit) raft" where
  "sendVoteRequest rs granted nodeID request =
     handleVoteResponse rs nodeID \<lparr>vr_Term = vq_Term request, vr_VoteGranted = granted\<rparr>"

datatype heartbeat_check = HigherTerm int | OtherLeader | NoConflict

fun scan_heartbeat :: "int \<Rightarrow> string \<Rightarrow> NodeInfo list \<Rightarrow> heartbeat_check" where
  "scan_heartbeat currentTerm nodeID [] = NoConflict"
| "scan_heartbeat currentTerm nodeID (n # ns) =
     (if currentTerm < ni_Term n then HigherTerm (ni_Term n)
      else if ni_IsLeader n \<and> ni_Term n = currentTerm \<and> ni_ID n \<noteq> nodeID then OtherLeader
      else scan_heartbeat currentTerm nodeID ns)"

definition sendHeartbeats :: "gtime \<Rightarrow> ('d, (string \<times> AppendEntriesRequest) list) raft" where
  "sendHeartbeats now = rbind (rlocked (gets (\<lambda>r. r))) (\<lambda>r0.
     if ra_state r0 \<noteq> Leader then ret []
     else rthen (updateNodeInfo now True) (rbind (listed_nodes now) (\<lambda>nodes. case nodes of
         None \<Rightarrow> ret []
       | Some ns \<Rightarrow> (case scan_heartbeat (ra_currentTerm r0) (ra_nodeID r0) ns of
           HigherTerm tm \<Rightarrow>
             rthen (locked (modify (\<lambda>r. r\<lparr>ra_currentTerm := tm, ra_state := Follower, ra_votedFor := ''''\<rparr>))) (ret [])
         | OtherLeader \<Rightarrow> rthen (locked (modify (\<lambda>r. r\<lparr>ra_state := Follower\<rparr>))) (ret [])
         | NoConflict \<Rightarrow> rbind (rlocked (gets (\<lambda>r. r))) (\<lambda>r.
             ret (map (\<lambda>n. (ni_ID n, \<lparr>ae_Term = ra_currentTerm r, ae_LeaderID = ra_nodeID r,
                    ae_PrevLogIndex = 0, ae_PrevLogTerm = 0, ae_Entries = [], ae_LeaderCommit = ra_commitIndex r\<rparr>))
               (filter (\<lambda>n. ni_ID n \<noteq> ra_nodeID r) ns)))))))"

section \<open>The public operations\<close>

definition Raft_Start :: "int \<times> int \<Rightarrow> ('d, unit) raft" where
  "Raft_Start rs = locked (rthen (modify (\<lambda>r. r\<lparr>ra_state := Follower\<rparr>)) (resetElectionTimer rs))"

definition Raft_Stop :: "gtime \<Rightarrow> ('d, unit) raft" where
  "Raft_Stop now = locked (
     rthen (modify (\<lambda>r. r\<lparr>ra_electionTimer := None, ra_heartbeatTimer := None\<rparr>))
     (rbind (gets ra_state) (\<lambda>state.
      if state = Leader
      then rthen (modify (\<lambda>r. r\<lparr>ra_state := Follower\<rparr>)) (updateNodeInfo now False)
      else ret ())))"

definition Raft_IsLeader :: "('d, bool) raft" where
  "Raft_IsLeader = rlocked (gets (\<lambda>r. ra_state r = Leader))"

definition Raft_GetLeader :: "gtime \<Rightarrow> ('d, string) raft" where
  "Raft_GetLeader now = rlocked (rbind (gets (\<lambda>r. r)) (\<lambda>r.
     if ra_state r = Leader then ret (ra_nodeID r)
     else rbind (listed_nodes now) (\<lambda>nodes. case nodes of
         None \<Rightarrow> ret '''' | Some ns \<Rightarrow> ret (leader_among ns))))"

section \<open>The loop of each role, one event at a time\<close>

text \<open>Follower: the heartbeat ticker and the election timer. The second answers whether the role
  was left.\<close>

definition follower_tick :: "gtime \<Rightarrow> int \<times> int \<Rightarrow> ('d, unit) raft" where
  "follower_tick now rs = rbind (receiveHeartbeat now) (\<lambda>received.
     if received
     then locked (rthen (modify (\<lambda>r. r\<lparr>ra_lastHeartbeatReceived := now\<rparr>)) (resetElectionTimer rs))
     else ret ())"

definition follower_timeout :: "gtime \<Rightarrow> int \<times> int \<Rightarrow> (RaftElection \<Rightarrow> RaftElection) \<Rightarrow> ('d, bool) raft" where
  "follower_timeout now rs meanwhile = rbind (rlocked (gets (\<lambda>r. r))) (\<lambda>r.
     if time_Sub now (ra_lastHeartbeatReceived r) < ra_electionTimeout r
     then rthen (locked (resetElectionTimer rs)) (ret False)
     else rthen (becomeCandidate meanwhile) (ret True))"

text \<open>Candidate: the start of an election, the ticker, the end of the wait, the election timer.\<close>

definition candidate_start :: "int \<times> int \<Rightarrow> ('d, unit) raft" where
  "candidate_start rs = locked (
     rthen (modify (\<lambda>r. r\<lparr>ra_currentTerm := int64 (ra_currentTerm r + 1), ra_votedFor := ra_nodeID r,
                         ra_votes := [ra_nodeID r]\<rparr>))
       (resetElectionTimer rs))"

definition candidate_tick :: "gtime \<Rightarrow> gtime \<Rightarrow> int \<times> int \<Rightarrow> ('d, bool) raft" where
  "candidate_tick t0 now rs = rbind (rlocked (gets (\<lambda>r. r))) (\<lambda>r.
     if ra_state r \<noteq> Candidate then ret True
     else rbind (hasMajority now (length (ra_votes r))) (\<lambda>majority.
       if majority then rthen (becomeLeader t0 now rs) (ret True) else ret False))"

definition candidate_final :: "gtime \<Rightarrow> gtime \<Rightarrow> int \<times> int \<Rightarrow> ('d, unit) raft" where
  "candidate_final t0 now rs = rbind (rlocked (gets (\<lambda>r. length (ra_votes r)))) (\<lambda>voteCount.
     rbind (hasMajority now voteCount) (\<lambda>majority.
     if majority then becomeLeader t0 now rs
     else rbind (gets ra_currentTerm) (\<lambda>currentTerm. becomeFollower now rs currentTerm)))"

text \<open>Leader: arming the heartbeat timer, and the validation ticker with its number of failures in
  a row, the new interval of the ticker if it changes, and whether the role is left.\<close>

definition leader_start :: "('d, unit) raft" where
  "leader_start = locked (modify (\<lambda>r. r\<lparr>ra_heartbeatTimer := Some (ra_heartbeatTimeout r div 2)\<rparr>))"

definition backoff_interval :: "nat \<Rightarrow> duration" where
  "backoff_interval failures = min (seconds 2) (int (failures * failures) * millis 100)"

definition leader_check :: "gtime \<Rightarrow> nat \<Rightarrow> ('d, nat \<times> duration option \<times> bool) raft" where
  "leader_check now validationFailures = rbind (validateLeadershipContinuity now) (\<lambda>valid.
     if \<not> valid then
       let failures = validationFailures + 1
       in if 1 < failures then
            if 3 \<le> failures then
              rthen (locked (rthen (modify (\<lambda>r. r\<lparr>ra_state := Follower\<rparr>)) (updateNodeInfo now False)))
                (ret (failures, Some (backoff_interval failures), True))
            else ret (failures, Some (backoff_interval failures), False)
          else ret (failures, None, False)
     else if 0 < validationFailures then ret (0, Some (millis 100), False)
     else ret (0, None, False))"

fun leader_checks :: "gtime list \<Rightarrow> nat \<Rightarrow> ('d, nat \<times> bool) raft" where
  "leader_checks [] failures = ret (failures, False)"
| "leader_checks (now # nows) failures = rbind (leader_check now failures) (\<lambda>(failures', i, left).
     if left then ret (failures', True) else leader_checks nows failures')"

section \<open>Running the parts\<close>

lemma mu_same [simp]: "mu r = m \<Longrightarrow> r\<lparr>mu := m\<rparr> = r"
  by (cases r) simp

definition nodes_of :: "gtime \<Rightarrow> 'd MongoStorage \<Rightarrow> NodeInfo list option" where
  "nodes_of now e = (if snd (fst (GetNodes now e)) = None then Some (fst (fst (GetNodes now e))) else None)"

lemma run_listed [prog_simps]:
  "listed_nodes now (r, e) = Returns (nodes_of now e, (r, snd (GetNodes now e)))"
  by (simp add: listed_nodes_def prog_simps nodes_of_def split_beta)

definition own_registration :: "RaftElection \<Rightarrow> bool \<Rightarrow> NodeInfo" where
  "own_registration r isLeader = \<lparr>ni_ID = ra_nodeID r, ni_Address = ''localhost:8080'',
     ni_IsLeader = isLeader, ni_LastSeen = zero_time, ni_WorkerCount = 10, ni_Version = ''1.0.0'',
     ni_Term = ra_currentTerm r\<rparr>"

lemma run_updateNodeInfo [prog_simps]:
  "mu r = WHeld \<Longrightarrow> updateNodeInfo now l (r, e) = Blocks"
  "mu r = Free \<Longrightarrow> updateNodeInfo now l (r, e) = Returns ((), (r, snd (RegisterNode now (own_registration r l) e)))"
  by (simp_all add: updateNodeInfo_def prog_simps own_registration_def)

lemma run_timer [prog_simps]:
  "ra_electionTimeout r < millis 1 \<Longrightarrow> resetElectionTimer rs (r, e) = Panics"
  "\<not> ra_electionTimeout r < millis 1 \<Longrightarrow> resetElectionTimer rs (r, e) = Returns ((), (r\<lparr>ra_electionTimer :=
     Some (int64 (ra_electionTimeout r + millis (fst rs) + millis (snd rs)))\<rparr>, e))"
  by (simp_all add: resetElectionTimer_def prog_simps)

lemma run_notify:
  "notifyCallbacks now (r, e) = Returns ((), (r\<lparr>ra_notified := ra_notified r @ [(ra_state r = Leader,
      if ra_state r = Leader then ra_nodeID r
      else case nodes_of now e of None \<Rightarrow> '''' | Some ns \<Rightarrow> leader_among ns)]\<rparr>,
    if ra_state r = Leader then e else snd (GetNodes now e)))"
  by (simp add: notifyCallbacks_def prog_simps)

section \<open>Stepping down\<close>

text \<open>The outcome of a leader's validation.\<close>

definition leadership_valid :: "gtime \<Rightarrow> RaftElection \<Rightarrow> 'd MongoStorage \<Rightarrow> bool" where
  "leadership_valid now r e \<longleftrightarrow> ra_state r = Leader
     \<and> (time_Sub now (ra_leadershipStartTime r) < seconds 2
        \<or> (case nodes_of now e of None \<Rightarrow> True
           | Some ns \<Rightarrow> continuity_scan now (ra_currentTerm r) (ra_nodeID r) 0 ns))"

lemma run_validate:
  assumes "mu r = Free"
  shows "\<exists>e'. validateLeadershipContinuity now (r, e) = Returns (leadership_valid now r e, (r, e'))"
  using assms by (auto simp: validateLeadershipContinuity_def leadership_valid_def prog_simps split: option.splits)

lemma becomeFollower_blocks:
  assumes "mu r = Free" and "\<not> ra_electionTimeout r < millis 1" and "ra_state r \<noteq> Follower"
  shows "becomeFollower now rs tm (r, e) = Blocks"
  using assms by (simp add: becomeFollower_def adopt_term_def prog_simps)

lemma leader_check_blocks:
  assumes "mu r = Free" and "\<not> leadership_valid now r e" and "2 \<le> failures"
  shows "leader_check now failures (r, e) = Blocks"
proof -
  obtain e' where "validateLeadershipContinuity now (r, e) = Returns (False, (r, e'))"
    using run_validate [OF assms(1), of now e] assms(2) by auto
  with assms(1,3) show ?thesis by (simp add: leader_check_def Let_def prog_simps)
qed

definition majority_of :: "gtime \<Rightarrow> nat \<Rightarrow> 'd MongoStorage \<Rightarrow> bool" where
  "majority_of now votes e = (case nodes_of now e of None \<Rightarrow> False | Some ns \<Rightarrow> length ns div 2 < votes)"

lemma run_majority [prog_simps]:
  "hasMajority now n (r, e) = Returns (majority_of now n e, (r, snd (GetNodes now e)))"
  "hasMajorityUnsafe now n (r, e) = Returns (majority_of now n e, (r, snd (GetNodes now e)))"
  by (simp_all add: hasMajority_def hasMajorityUnsafe_def majority_of_def prog_simps split: option.splits)

text \<open>C26: an election that ends without a majority, the third failed validation in a row of a leader,
  and stopping a leader leave the node waiting for its own lock for ever, whatever is stored.\<close>

theorem raft_step_down_blocks:
  assumes "mu r = Free" and "\<not> ra_electionTimeout r < millis 1"
  shows "(ra_state r = Candidate \<and> \<not> majority_of now (length (ra_votes r)) e
            \<longrightarrow> candidate_final t0 now rs (r, e) = Blocks)
    \<and> (\<not> leadership_valid now r e \<and> 2 \<le> failures \<longrightarrow> leader_check now failures (r, e) = Blocks)
    \<and> (ra_state r = Leader \<longrightarrow> Raft_Stop now (r, e) = Blocks)"
proof -
  have "candidate_final t0 now rs (r, e) = Blocks"
    if "ra_state r = Candidate" "\<not> majority_of now (length (ra_votes r)) e"
    using that assms by (simp add: candidate_final_def prog_simps becomeFollower_blocks)
  moreover have "Raft_Stop now (r, e) = Blocks" if "ra_state r = Leader"
    using that assms by (simp add: Raft_Stop_def prog_simps)
  ultimately show ?thesis using leader_check_blocks [OF assms(1)] by blast
qed

section \<open>Becoming leader\<close>

text \<open>A node found in the storage does not stand in the way of a candidate.\<close>

definition term_ok :: "gtime \<Rightarrow> RaftElection \<Rightarrow> NodeInfo \<Rightarrow> bool" where
  "term_ok now r n \<longleftrightarrow> ni_Term n \<le> ra_currentTerm r
     \<and> \<not> (ni_IsLeader n \<and> ni_Term n = ra_currentTerm r \<and> ni_ID n \<noteq> ra_nodeID r
          \<and> time_Sub now (ni_LastSeen n) < int64 (ra_heartbeatTimeout r * 2))"

lemma run_term_check:
  "\<exists>r'. term_check now ns (r, e) = Returns (\<forall>n\<in>set ns. term_ok now r n, (r', e))
    \<and> (r' = r \<or> (\<exists>n\<in>set ns. ra_currentTerm r < ni_Term n
         \<and> r' = r\<lparr>ra_currentTerm := ni_Term n, ra_votedFor := ''''\<rparr>))
    \<and> ((\<forall>n\<in>set ns. term_ok now r n) \<longrightarrow> r' = r)"
proof (induction ns)
  case Nil
  then show ?case by (simp add: prog_simps)
next
  case (Cons n ns)
  then show ?case by (auto simp: prog_simps term_ok_def)
qed

lemma run_becomeFollowerUnsafe:
  assumes "\<not> ra_electionTimeout r < millis 1" and "ra_state r = Candidate"
  shows "\<exists>r' e'. becomeFollowerUnsafe now rs tm (r, e) = Returns ((), (r', e'))
    \<and> ra_state r' = Follower \<and> mu r' = mu r \<and> ra_currentTerm r' = max tm (ra_currentTerm r)
    \<and> ra_nodeID r' = ra_nodeID r \<and> e' = snd (GetNodes now e)
    \<and> ra_electionTimeout r' = ra_electionTimeout r"
  using assms by (auto simp: becomeFollowerUnsafe_def adopt_term_def prog_simps run_notify)

lemma run_initialize:
  "\<exists>r' e'. initializeLeaderState now (r, e) = Returns ((), (r', e'))
    \<and> r' = r\<lparr>ra_nextIndex := ra_nextIndex r', ra_matchIndex := ra_matchIndex r'\<rparr> \<and> e' = snd (GetNodes now e)"
proof -
  let ?step = "\<lambda>r n. if ni_ID n \<noteq> ra_nodeID r
      then r\<lparr>ra_nextIndex := (ra_nextIndex r)(ni_ID n \<mapsto> int (length (ra_log r)) + 1),
             ra_matchIndex := (ra_matchIndex r)(ni_ID n \<mapsto> 0)\<rparr> else r"
  have idx: "\<exists>a b. foldl ?step r ns = r\<lparr>ra_nextIndex := a, ra_matchIndex := b\<rparr>" for r ns
  proof (induction ns arbitrary: r)
    case Nil
    show ?case by (intro exI [of _ "ra_nextIndex r"] exI [of _ "ra_matchIndex r"]) simp
  next
    case (Cons n ns)
    obtain a b where "?step r n = r\<lparr>ra_nextIndex := a, ra_matchIndex := b\<rparr>"
      by (metis (no_types, lifting) RaftElection.surjective RaftElection.update_convs(8,9))
    with Cons.IH [of "?step r n"] show ?case by auto
  qed
  let ?r0 = "r\<lparr>ra_nextIndex := Map.empty, ra_matchIndex := Map.empty\<rparr>"
  have "initializeLeaderState now (r, e) = Returns ((), (case nodes_of now e of
      None \<Rightarrow> ?r0 | Some ns \<Rightarrow> foldl ?step ?r0 ns, snd (GetNodes now e)))"
    by (simp add: initializeLeaderState_def prog_simps split: option.splits)
  moreover have "\<exists>a b. (case nodes_of now e of None \<Rightarrow> ?r0 | Some ns \<Rightarrow> foldl ?step ?r0 ns) =
      r\<lparr>ra_nextIndex := a, ra_matchIndex := b\<rparr>"
  proof (cases "nodes_of now e")
    case (Some ns)
    with idx [of ?r0 ns] show ?thesis by auto
  qed auto
  ultimately show ?thesis by fastforce
qed

lemma run_take_leadership:
  assumes "mu r = WHeld"
  shows "\<exists>r' e'. take_leadership now (r, e) = Returns ((), (r', e')) \<and> mu r' = WHeld
    \<and> ra_state r' = Leader \<and> ra_currentTerm r' = ra_currentTerm r \<and> ra_votedFor r' = ra_votedFor r
    \<and> ra_nodeID r' = ra_nodeID r \<and> ra_leadershipStartTime r' = now
    \<and> ra_electionTimeout r' = ra_electionTimeout r
    \<and> e' = snd (RegisterNode now (own_registration r True) (snd (GetNodes now e)))"
proof -
  obtain r1 e1 where i: "initializeLeaderState now (r\<lparr>ra_state := Leader\<rparr>, e) = Returns ((), (r1, e1))"
    and r1: "r1 = r\<lparr>ra_state := Leader, ra_nextIndex := ra_nextIndex r1, ra_matchIndex := ra_matchIndex r1\<rparr>" "e1 = snd (GetNodes now e)"
    using run_initialize [of now "r\<lparr>ra_state := Leader\<rparr>" e] by auto
  have f: "mu r1 = WHeld" "ra_state r1 = Leader" "ra_currentTerm r1 = ra_currentTerm r"
    "ra_votedFor r1 = ra_votedFor r" "ra_nodeID r1 = ra_nodeID r" "ra_electionTimeout r1 = ra_electionTimeout r"
    by (subst r1(1), simp add: assms)+
  have "own_registration (r1\<lparr>mu := m\<rparr>) True = own_registration r True" for m using f by (simp add: own_registration_def)
  moreover have "own_registration r1 True = own_registration r True" using f by (simp add: own_registration_def)
  ultimately show ?thesis using f r1(2) by (auto simp: take_leadership_def prog_simps i run_notify own_registration_def)
qed

text \<open>When a candidate becomes leader: the three storage calls it depends on are made one after the
  other, on the storage as each leaves it.\<close>

definition may_lead :: "gtime \<Rightarrow> gtime \<Rightarrow> RaftElection \<Rightarrow> 'd MongoStorage \<Rightarrow> bool" where
  "may_lead t0 now r e \<longleftrightarrow>
     (case nodes_of now e of None \<Rightarrow> False | Some ns \<Rightarrow> \<forall>n\<in>set ns. term_ok now r n)
   \<and> majority_of now (length (ra_votes r)) (snd (GetNodes now e))
   \<and> fst (AtomicClaimLeadership t0 now (ra_nodeID r) (ra_currentTerm r)
        (snd (GetNodes now (snd (GetNodes now e))))) = Inr True"

lemma run_validateTerm:
  "\<exists>r'. validateTermConsistency now (r, e) =
      Returns (case nodes_of now e of None \<Rightarrow> False | Some ns \<Rightarrow> \<forall>n\<in>set ns. term_ok now r n,
        (r', snd (GetNodes now e)))
    \<and> (r' = r \<or> (\<exists>tm. ra_currentTerm r < tm \<and> r' = r\<lparr>ra_currentTerm := tm, ra_votedFor := ''''\<rparr>))
    \<and> ((case nodes_of now e of None \<Rightarrow> True | Some ns \<Rightarrow> \<forall>n\<in>set ns. ni_Term n \<le> ra_currentTerm r) \<longrightarrow> r' = r)"
proof (cases "nodes_of now e")
  case None
  then show ?thesis by (simp add: validateTermConsistency_def prog_simps)
next
  case (Some ns)
  from run_term_check [of now ns r "snd (GetNodes now e)"] obtain r'
    where "term_check now ns (r, snd (GetNodes now e)) = Returns (\<forall>n\<in>set ns. term_ok now r n, (r', snd (GetNodes now e)))"
      and "r' = r \<or> (\<exists>n\<in>set ns. ra_currentTerm r < ni_Term n
         \<and> r' = r\<lparr>ra_currentTerm := ni_Term n, ra_votedFor := ''''\<rparr>)" by blast
  with Some show ?thesis
    by (intro exI [of _ r']) (auto simp: validateTermConsistency_def prog_simps)
qed

lemma run_tryClaim:
  "tryClaimLeadership t0 now (r, e) = Returns
     (fst (AtomicClaimLeadership t0 now (ra_nodeID r) (ra_currentTerm r) e) = Inr True,
      (r, snd (AtomicClaimLeadership t0 now (ra_nodeID r) (ra_currentTerm r) e)))"
  by (auto simp: tryClaimLeadership_def prog_simps split: sum.splits)

text \<open>The storage after an attempt that fails: after the check of the term, after the count of the
  nodes, or after the claim, and one more listing for the callbacks.\<close>

definition lost_storages :: "gtime \<Rightarrow> gtime \<Rightarrow> RaftElection \<Rightarrow> 'd MongoStorage \<Rightarrow> 'd MongoStorage set" where
  "lost_storages t0 now r e =
     {snd (GetNodes now (snd (GetNodes now e))), snd (GetNodes now (snd (GetNodes now (snd (GetNodes now e))))),
      snd (GetNodes now (snd (AtomicClaimLeadership t0 now (ra_nodeID r) (ra_currentTerm r)
        (snd (GetNodes now (snd (GetNodes now e)))))))}"

text \<open>The storage after an attempt that succeeds: the claim, one listing and the registration.\<close>

definition won_storage :: "gtime \<Rightarrow> gtime \<Rightarrow> RaftElection \<Rightarrow> 'd MongoStorage \<Rightarrow> 'd MongoStorage" where
  "won_storage t0 now r e = snd (RegisterNode now (own_registration r True)
     (snd (GetNodes now (snd (AtomicClaimLeadership t0 now (ra_nodeID r) (ra_currentTerm r)
        (snd (GetNodes now (snd (GetNodes now e)))))))))"

lemma own_registration_mu [simp]: "own_registration (r\<lparr>mu := m\<rparr>) l = own_registration r l"
  by (simp add: own_registration_def)

lemma run_becomeLeader:
  assumes "mu r = Free" and "\<not> ra_electionTimeout r < millis 1" and "ra_state r = Candidate"
  shows "\<exists>r' e'. becomeLeader t0 now rs (r, e) = Returns ((), (r', e')) \<and> mu r' = Free
    \<and> ra_nodeID r' = ra_nodeID r \<and> ra_currentTerm r \<le> ra_currentTerm r'
    \<and> ra_electionTimeout r' = ra_electionTimeout r
    \<and> (if may_lead t0 now r e
       then ra_state r' = Leader \<and> ra_currentTerm r' = ra_currentTerm r \<and> ra_votedFor r' = ra_votedFor r
         \<and> e' = won_storage t0 now r e
       else ra_state r' = Follower \<and> e' \<in> lost_storages t0 now r e)"
proof -
  let ?r = "r\<lparr>mu := WHeld\<rparr>" and ?e1 = "snd (GetNodes now e)"
  let ?ok = "case nodes_of now e of None \<Rightarrow> False | Some ns \<Rightarrow> \<forall>n\<in>set ns. term_ok now r n"
  let ?body = "becomeLeader t0 now rs (r, e)"
  have tok: "term_ok now ?r n = term_ok now r n" for n by (simp add: term_ok_def)
  from run_validateTerm [of now ?r e] obtain r1
    where v: "validateTermConsistency now (?r, e) = Returns (?ok, (r1, ?e1))"
      and r1: "r1 = ?r \<or> (\<exists>tm. ra_currentTerm r < tm \<and> r1 = ?r\<lparr>ra_currentTerm := tm, ra_votedFor := ''''\<rparr>)"
      and same: "?ok \<longrightarrow> r1 = ?r"
    by (auto simp: tok term_ok_def split: option.splits)
  have f1: "mu r1 = WHeld" "ra_state r1 = Candidate" "\<not> ra_electionTimeout r1 < millis 1"
    "ra_nodeID r1 = ra_nodeID r" "ra_currentTerm r \<le> ra_currentTerm r1"
    "ra_electionTimeout r1 = ra_electionTimeout r"
    using r1 assms by auto
  have down: "\<exists>r' e'. becomeFollowerUnsafe now rs tm (r2, e2) = Returns ((), (r', e')) \<and> mu r' = WHeld
      \<and> ra_nodeID r' = ra_nodeID r \<and> ra_currentTerm r \<le> ra_currentTerm r' \<and> ra_state r' = Follower
      \<and> ra_electionTimeout r' = ra_electionTimeout r \<and> e' = snd (GetNodes now e2)"
    if "mu r2 = WHeld" "ra_state r2 = Candidate" "\<not> ra_electionTimeout r2 < millis 1"
      "ra_nodeID r2 = ra_nodeID r" "ra_currentTerm r \<le> ra_currentTerm r2"
      "ra_electionTimeout r2 = ra_electionTimeout r"
    for tm r2 and e2 :: "'a MongoStorage"
    using run_becomeFollowerUnsafe [OF that(3,2), of now rs tm e2] that by fastforce
  show ?thesis
  proof (cases ?ok)
    case False
    with down [OF f1, of "int64 (ra_currentTerm r1 + 1)" ?e1] v show ?thesis
      using assms by (auto simp: becomeLeader_def prog_simps may_lead_def lost_storages_def)
  next
    case ok: True
    then have [simp]: "r1 = ?r" using same by blast
    let ?e2 = "snd (GetNodes now ?e1)"
    show ?thesis
    proof (cases "majority_of now (length (ra_votes r)) ?e1")
      case False
      with down [of ?r "ra_currentTerm r" ?e2] v ok assms show ?thesis
        by (auto simp: becomeLeader_def prog_simps may_lead_def lost_storages_def)
    next
      case maj: True
      let ?claim = "AtomicClaimLeadership t0 now (ra_nodeID r) (ra_currentTerm r) ?e2"
      show ?thesis
      proof (cases "fst ?claim = Inr True")
        case False
        with down [of ?r "ra_currentTerm r" "snd ?claim"] v ok maj assms show ?thesis
          by (auto simp: becomeLeader_def prog_simps may_lead_def lost_storages_def run_tryClaim)
      next
        case True
        with run_take_leadership [of ?r now "snd ?claim"] v ok maj assms show ?thesis
          by (auto simp: becomeLeader_def prog_simps may_lead_def lost_storages_def won_storage_def run_tryClaim)
      qed
    qed
  qed
qed

section \<open>With a storage that answers\<close>

definition recent_nodes :: "gtime \<Rightarrow> (string \<rightharpoonup> NodeInfo) \<Rightarrow> NodeInfo set" where
  "recent_nodes now v = {n. v (ni_ID n) = Some n \<and> (now - seconds 300) div 1000000 \<le> ni_LastSeen n div 1000000}"

lemma nodes_of_up:
  assumes "storage_up e"
  shows "\<exists>ns. nodes_of now e = Some ns \<and> distinct ns \<and> set ns = recent_nodes now (ms_nodes e)"
    and "storage_up (snd (GetNodes now e))" and "ms_nodes (snd (GetNodes now e)) = ms_nodes e"
proof -
  obtain ns s' where g: "GetNodes now e = ((ns, None), s')" "distinct (map ni_ID ns)" "ms_nodes s' = ms_nodes e"
    "storage_up s'" "\<forall>n. n \<in> set ns \<longleftrightarrow> ms_nodes e (ni_ID n) = Some n
          \<and> (now - seconds 300) div 1000000 \<le> ni_LastSeen n div 1000000"
    using GetNodes_spec [OF assms, of now] by blast
  then have "nodes_of now e = Some ns" "distinct ns" "set ns = recent_nodes now (ms_nodes e)"
    by (auto simp: nodes_of_def recent_nodes_def distinct_map)
  then show "\<exists>ns. nodes_of now e = Some ns \<and> distinct ns \<and> set ns = recent_nodes now (ms_nodes e)" by blast
  show "storage_up (snd (GetNodes now e))" "ms_nodes (snd (GetNodes now e)) = ms_nodes e"
    using g by simp_all
qed

lemma may_lead_up:
  assumes "storage_up e" and "t0 \<le> now"
    and "\<forall>n. ms_nodes e (ra_nodeID r) = Some n \<longrightarrow> ni_LastSeen n \<noteq> bson_ms now"
  shows "may_lead t0 now r e \<longleftrightarrow> (\<forall>n\<in>recent_nodes now (ms_nodes e). term_ok now r n)
    \<and> card (recent_nodes now (ms_nodes e)) div 2 < length (ra_votes r)
    \<and> active_rivals now (ra_nodeID r) (ms_nodes e) = {}"
proof -
  let ?e1 = "snd (GetNodes now e)"
  let ?e2 = "snd (GetNodes now ?e1)"
  note up1 = nodes_of_up(2,3) [OF assms(1), of now] and up2 = nodes_of_up(2,3) [OF nodes_of_up(2) [OF assms(1)], of now]
  obtain ns where ns: "nodes_of now e = Some ns" "set ns = recent_nodes now (ms_nodes e)"
    using nodes_of_up(1) [OF assms(1), of now] by blast
  obtain ns1 where ns1: "nodes_of now ?e1 = Some ns1" "distinct ns1" "set ns1 = recent_nodes now (ms_nodes e)"
    using nodes_of_up(1) [OF up1(1), of now] up1(2) by auto
  then have "length ns1 = card (recent_nodes now (ms_nodes e))" by (metis distinct_card)
  moreover have "fst (AtomicClaimLeadership t0 now (ra_nodeID r) (ra_currentTerm r) ?e2) =
      Inr (active_rivals now (ra_nodeID r) (ms_nodes e) = {})"
    using AtomicClaimLeadership_spec [OF up2(1) assms(2), where i = "ra_nodeID r" and tm = "ra_currentTerm r"]
      assms(3) up1(2) up2(2) by simp
  ultimately show ?thesis using ns ns1(1) by (simp add: may_lead_def majority_of_def)
qed

text \<open>C13: with a storage that answers, a candidate becomes leader exactly when no listed node is of a
  higher term or an active leader of the same one, its votes outnumber half of the listed nodes,
  and no other node was seen as leader in the last three seconds; otherwise it becomes a
  follower. Its term never goes down, and the lock is free again.\<close>

theorem raft_candidate_wins_exactly_when:
  assumes "mu r = Free" and "millis 1 \<le> ra_electionTimeout r" and "ra_state r = Candidate"
    and "storage_up e" and "t0 \<le> now"
    and "\<forall>n. ms_nodes e (ra_nodeID r) = Some n \<longrightarrow> ni_LastSeen n \<noteq> bson_ms now"
  shows "\<exists>r' e'. becomeLeader t0 now rs (r, e) = Returns ((), (r', e')) \<and> mu r' = Free
    \<and> ra_currentTerm r \<le> ra_currentTerm r'
    \<and> ra_state r' = (if (\<forall>n\<in>recent_nodes now (ms_nodes e). term_ok now r n)
          \<and> card (recent_nodes now (ms_nodes e)) div 2 < length (ra_votes r)
          \<and> active_rivals now (ra_nodeID r) (ms_nodes e) = {} then Leader else Follower)"
proof -
  have "\<not> ra_electionTimeout r < millis 1" using assms(2) by simp
  from run_becomeLeader [OF assms(1) this assms(3), of t0 now rs e] may_lead_up [OF assms(4-6)]
  show ?thesis by (auto split: if_splits)
qed

lemma run_receiveHeartbeat:
  assumes "mu r = Free"
  shows "\<exists>r'. receiveHeartbeat now (r, e) = Returns (case nodes_of now e of
        None \<Rightarrow> False | Some ns \<Rightarrow> \<exists>n\<in>set ns. heartbeat_from now r (ra_currentTerm r) n, (r', snd (GetNodes now e)))
    \<and> mu r' = Free \<and> ra_state r' = ra_state r \<and> ra_nodeID r' = ra_nodeID r
    \<and> ra_electionTimeout r' = ra_electionTimeout r \<and> ra_currentTerm r \<le> ra_currentTerm r'
    \<and> (ra_votedFor r' = ra_votedFor r \<or> ra_votedFor r' = '''')"
proof (cases "nodes_of now e")
  case None
  with assms show ?thesis by (simp add: receiveHeartbeat_def prog_simps)
next
  case (Some ns)
  show ?thesis
  proof (cases "List.find (heartbeat_from now r (ra_currentTerm r)) ns")
    case None
    then have "\<not> (\<exists>n\<in>set ns. heartbeat_from now r (ra_currentTerm r) n)" by (auto simp: find_None_iff)
    with Some None assms show ?thesis by (simp add: receiveHeartbeat_def prog_simps)
  next
    case found: (Some n)
    from find_SomeD [OF found] have "\<exists>n\<in>set ns. heartbeat_from now r (ra_currentTerm r) n" by blast
    with Some found assms show ?thesis by (auto simp: receiveHeartbeat_def prog_simps)
  qed
qed

text \<open>A candidate that finds an active leader of its own term gives up, but in the next term, and
  then takes none of that leader's heartbeats, whenever they come: they carry the lower term. It
  goes on to time out and to stand again, although a leader is active.\<close>

theorem loser_ignores_the_leader:
  assumes "mu r = Free" and "millis 1 \<le> ra_electionTimeout r" and "ra_state r = Candidate"
    and "storage_up e" and "l \<in> recent_nodes now (ms_nodes e)" and "ni_IsLeader l"
    and "ni_Term l = ra_currentTerm r" and "ni_ID l \<noteq> ra_nodeID r"
    and "time_Sub now (ni_LastSeen l) < int64 (ra_heartbeatTimeout r * 2)"
    and "\<forall>n i. ms_nodes e i = Some n \<longrightarrow> ni_Term n \<le> ra_currentTerm r"
    and "in_int64 (ra_currentTerm r + 1)"
  shows "\<exists>r' e'. becomeLeader t0 now rs (r, e) = Returns ((), (r', e'))
    \<and> ra_state r' = Follower \<and> ra_currentTerm r' = ra_currentTerm r + 1
    \<and> (\<forall>later. \<exists>st. receiveHeartbeat later (r', e') = Returns (False, st))"
proof -
  let ?r = "r\<lparr>mu := WHeld\<rparr>" and ?e1 = "snd (GetNodes now e)"
  have to: "\<not> ra_electionTimeout r < millis 1" using assms(2) by simp
  obtain ns where ns: "nodes_of now e = Some ns" "set ns = recent_nodes now (ms_nodes e)"
    using nodes_of_up(1) [OF assms(4), of now] by blast
  have "\<not> term_ok now ?r l" using assms(6-9) by (simp add: term_ok_def)
  moreover have low: "\<forall>n\<in>set ns. ni_Term n \<le> ra_currentTerm ?r"
    using ns(2) assms(10) by (auto simp: recent_nodes_def)
  ultimately have v: "validateTermConsistency now (?r, e) = Returns (False, (?r, ?e1))"
    using run_validateTerm [of now ?r e] ns assms(5) by auto
  have inc: "int64 (ra_currentTerm r + 1) = ra_currentTerm r + 1" using assms(11) by simp
  from run_becomeFollowerUnsafe [of ?r now rs "ra_currentTerm r + 1" ?e1] to assms(3)
  obtain r1 e1 where b: "becomeFollowerUnsafe now rs (ra_currentTerm r + 1) (?r, ?e1) = Returns ((), (r1, e1))"
    and r1: "ra_state r1 = Follower" "mu r1 = WHeld" "ra_currentTerm r1 = ra_currentTerm r + 1"
    and e1: "e1 = snd (GetNodes now ?e1)" by auto
  have up: "storage_up e1" "ms_nodes e1 = ms_nodes e"
    using nodes_of_up(2,3) [OF assms(4), of now] nodes_of_up(2,3) [OF nodes_of_up(2) [OF assms(4)], of now] e1
    by simp_all
  have run: "becomeLeader t0 now rs (r, e) = Returns ((), (r1\<lparr>mu := Free\<rparr>, e1))"
    using assms(1,3) v b r1 inc by (simp add: becomeLeader_def prog_simps)
  have "\<exists>st. receiveHeartbeat later (r1\<lparr>mu := Free\<rparr>, e1) = Returns (False, st)" for later
  proof -
    obtain ns' where "nodes_of later e1 = Some ns'" "set ns' = recent_nodes later (ms_nodes e)"
      using nodes_of_up(1) [OF up(1), of later] up(2) by auto
    moreover from this have "\<not> heartbeat_from later (r1\<lparr>mu := Free\<rparr>) (ra_currentTerm r1) n" if "n \<in> set ns'" for n
      using that assms(10) r1(3) by (force simp: recent_nodes_def heartbeat_from_def)
    ultimately show ?thesis using run_receiveHeartbeat [of "r1\<lparr>mu := Free\<rparr>" later e1] by auto
  qed
  with run r1 show ?thesis by fastforce
qed

section \<open>The node as a state machine\<close>

text \<open>
  Where the loop \<open>run\<close> stands; a leader carries its number of failed validations. The steps are
  the events of each role, the goroutines that run beside the loop (vote answers and heartbeats),
  and whatever other nodes do to the storage. A step that blocks or panics is no step.
\<close>

datatype raft_pc = AtLoop | InFollower | InCandidate | InLeader nat

type_synonym 'd raft_config = "raft_pc \<times> RaftElection \<times> 'd MongoStorage"

inductive raft_step :: "'d raft_config \<Rightarrow> 'd raft_config \<Rightarrow> bool" where
  enter_follower: "ra_state r = Follower \<Longrightarrow> raft_step (AtLoop, r, e) (InFollower, r, e)"
| enter_candidate: "ra_state r = Candidate \<Longrightarrow> candidate_start rs (r, e) = Returns (u, (r', e')) \<Longrightarrow>
    raft_step (AtLoop, r, e) (InCandidate, r', e')"
| enter_leader: "ra_state r = Leader \<Longrightarrow> leader_start (r, e) = Returns (u, (r', e')) \<Longrightarrow>
    raft_step (AtLoop, r, e) (InLeader 0, r', e')"
| follower_ticks: "follower_tick now rs (r, e) = Returns (u, (r', e')) \<Longrightarrow>
    raft_step (InFollower, r, e) (InFollower, r', e')"
| follower_times_out: "follower_timeout now rs (\<lambda>r. r) (r, e) = Returns (left, (r', e')) \<Longrightarrow>
    raft_step (InFollower, r, e) (if left then AtLoop else InFollower, r', e')"
| candidate_ticks: "candidate_tick t0 now rs (r, e) = Returns (left, (r', e')) \<Longrightarrow>
    raft_step (InCandidate, r, e) (if left then AtLoop else InCandidate, r', e')"
| candidate_ends: "candidate_final t0 now rs (r, e) = Returns (u, (r', e')) \<Longrightarrow>
    raft_step (InCandidate, r, e) (AtLoop, r', e')"
| candidate_times_out: "becomeCandidate (\<lambda>r. r) (r, e) = Returns (u, (r', e')) \<Longrightarrow>
    raft_step (InCandidate, r, e) (AtLoop, r', e')"
| leader_validates: "leader_check now n (r, e) = Returns ((n', i, left), (r', e')) \<Longrightarrow>
    raft_step (InLeader n, r, e) (if left then AtLoop else InLeader n', r', e')"
| vote_arrives: "handleVoteResponse rs voter response (r, e) = Returns (u, (r', e')) \<Longrightarrow>
    raft_step (pc, r, e) (pc, r', e')"
| heartbeats_sent: "sendHeartbeats now (r, e) = Returns (sent, (r', e')) \<Longrightarrow>
    raft_step (pc, r, e) (pc, r', e')"
| others_write: "raft_step (pc, r, e) (pc, r, e')"

inductive raft_reach :: "'d raft_config \<Rightarrow> 'd raft_config \<Rightarrow> bool" for c0 :: "'d raft_config" where
  here: "raft_reach c0 c0"
| step_on: "raft_reach c0 c \<Longrightarrow> raft_step c c' \<Longrightarrow> raft_reach c0 c'"

inductive_cases raft_stepE: "raft_step (pc, r, e) c'"

text \<open>The invariant: between steps the lock is free, the role agrees with where the loop stands, and
  a candidate that stands for election and a leader have voted for themselves.\<close>

definition raft_inv :: "'d raft_config \<Rightarrow> bool" where
  "raft_inv = (\<lambda>(pc, r, e). mu r = Free \<and> millis 1 \<le> ra_electionTimeout r
     \<and> (ra_state r = Leader \<longrightarrow> ra_votedFor r = ra_nodeID r \<and> (pc = AtLoop \<or> (\<exists>n. pc = InLeader n)))
     \<and> (pc = InCandidate \<longrightarrow> ra_state r = Candidate \<and> ra_votedFor r = ra_nodeID r)
     \<and> (ra_state r = Candidate \<longrightarrow> pc = AtLoop \<or> pc = InCandidate))"

lemma raft_inv_iff:
  "raft_inv (pc, r, e) \<longleftrightarrow> mu r = Free \<and> millis 1 \<le> ra_electionTimeout r
     \<and> (ra_state r = Leader \<longrightarrow> ra_votedFor r = ra_nodeID r \<and> (pc = AtLoop \<or> (\<exists>n. pc = InLeader n)))
     \<and> (pc = InCandidate \<longrightarrow> ra_state r = Candidate \<and> ra_votedFor r = ra_nodeID r)
     \<and> (ra_state r = Candidate \<longrightarrow> pc = AtLoop \<or> pc = InCandidate)"
  by (simp add: raft_inv_def)

text \<open>What each event does to the role, the vote and the term.\<close>

lemma run_candidate_start:
  assumes "candidate_start rs (r, e) = Returns (u, (r', e'))" and "mu r = Free" and "millis 1 \<le> ra_electionTimeout r"
  shows "mu r' = Free \<and> ra_state r' = ra_state r \<and> ra_nodeID r' = ra_nodeID r \<and> ra_votedFor r' = ra_nodeID r
    \<and> ra_votes r' = [ra_nodeID r] \<and> ra_currentTerm r' = int64 (ra_currentTerm r + 1)
    \<and> ra_electionTimeout r' = ra_electionTimeout r"
  using assms by (auto simp: candidate_start_def prog_simps)

lemma run_follower_tick:
  assumes "follower_tick now rs (r, e) = Returns (u, (r', e'))" and "mu r = Free" and "millis 1 \<le> ra_electionTimeout r"
  shows "mu r' = Free \<and> ra_state r' = ra_state r \<and> ra_currentTerm r \<le> ra_currentTerm r'
    \<and> ra_electionTimeout r' = ra_electionTimeout r"
proof -
  obtain b r1 e1 where "receiveHeartbeat now (r, e) = Returns (b, (r1, e1))"
    and "mu r1 = Free" "ra_state r1 = ra_state r" "ra_currentTerm r \<le> ra_currentTerm r1"
      "ra_electionTimeout r1 = ra_electionTimeout r"
    using run_receiveHeartbeat [OF assms(2), of now e] by blast
  with assms show ?thesis by (cases b) (auto simp: follower_tick_def prog_simps)
qed

lemma run_becomeCandidate:
  "mu r = Free \<Longrightarrow> becomeCandidate (\<lambda>r. r) (r, e) =
     Returns ((), (if ra_state r = Follower then r\<lparr>ra_state := Candidate\<rparr> else r, e))"
  by (simp add: becomeCandidate_def prog_simps)

lemma run_follower_timeout:
  assumes "follower_timeout now rs (\<lambda>r. r) (r, e) = Returns (left, (r', e'))" and "mu r = Free"
    and "millis 1 \<le> ra_electionTimeout r"
  shows "mu r' = Free \<and> ra_currentTerm r' = ra_currentTerm r \<and> ra_votedFor r' = ra_votedFor r
    \<and> ra_nodeID r' = ra_nodeID r \<and> ra_electionTimeout r' = ra_electionTimeout r
    \<and> ra_state r' = (if left \<and> ra_state r = Follower then Candidate else ra_state r)"
  using assms by (auto simp: follower_timeout_def prog_simps run_becomeCandidate split: if_splits)

text \<open>What an election that is decided does to the node.\<close>

definition election_result :: "RaftElection \<Rightarrow> RaftElection \<Rightarrow> bool" where
  "election_result r r' \<longleftrightarrow> mu r' = Free \<and> ra_nodeID r' = ra_nodeID r \<and> ra_currentTerm r \<le> ra_currentTerm r'
     \<and> ra_electionTimeout r' = ra_electionTimeout r
     \<and> (ra_state r' = Leader \<and> ra_votedFor r' = ra_votedFor r \<or> ra_state r' = Follower)"

lemma becomeLeader_result:
  assumes "becomeLeader t0 now rs (r, e) = Returns (u, (r', e'))" and "mu r = Free" and "ra_state r = Candidate"
    and "millis 1 \<le> ra_electionTimeout r"
  shows "election_result r r'"
proof -
  have "\<not> ra_electionTimeout r < millis 1" using assms(4) by simp
  from run_becomeLeader [OF assms(2) this assms(3), of t0 now rs e] assms(1) show ?thesis
    by (auto simp: election_result_def split: if_splits)
qed

lemma run_candidate_tick:
  assumes "candidate_tick t0 now rs (r, e) = Returns (left, (r', e'))" and "mu r = Free" and "ra_state r = Candidate"
    and "millis 1 \<le> ra_electionTimeout r"
  shows "if left then election_result r r' else r' = r"
proof (cases "majority_of now (length (ra_votes r)) e")
  case True
  obtain r1 e1 where b: "becomeLeader t0 now rs (r, snd (GetNodes now e)) = Returns ((), (r1, e1))"
    using run_becomeLeader [OF assms(2) _ assms(3), of t0 now rs "snd (GetNodes now e)"] assms(4) by auto
  with True assms(1-3) have "left \<and> r' = r1" by (auto simp: candidate_tick_def prog_simps)
  with becomeLeader_result [OF b assms(2-4)] show ?thesis by simp
next
  case False
  with assms show ?thesis by (auto simp: candidate_tick_def prog_simps)
qed

lemma run_candidate_final:
  assumes "candidate_final t0 now rs (r, e) = Returns (u, (r', e'))" and "mu r = Free" and "ra_state r = Candidate"
    and "millis 1 \<le> ra_electionTimeout r"
  shows "election_result r r'"
proof -
  have "majority_of now (length (ra_votes r)) e"
  proof (rule ccontr)
    assume "\<not> ?thesis"
    with assms show False by (simp add: candidate_final_def prog_simps becomeFollower_blocks)
  qed
  then have "becomeLeader t0 now rs (r, snd (GetNodes now e)) = Returns (u, (r', e'))"
    using assms(1,2) by (simp add: candidate_final_def prog_simps)
  from becomeLeader_result [OF this assms(2-4)] show ?thesis .
qed

lemma run_leader_check:
  assumes "leader_check now n (r, e) = Returns ((n', i, left), (r', e'))" and "mu r = Free"
  shows "r' = r \<and> \<not> left"
proof -
  obtain e1 where v: "validateLeadershipContinuity now (r, e) = Returns (leadership_valid now r e, (r, e1))"
    using run_validate [OF assms(2)] by blast
  show ?thesis
  proof (cases "\<not> leadership_valid now r e \<and> 2 \<le> n")
    case True
    then have "leader_check now n (r, e) = Blocks" by (intro leader_check_blocks [OF assms(2)]) auto
    with assms(1) show ?thesis by simp
  next
    case False
    with v assms show ?thesis by (auto simp: leader_check_def Let_def prog_simps split: if_splits)
  qed
qed

lemma run_vote:
  assumes "handleVoteResponse rs voter response (r, e) = Returns (u, (r', e'))" and "mu r = Free"
  shows "mu r' = Free \<and> ra_state r' = ra_state r \<and> ra_votedFor r' = ra_votedFor r
    \<and> ra_nodeID r' = ra_nodeID r \<and> ra_electionTimeout r' = ra_electionTimeout r
    \<and> ra_currentTerm r' = ra_currentTerm r \<and> e' = e
    \<and> ra_votes r' = (if ra_state r = Candidate \<and> vr_Term response = ra_currentTerm r \<and> vr_VoteGranted response
                    then List.insert voter (ra_votes r) else ra_votes r)"
  using assms by (auto simp: handleVoteResponse_def prog_simps split: if_splits)

lemma run_heartbeats:
  assumes "sendHeartbeats now (r, e) = Returns (sent, (r', e'))" and "mu r = Free"
  shows "r' = r \<or> ra_state r = Leader \<and> mu r' = Free \<and> ra_state r' = Follower \<and> ra_currentTerm r \<le> ra_currentTerm r'
    \<and> ra_electionTimeout r' = ra_electionTimeout r"
proof -
  have scan: "scan_heartbeat t i ns = HigherTerm tm \<Longrightarrow> t \<le> tm" for t i ns tm
    by (induction ns) (auto split: if_splits)
  from assms show ?thesis
    by (auto simp: sendHeartbeats_def prog_simps split: if_splits option.splits heartbeat_check.splits
        dest: scan)
qed

lemma raft_inv_step:
  assumes "raft_step c c'" and "raft_inv c"
  shows "raft_inv c'"
  using assms
proof (induction rule: raft_step.induct)
  case (enter_follower r e)
  then show ?case by (simp add: raft_inv_iff)
next
  case (enter_candidate r rs e u r' e')
  then show ?case using run_candidate_start [of rs r e u r' e'] by (simp add: raft_inv_iff)
next
  case (enter_leader r e u r' e')
  then show ?case by (auto simp: raft_inv_iff leader_start_def prog_simps)
next
  case (follower_ticks now rs r e u r' e')
  then show ?case using run_follower_tick [of now rs r e u r' e'] by (auto simp: raft_inv_iff)
next
  case (follower_times_out now rs r e left r' e')
  then show ?case using run_follower_timeout [of now rs r e left r' e']
    by (auto simp: raft_inv_iff split: if_splits)
next
  case (candidate_ticks t0 now rs r e left r' e')
  then show ?case using run_candidate_tick [of t0 now rs r e left r' e']
    by (auto simp: raft_inv_iff election_result_def split: if_splits)
next
  case (candidate_ends t0 now rs r e u r' e')
  then show ?case using run_candidate_final [of t0 now rs r e u r' e']
    by (auto simp: raft_inv_iff election_result_def)
next
  case (candidate_times_out r e u r' e')
  then show ?case using run_becomeCandidate [of r e] by (auto simp: raft_inv_iff)
next
  case (leader_validates now n r e n' i left r' e')
  then show ?case using run_leader_check [of now n r e n' i left r' e'] by (auto simp: raft_inv_iff)
next
  case (vote_arrives rs voter response r e u r' e' pc)
  then show ?case using run_vote [of rs voter response r e u r' e'] by (auto simp: raft_inv_iff)
next
  case (heartbeats_sent now r e sent r' e' pc)
  then show ?case using run_heartbeats [of now r e sent r' e'] by (auto simp: raft_inv_iff)
next
  case (others_write pc r e e')
  then show ?case by (simp add: raft_inv_iff)
qed

lemma raft_inv_reach: "raft_reach c0 c \<Longrightarrow> raft_inv c0 \<Longrightarrow> raft_inv c"
  by (induction rule: raft_reach.induct) (auto dest: raft_inv_step)

lemma raft_inv_new:
  "millis 1 \<le> electionTimeout \<Longrightarrow> raft_inv (AtLoop, NewRaftElection now nodeID electionTimeout heartbeatTimeout, e)"
  by (simp add: raft_inv_iff NewRaftElection_def)

text \<open>C14: in every state that a new node reaches, the lock is free between steps, a leader has voted
  for itself and no longer runs the loop of a follower or candidate, and a candidate in its
  election has voted for itself.\<close>

theorem raft_leader_has_its_own_vote:
  assumes "raft_reach (AtLoop, NewRaftElection now nodeID electionTimeout heartbeatTimeout, e0) (pc, r, e)"
    and "millis 1 \<le> electionTimeout"
  shows "mu r = Free
    \<and> (ra_state r = Leader \<longrightarrow> ra_votedFor r = ra_nodeID r \<and> pc \<noteq> InFollower \<and> pc \<noteq> InCandidate)
    \<and> (pc = InCandidate \<longrightarrow> ra_state r = Candidate \<and> ra_votedFor r = ra_nodeID r)"
  using raft_inv_reach [OF assms(1) raft_inv_new [OF assms(2)]] by (auto simp: raft_inv_iff)

lemma raft_term_step:
  assumes "raft_step c c'" and "raft_inv c" and "in_int64 (ra_currentTerm (fst (snd c)) + 1)"
  shows "ra_currentTerm (fst (snd c)) \<le> ra_currentTerm (fst (snd c'))"
  using assms
proof (induction rule: raft_step.induct)
  case (enter_candidate r rs e u r' e')
  then show ?case using run_candidate_start [of rs r e u r' e'] by (simp add: raft_inv_iff)
next
  case (enter_leader r e u r' e')
  then show ?case by (auto simp: raft_inv_iff leader_start_def prog_simps)
next
  case (follower_ticks now rs r e u r' e')
  then show ?case using run_follower_tick [of now rs r e u r' e'] by (auto simp: raft_inv_iff)
next
  case (follower_times_out now rs r e left r' e')
  then show ?case using run_follower_timeout [of now rs r e left r' e'] by (auto simp: raft_inv_iff)
next
  case (candidate_ticks t0 now rs r e left r' e')
  then show ?case using run_candidate_tick [of t0 now rs r e left r' e']
    by (auto simp: raft_inv_iff election_result_def split: if_splits)
next
  case (candidate_ends t0 now rs r e u r' e')
  then show ?case using run_candidate_final [of t0 now rs r e u r' e']
    by (auto simp: raft_inv_iff election_result_def)
next
  case (candidate_times_out r e u r' e')
  then show ?case using run_becomeCandidate [of r e] by (auto simp: raft_inv_iff)
next
  case (leader_validates now n r e n' i left r' e')
  then show ?case using run_leader_check [of now n r e n' i left r' e'] by (auto simp: raft_inv_iff)
next
  case (vote_arrives rs voter response r e u r' e' pc)
  then show ?case using run_vote [of rs voter response r e u r' e'] by (auto simp: raft_inv_iff)
next
  case (heartbeats_sent now r e sent r' e' pc)
  then show ?case using run_heartbeats [of now r e sent r' e'] by (auto simp: raft_inv_iff)
qed simp_all

text \<open>The term of a node never decreases, whatever step it takes and whatever others store, short
  of the overflow of its 64 bits.\<close>

theorem raft_terms_never_decrease:
  assumes "raft_reach (AtLoop, NewRaftElection now nodeID electionTimeout heartbeatTimeout, e0) (pc, r, e)"
    and "millis 1 \<le> electionTimeout" and "raft_step (pc, r, e) (pc', r', e')" and "in_int64 (ra_currentTerm r + 1)"
  shows "ra_currentTerm r \<le> ra_currentTerm r'"
  using raft_term_step [OF assms(3) raft_inv_reach [OF assms(1) raft_inv_new [OF assms(2)]]] assms(4) by simp

text \<open>An answer to a vote request counts exactly when the node is still a candidate of the
  answer's term and the vote was granted, and counts once per voter; an answer of a higher term
  is dropped like every other, so a node never learns of a later term from it.\<close>

theorem vote_counts_exactly_when:
  assumes "mu r = Free"
  shows "handleVoteResponse rs voter response (r, e) = Returns ((),
    (if ra_state r = Candidate \<and> vr_Term response = ra_currentTerm r \<and> vr_VoteGranted response
     then r\<lparr>ra_votes := List.insert voter (ra_votes r)\<rparr> else r, e))"
  using assms by (simp add: handleVoteResponse_def prog_simps)

text \<open>A new election timer runs for at least the election timeout and for less than twice it and
  200 milliseconds; with a timeout below a millisecond arming it panics.\<close>

theorem election_timer_bounds:
  assumes "0 \<le> fst rs" and "millis (fst rs) < ra_electionTimeout r" and "0 \<le> snd rs" and "snd rs < 200"
    and "ra_electionTimeout r < 2 ^ 61"
  shows "resetElectionTimer rs (r, e) =
      (if ra_electionTimeout r < millis 1 then Panics
       else Returns ((), (r\<lparr>ra_electionTimer := Some (ra_electionTimeout r + millis (fst rs) + millis (snd rs))\<rparr>, e)))
    \<and> ra_electionTimeout r \<le> ra_electionTimeout r + millis (fst rs) + millis (snd rs)
    \<and> ra_electionTimeout r + millis (fst rs) + millis (snd rs) < 2 * ra_electionTimeout r + millis 200"
proof -
  have "int64 (ra_electionTimeout r + millis (fst rs) + millis (snd rs)) =
      ra_electionTimeout r + millis (fst rs) + millis (snd rs)"
    using assms by (intro int64_small) auto
  with assms show ?thesis
    by (cases "ra_electionTimeout r < millis 1") (auto simp: run_timer)
qed

section \<open>Witnesses\<close>

definition sample_raft :: "RaftState \<Rightarrow> RaftElection" where
  "sample_raft st = (NewRaftElection 0 ''node-1'' (seconds 15) (seconds 5))\<lparr>ra_state := st,
     ra_currentTerm := 1, ra_votes := (if st = Follower then [] else [''node-1''])\<rparr>"

definition sample_leader :: NodeInfo where
  "sample_leader = (blank_node ''node-2'')\<lparr>ni_IsLeader := True, ni_LastSeen := 0, ni_Term := 1\<rparr>"

definition led_storage :: "mem_mongo MongoStorage" where
  "led_storage = new_storage\<lparr>ms_db := mem_db_empty\<lparr>mm_nodes := [sample_leader]\<rparr>\<rparr>"

lemma sample_raft_simps [simp]:
  "mu (sample_raft st) = Free" "ra_state (sample_raft st) = st" "ra_nodeID (sample_raft st) = ''node-1''"
  "ra_electionTimeout (sample_raft st) = seconds 15" "ra_heartbeatTimeout (sample_raft st) = seconds 5"
  "ra_currentTerm (sample_raft st) = 1" "ra_votes (sample_raft Candidate) = [''node-1'']"
  "ra_votes (sample_raft Leader) = [''node-1'']"
  by (simp_all add: sample_raft_def NewRaftElection_def)

lemma sample_leader_simps [simp]:
  "ni_ID sample_leader = ''node-2''" "ni_IsLeader sample_leader" "ni_LastSeen sample_leader = 0"
  "ni_Term sample_leader = 1"
  by (simp_all add: sample_leader_def blank_node_def)

lemma led_storage_facts [simp]:
  "storage_up led_storage" "ms_nodes led_storage = Map.empty(''node-2'' \<mapsto> sample_leader)"
  by (simp_all add: led_storage_def) (simp_all add: ms_nodes_def new_storage_def)

theorem raft_step_down_blocks_witness:
  "candidate_final 0 0 (0, 0) ((sample_raft Candidate)\<lparr>ra_votes := []\<rparr>, new_storage) = Blocks
   \<and> leader_check 0 2 (sample_raft Follower, new_storage) = Blocks
   \<and> Raft_Stop 0 (sample_raft Leader, new_storage) = Blocks"
proof -
  have "\<not> majority_of 0 0 new_storage"
    using nodes_of_up(1) [OF new_storage_facts(1), of 0] by (auto simp: majority_of_def recent_nodes_def)
  then show ?thesis
    using raft_step_down_blocks [of "(sample_raft Candidate)\<lparr>ra_votes := []\<rparr>" 0 new_storage 0 "(0, 0)" 0]
      raft_step_down_blocks [of "sample_raft Follower" 0 new_storage 0 "(0, 0)" 2]
      raft_step_down_blocks [of "sample_raft Leader" 0 new_storage 0 "(0, 0)" 0]
    by (simp add: leadership_valid_def)
qed

theorem raft_candidate_wins_exactly_when_witness:
  "\<exists>r' e'. becomeLeader 0 0 (0, 0) (sample_raft Candidate, new_storage) = Returns ((), (r', e'))
    \<and> ra_state r' = Leader"
  using raft_candidate_wins_exactly_when [of "sample_raft Candidate" new_storage 0 0 "(0, 0)"]
  by (auto simp: recent_nodes_def active_rivals_def)

theorem loser_ignores_the_leader_witness:
  "\<exists>r' e'. becomeLeader 0 0 (0, 0) (sample_raft Candidate, led_storage) = Returns ((), (r', e'))
    \<and> ra_state r' = Follower \<and> ra_currentTerm r' = 2"
proof -
  have "\<forall>n i. ms_nodes led_storage i = Some n \<longrightarrow> ni_Term n \<le> ra_currentTerm (sample_raft Candidate)" by simp
  then show ?thesis
    using loser_ignores_the_leader [of "sample_raft Candidate" led_storage sample_leader 0 0 "(0, 0)"]
    by (fastforce simp: recent_nodes_def in_int64_def int64_def)
qed

theorem raft_leader_has_its_own_vote_witness:
  "\<exists>r e. raft_reach (AtLoop, NewRaftElection 0 ''n'' (seconds 1) (millis 100), new_storage) (AtLoop, r, e)
    \<and> ra_state r = Candidate \<and> mu r = Free"
proof -
  let ?r = "NewRaftElection 0 ''n'' (seconds 1) (millis 100)"
  have "follower_timeout (seconds 5) (0, 0) (\<lambda>r. r) (?r, new_storage) =
      Returns (True, (?r\<lparr>ra_state := Candidate\<rparr>, new_storage))"
    by (simp add: follower_timeout_def prog_simps run_becomeCandidate NewRaftElection_def time_Sub_def)
  from follower_times_out [OF this]
  have s: "raft_step (InFollower, ?r, new_storage) (AtLoop, ?r\<lparr>ra_state := Candidate\<rparr>, new_storage)" by simp
  have "raft_step (AtLoop, ?r, new_storage) (InFollower, ?r, new_storage)"
    by (rule enter_follower) (simp add: NewRaftElection_def)
  with s have "raft_reach (AtLoop, ?r, new_storage) (AtLoop, ?r\<lparr>ra_state := Candidate\<rparr>, new_storage)"
    by (meson here step_on)
  from raft_leader_has_its_own_vote [OF this] this show ?thesis
    by (intro exI [of _ "?r\<lparr>ra_state := Candidate\<rparr>"] exI [of _ new_storage]) simp
qed

theorem raft_terms_never_decrease_witness:
  "\<exists>r' e'. raft_step (AtLoop, NewRaftElection 0 ''n'' (seconds 1) (millis 100), new_storage) (InFollower, r', e')
    \<and> 0 \<le> ra_currentTerm r'"
proof -
  let ?r = "NewRaftElection 0 ''n'' (seconds 1) (millis 100)"
  have s: "raft_step (AtLoop, ?r, new_storage) (InFollower, ?r, new_storage)"
    by (rule enter_follower) (simp add: NewRaftElection_def)
  have "in_int64 (ra_currentTerm ?r + 1)" by (simp add: NewRaftElection_def in_int64_def)
  from raft_terms_never_decrease [OF here _ s this] s show ?thesis by (auto simp: NewRaftElection_def)
qed

theorem vote_counts_exactly_when_witness:
  "handleVoteResponse (0, 0) ''node-2'' \<lparr>vr_Term = 1, vr_VoteGranted = True\<rparr> (sample_raft Candidate, new_storage)
     = Returns ((), ((sample_raft Candidate)\<lparr>ra_votes := [''node-2'', ''node-1'']\<rparr>, new_storage))"
  using vote_counts_exactly_when [of "sample_raft Candidate" "(0, 0)" "''node-2''"
      "\<lparr>vr_Term = 1, vr_VoteGranted = True\<rparr>" new_storage]
  by (simp add: List.insert_def)

theorem election_timer_bounds_witness:
  "resetElectionTimer (7, 100) (sample_raft Follower, new_storage) =
     Returns ((), ((sample_raft Follower)\<lparr>ra_electionTimer := Some (millis 15107)\<rparr>, new_storage))"
  using election_timer_bounds [of "(7, 100)" "sample_raft Follower" new_storage] by simp

end
