(* ===== verification/Gossip.thy ===== *)
theory Gossip
  imports Complex_Main Locks NodeStore "HOL-Library.List_Lexorder" "HOL-Library.Char_ord"
begin

text \<open>
  The gossip election of \<open>internal/election/gossip.go\<close>: the table of members, its merging with
  received lists, the failure detector and the election by priority, every operation as a program
  under the node's mutex on the shared storage. The range loops over the table take the order of its
  keys as an argument, since Go leaves it open; the readings of the clock within one operation are
  one argument \<open>now\<close>, and what the random generator draws is an argument too. Messages that are
  handed to a goroutine for sending, and the calls of the callbacks, are recorded in fields of the
  state. A \<open>float64\<close> priority is the real number it denotes: only comparisons are made of it,
  and no NaN arises.
\<close>

section \<open>State\<close>

datatype GossipNodeState = Alive | Suspected | Failed

definition GossipNodeState_String :: "GossipNodeState \<Rightarrow> string" where
  "GossipNodeState_String s = (case s of Alive \<Rightarrow> ''Alive'' | Suspected \<Rightarrow> ''Suspected'' | Failed \<Rightarrow> ''Failed'')"

text \<open>The states in the order of their \<open>iota\<close> values, which is the order of decline.\<close>

fun iota :: "GossipNodeState \<Rightarrow> nat" where
  "iota Alive = 0" | "iota Suspected = 1" | "iota Failed = 2"

instantiation GossipNodeState :: linorder
begin

definition less_eq_GossipNodeState :: "GossipNodeState \<Rightarrow> GossipNodeState \<Rightarrow> bool" where
  "less_eq_GossipNodeState a b \<longleftrightarrow> iota a \<le> iota b"

definition less_GossipNodeState :: "GossipNodeState \<Rightarrow> GossipNodeState \<Rightarrow> bool" where
  "less_GossipNodeState a b \<longleftrightarrow> iota a < iota b"

instance
proof
  fix a b :: GossipNodeState
  show "a \<le> b \<Longrightarrow> b \<le> a \<Longrightarrow> a = b"
    by (cases a; cases b) (simp_all add: less_eq_GossipNodeState_def)
qed (auto simp: less_eq_GossipNodeState_def less_GossipNodeState_def)

end

text \<open>A value of the metadata: a \<open>float64\<close>, or of another type.\<close>

datatype meta = Float64 real | OtherMeta

record GossipMember =
  gm_ID :: string
  gm_Address :: string
  gm_State :: GossipNodeState
  gm_Incarnation :: int
  gm_LastSeen :: gtime
  gm_Metadata :: "string \<rightharpoonup> meta"

record SuspicionInfo =
  si_TargetID :: string
  si_SuspectorID :: string
  si_Incarnation :: int

record LeadershipInfo =
  li_LeaderID :: string
  li_Term :: int
  li_Priority :: real
  li_Timestamp :: gtime

record GossipMessage =
  gmsg_Type :: string
  gmsg_SenderID :: string
  gmsg_Members :: "GossipMember list"
  gmsg_Suspicion :: "SuspicionInfo option"
  gmsg_Leadership :: "LeadershipInfo option"
  gmsg_Timestamp :: gtime

record GossipElection = guarded +
  ge_nodeID :: string
  ge_address :: string
  ge_members :: "string \<rightharpoonup> GossipMember"
  ge_incarnation :: int
  ge_isLeader :: bool
  ge_currentLeader :: string
  ge_leaderTerm :: int
  ge_priority :: real
  ge_gossipInterval :: duration
  ge_suspicionTimeout :: duration
  ge_failureTimeout :: duration
  ge_lastGossip :: gtime
  ge_suspicions :: "string \<rightharpoonup> SuspicionInfo"
  ge_gossipTimer :: "duration option"
  ge_notified :: "(bool \<times> string) list"
  ge_sent :: "(string \<times> GossipMessage) list"

type_synonym ('d, 'a) gossip = "(GossipElection, 'd MongoStorage, 'a) prog"

text \<open>\<open>draw\<close> is \<open>rand.Float64()\<close>.\<close>

definition NewGossipElection :: "gtime \<Rightarrow> real \<Rightarrow> string \<Rightarrow> duration \<Rightarrow> duration \<Rightarrow> GossipElection" where
  "NewGossipElection now draw nodeID gossipInterval suspicionTimeout =
     \<lparr>mu = Free, ge_nodeID = nodeID, ge_address = ''localhost:8080'', ge_members = Map.empty,
      ge_incarnation = time_Unix now, ge_isLeader = False, ge_currentLeader = '''', ge_leaderTerm = 0,
      ge_priority = draw, ge_gossipInterval = gossipInterval, ge_suspicionTimeout = suspicionTimeout,
      ge_failureTimeout = int64 (suspicionTimeout * 2), ge_lastGossip = now, ge_suspicions = Map.empty,
      ge_gossipTimer = None, ge_notified = [], ge_sent = []\<rparr>"

section \<open>Timer, registration, callbacks\<close>

text \<open>\<open>n\<close> is what \<open>rand.Intn\<close> draws; it panics on an argument that is not positive,
  which is the case for an interval below a millisecond.\<close>

definition resetGossipTimer :: "int \<Rightarrow> ('d, unit) gossip" where
  "resetGossipTimer n = rbind (gets ge_gossipInterval) (\<lambda>gossipInterval.
     if gossipInterval < millis 1 then panic
     else modify (\<lambda>g. g\<lparr>ge_gossipTimer := Some (int64 (gossipInterval + millis n div 2))\<rparr>))"

text \<open>Unlike that of the Raft election it takes no lock.\<close>

definition updateNodeInfo :: "gtime \<Rightarrow> ('d, unit) gossip" where
  "updateNodeInfo now = rbind (gets (\<lambda>g. g)) (\<lambda>g.
     rthen (outside (RegisterNode now \<lparr>ni_ID = ge_nodeID g, ni_Address = ge_address g,
              ni_IsLeader = ge_isLeader g, ni_LastSeen = zero_time, ni_WorkerCount = 10,
              ni_Version = ''1.0.0'', ni_Term = 0\<rparr>))
       (ret ()))"

definition notifyCallbacks :: "('d, unit) gossip" where
  "notifyCallbacks = modify (\<lambda>g. g\<lparr>ge_notified := ge_notified g @ [(ge_isLeader g, ge_currentLeader g)]\<rparr>)"

definition own_member :: "gtime \<Rightarrow> GossipElection \<Rightarrow> GossipMember" where
  "own_member now g = \<lparr>gm_ID = ge_nodeID g, gm_Address = ge_address g, gm_State = Alive,
     gm_Incarnation = ge_incarnation g, gm_LastSeen = now,
     gm_Metadata = Map.empty(''priority'' \<mapsto> Float64 (ge_priority g))\<rparr>"

definition Gossip_Start :: "gtime \<Rightarrow> int \<Rightarrow> ('d, unit) gossip" where
  "Gossip_Start now n = rthen lock (
     rthen (modify (\<lambda>g. g\<lparr>ge_members := (ge_members g)(ge_nodeID g \<mapsto> own_member now g)\<rparr>))
     (rthen (resetGossipTimer n) unlock))"

definition Gossip_Stop :: "('d, unit) gossip" where
  "Gossip_Stop = rthen lock (rthen (modify (\<lambda>g. g\<lparr>ge_gossipTimer := None\<rparr>)) unlock)"

definition Gossip_IsLeader :: "('d, bool) gossip" where
  "Gossip_IsLeader = rlocked (gets ge_isLeader)"

definition Gossip_GetLeader :: "('d, string) gossip" where
  "Gossip_GetLeader = rlocked (gets ge_currentLeader)"

definition GetMembershipInfo :: "('d, string \<rightharpoonup> GossipMember) gossip" where
  "GetMembershipInfo = rlocked (gets ge_members)"

section \<open>Gossiping\<close>

text \<open>The targets: \<open>perm\<close> is what \<open>rand.Perm\<close> draws. It takes the read lock.\<close>

definition alive_peers :: "string list \<Rightarrow> GossipElection \<Rightarrow> string list" where
  "alive_peers ids g = filter (\<lambda>k. k \<noteq> ge_nodeID g
     \<and> (case ge_members g k of None \<Rightarrow> False | Some m \<Rightarrow> gm_State m = Alive)) ids"

definition selectGossipTargets :: "string list \<Rightarrow> nat list \<Rightarrow> nat \<Rightarrow> ('d, string list) gossip" where
  "selectGossipTargets ids perm limit = rlocked (rbind (gets (alive_peers ids)) (\<lambda>targets.
     if length targets \<le> limit then ret targets
     else ret (map (\<lambda>i. targets ! i) (take limit perm))))"

text \<open>The messages are handed to goroutines.\<close>

definition send_all :: "string list \<Rightarrow> GossipMessage \<Rightarrow> ('d, unit) gossip" where
  "send_all targets message = modify (\<lambda>g. g\<lparr>ge_sent := ge_sent g @ map (\<lambda>t. (t, message)) targets\<rparr>)"

text \<open>\<open>draws\<close> are the priorities drawn for the nodes that are new, one for each.\<close>

definition discover :: "gtime \<Rightarrow> (string \<Rightarrow> real) \<Rightarrow> NodeInfo \<Rightarrow> GossipElection \<Rightarrow> GossipElection" where
  "discover now draws n g =
     (if ni_ID n \<noteq> ge_nodeID g then
        case ge_members g (ni_ID n) of
          None \<Rightarrow> g\<lparr>ge_members := (ge_members g)(ni_ID n \<mapsto>
              \<lparr>gm_ID = ni_ID n, gm_Address = ni_Address n, gm_State = Alive,
               gm_Incarnation = time_Unix now, gm_LastSeen = ni_LastSeen n,
               gm_Metadata = Map.empty(''priority'' \<mapsto> Float64 (draws (ni_ID n)))\<rparr>)\<rparr>
        | Some m \<Rightarrow> g\<lparr>ge_members := (ge_members g)(ni_ID n \<mapsto> m\<lparr>gm_LastSeen := ni_LastSeen n\<rparr>)\<rparr>
      else g)"

definition discoverNodes :: "gtime \<Rightarrow> (string \<Rightarrow> real) \<Rightarrow> ('d, unit) gossip" where
  "discoverNodes now draws = rbind (outside (GetNodes now)) (\<lambda>(nodes, err).
     if err \<noteq> None then ret ()
     else locked (modify (fold (discover now draws) nodes)))"

definition member_list :: "string list \<Rightarrow> GossipElection \<Rightarrow> GossipMember list" where
  "member_list ids g = List.map_filter (ge_members g) ids"

definition membership_message :: "gtime \<Rightarrow> string list \<Rightarrow> GossipElection \<Rightarrow> GossipMessage" where
  "membership_message now ids g = \<lparr>gmsg_Type = ''membership'', gmsg_SenderID = ge_nodeID g,
     gmsg_Members = member_list ids g, gmsg_Suspicion = None,
     gmsg_Leadership = (if ge_isLeader g
       then Some \<lparr>li_LeaderID = ge_nodeID g, li_Term = ge_leaderTerm g, li_Priority = ge_priority g, li_Timestamp = now\<rparr>
       else None),
     gmsg_Timestamp = now\<rparr>"

text \<open>The table is traversed once to build the message (\<open>ids\<close>) and once to choose the targets
  (\<open>ids'\<close>).\<close>

definition performGossipRound ::
  "gtime \<Rightarrow> string list \<Rightarrow> (string \<Rightarrow> real) \<Rightarrow> string list \<Rightarrow> nat list \<Rightarrow> ('d, unit) gossip" where
  "performGossipRound now ids draws ids' perm =
     rbind (rlocked (gets (membership_message now ids))) (\<lambda>message.
     rthen (discoverNodes now draws)
     (rbind (selectGossipTargets ids' perm 3) (\<lambda>targets. send_all targets message)))"

section \<open>Receiving\<close>

text \<open>One received member: the own entry is left alone, an unknown member is added, a known one is
  replaced, but for identifier and address, by a greater incarnation.\<close>

definition merge_member :: "GossipMember \<Rightarrow> GossipElection \<Rightarrow> GossipElection" where
  "merge_member m g =
     (if gm_ID m = ge_nodeID g then g
      else case ge_members g (gm_ID m) of
          None \<Rightarrow> g\<lparr>ge_members := (ge_members g)(gm_ID m \<mapsto> m)\<rparr>
        | Some x \<Rightarrow>
            if gm_Incarnation x < gm_Incarnation m
            then g\<lparr>ge_members := (ge_members g)(gm_ID m \<mapsto>
                x\<lparr>gm_Incarnation := gm_Incarnation m, gm_State := gm_State m,
                   gm_LastSeen := gm_LastSeen m, gm_Metadata := gm_Metadata m\<rparr>)\<rparr>
            else g)"

definition mergeMemberList :: "GossipMember list \<Rightarrow> ('d, unit) gossip" where
  "mergeMemberList members = modify (fold merge_member members)"

definition handleLeadershipInfo :: "gtime \<Rightarrow> LeadershipInfo \<Rightarrow> ('d, unit) gossip" where
  "handleLeadershipInfo now leadership = rbind (gets (\<lambda>g. g)) (\<lambda>g.
     if ge_leaderTerm g < li_Term leadership then
       rthen (modify (\<lambda>g. g\<lparr>ge_currentLeader := li_LeaderID leadership, ge_leaderTerm := li_Term leadership,
                          ge_isLeader := (li_LeaderID leadership = ge_nodeID g)\<rparr>))
       (if ge_currentLeader g \<noteq> li_LeaderID leadership
        then rthen (updateNodeInfo now) notifyCallbacks
        else ret ())
     else ret ())"

definition handleSuspicion :: "SuspicionInfo \<Rightarrow> ('d, unit) gossip" where
  "handleSuspicion suspicion = rbind (gets (\<lambda>g. g)) (\<lambda>g.
     case ge_members g (si_TargetID suspicion) of
       None \<Rightarrow> ret ()
     | Some m \<Rightarrow>
         if gm_Incarnation m \<le> si_Incarnation suspicion \<and> gm_State m = Alive
         then modify (\<lambda>g. g\<lparr>ge_members := (ge_members g)(si_TargetID suspicion \<mapsto> m\<lparr>gm_State := Suspected\<rparr>),
                            ge_suspicions := (ge_suspicions g)(si_TargetID suspicion \<mapsto> suspicion)\<rparr>)
         else ret ())"

definition handleGossipMessage :: "gtime \<Rightarrow> GossipMessage \<Rightarrow> ('d, unit) gossip" where
  "handleGossipMessage now message = locked (
     if gmsg_Type message = ''membership'' then
       rthen (mergeMemberList (gmsg_Members message))
         (case gmsg_Leadership message of None \<Rightarrow> ret () | Some l \<Rightarrow> handleLeadershipInfo now l)
     else if gmsg_Type message = ''suspicion'' then
       (case gmsg_Suspicion message of None \<Rightarrow> ret () | Some s \<Rightarrow> handleSuspicion s)
     else ret ())"

text \<open>The code answers its own messages: \<open>keep\<close> says for which members
  \<open>rand.Float32() > 0.7\<close>.\<close>

definition simulateGossipResponse ::
  "gtime \<Rightarrow> string list \<Rightarrow> (string \<Rightarrow> bool) \<Rightarrow> string \<Rightarrow> GossipMessage \<Rightarrow> ('d, unit) gossip" where
  "simulateGossipResponse now ids keep targetID message =
     rbind (rlocked (gets (member_list (filter keep ids)))) (\<lambda>responseMembers.
     handleGossipMessage now \<lparr>gmsg_Type = ''membership'', gmsg_SenderID = targetID,
       gmsg_Members = responseMembers, gmsg_Suspicion = None, gmsg_Leadership = None, gmsg_Timestamp = now\<rparr>)"

text \<open>After a random pause.\<close>

definition sendGossipMessage ::
  "gtime \<Rightarrow> string list \<Rightarrow> (string \<Rightarrow> bool) \<Rightarrow> string \<Rightarrow> GossipMessage \<Rightarrow> ('d, unit) gossip" where
  "sendGossipMessage now ids keep targetID message = simulateGossipResponse now ids keep targetID message"

section \<open>The failure detector\<close>

definition propagateSuspicion :: "gtime \<Rightarrow> string list \<Rightarrow> nat list \<Rightarrow> string \<Rightarrow> ('d, unit) gossip" where
  "propagateSuspicion now ids perm targetID = rbind (gets (\<lambda>g. g)) (\<lambda>g.
     case ge_suspicions g targetID of
       None \<Rightarrow> ret ()
     | Some s \<Rightarrow> rbind (selectGossipTargets ids perm 2) (\<lambda>targets. send_all targets
         \<lparr>gmsg_Type = ''suspicion'', gmsg_SenderID = ge_nodeID g, gmsg_Members = [], gmsg_Suspicion = Some s,
          gmsg_Leadership = None, gmsg_Timestamp = now\<rparr>))"

definition suspect :: "string \<Rightarrow> GossipMember \<Rightarrow> GossipElection \<Rightarrow> GossipElection" where
  "suspect k m g = g\<lparr>ge_members := (ge_members g)(k \<mapsto> m\<lparr>gm_State := Suspected\<rparr>),
     ge_suspicions := (ge_suspicions g)(k \<mapsto> \<lparr>si_TargetID = k, si_SuspectorID = ge_nodeID g,
        si_Incarnation = gm_Incarnation m\<rparr>)\<rparr>"

definition fail_member :: "string \<Rightarrow> GossipMember \<Rightarrow> GossipElection \<Rightarrow> GossipElection" where
  "fail_member k m g = g\<lparr>ge_members := (ge_members g)(k \<mapsto> m\<lparr>gm_State := Failed\<rparr>),
     ge_suspicions := (ge_suspicions g)(k := None)\<rparr>"

text \<open>The first loop of \<open>updateMemberStates\<close>.\<close>

fun member_states :: "gtime \<Rightarrow> string list \<Rightarrow> nat list \<Rightarrow> string list \<Rightarrow> ('d, unit) gossip" where
  "member_states now ids' perm [] = ret ()"
| "member_states now ids' perm (k # ids) = rbind (gets (\<lambda>g. g)) (\<lambda>g.
     if k = ge_nodeID g then member_states now ids' perm ids
     else case ge_members g k of
         None \<Rightarrow> member_states now ids' perm ids
       | Some m \<Rightarrow>
           let timeSinceLastSeen = time_Sub now (gm_LastSeen m)
           in rthen (case gm_State m of
                Alive \<Rightarrow> if ge_suspicionTimeout g < timeSinceLastSeen
                  then rthen (modify (suspect k m)) (propagateSuspicion now ids' perm k) else ret ()
              | Suspected \<Rightarrow> if ge_failureTimeout g < timeSinceLastSeen then modify (fail_member k m) else ret ()
              | Failed \<Rightarrow> ret ())
              (member_states now ids' perm ids))"

text \<open>The second: the failed members unseen for long are deleted.\<close>

definition drop_member :: "gtime \<Rightarrow> string \<Rightarrow> GossipElection \<Rightarrow> GossipElection" where
  "drop_member now k g = (case ge_members g k of
       None \<Rightarrow> g
     | Some m \<Rightarrow>
         if gm_State m = Failed \<and> int64 (ge_failureTimeout g * 2) < time_Sub now (gm_LastSeen m)
         then g\<lparr>ge_members := (ge_members g)(k := None)\<rparr> else g)"

definition updateMemberStates :: "gtime \<Rightarrow> string list \<Rightarrow> string list \<Rightarrow> string list \<Rightarrow> nat list \<Rightarrow> ('d, unit) gossip" where
  "updateMemberStates now ids ids2 ids' perm =
     locked (rthen (member_states now ids' perm ids) (modify (fold (drop_member now) ids2)))"

section \<open>The election\<close>

text \<open>The highest priority so far and who has it; it starts at \<open>-1.0\<close>.\<close>

definition elect_scan :: "GossipElection \<Rightarrow> string \<Rightarrow> real \<times> string list \<Rightarrow> real \<times> string list" where
  "elect_scan g k = (\<lambda>(highestPriority, candidates). case ge_members g k of
       None \<Rightarrow> (highestPriority, candidates)
     | Some m \<Rightarrow>
         if gm_State m = Alive then
           (case gm_Metadata m ''priority'' of
              Some (Float64 priority) \<Rightarrow>
                if highestPriority < priority then (priority, [k])
                else if priority = highestPriority then (highestPriority, candidates @ [k])
                else (highestPriority, candidates)
            | _ \<Rightarrow> (highestPriority, candidates))
         else (highestPriority, candidates))"

definition least_candidate :: "string \<Rightarrow> string \<Rightarrow> string" where
  "least_candidate candidate newLeader = (if candidate < newLeader \<or> newLeader = '''' then candidate else newLeader)"

definition propagateLeadership :: "gtime \<Rightarrow> string list \<Rightarrow> nat list \<Rightarrow> ('d, unit) gossip" where
  "propagateLeadership now ids perm = rbind (gets (\<lambda>g. g)) (\<lambda>g.
     rbind (selectGossipTargets ids perm (card (dom (ge_members g)))) (\<lambda>targets. send_all targets
       \<lparr>gmsg_Type = ''leadership'', gmsg_SenderID = ge_nodeID g, gmsg_Members = [], gmsg_Suspicion = None,
        gmsg_Leadership = Some \<lparr>li_LeaderID = ge_nodeID g, li_Term = ge_leaderTerm g,
          li_Priority = ge_priority g, li_Timestamp = now\<rparr>, gmsg_Timestamp = now\<rparr>))"

definition take_leader :: "string \<Rightarrow> GossipElection \<Rightarrow> GossipElection" where
  "take_leader newLeader g = g\<lparr>ge_currentLeader := newLeader, ge_leaderTerm := int64 (ge_leaderTerm g + 1),
     ge_isLeader := (newLeader = ge_nodeID g)\<rparr>"

definition electLeader :: "gtime \<Rightarrow> string list \<Rightarrow> string list \<Rightarrow> nat list \<Rightarrow> ('d, unit) gossip" where
  "electLeader now ids ids' perm = locked (rbind (gets (\<lambda>g. g)) (\<lambda>g.
     let candidates = snd (fold (elect_scan g) ids (-1, []))
     in if candidates = [] then ret ()
        else let newLeader = (if length candidates = 1 then hd candidates else fold least_candidate candidates '''')
          in if newLeader \<noteq> ge_currentLeader g then
               rthen (modify (take_leader newLeader))
               (rthen (updateNodeInfo now)
               (rthen notifyCallbacks
               (rbind (gets ge_isLeader) (\<lambda>isLeader.
                  if isLeader then propagateLeadership now ids' perm else ret ()))))
             else ret ()))"

text \<open>A tick of the membership maintenance.\<close>

definition maintenance ::
  "gtime \<Rightarrow> string list \<Rightarrow> string list \<Rightarrow> string list \<Rightarrow> string list \<Rightarrow> nat list \<Rightarrow> ('d, unit) gossip" where
  "maintenance now ids ids2 ids3 ids' perm =
     rthen (updateMemberStates now ids ids2 ids' perm) (electLeader now ids3 ids' perm)"


section \<open>Running the parts\<close>

lemma gossip_mu_same [simp]: "mu g = m \<Longrightarrow> g\<lparr>mu := m\<rparr> = (g :: GossipElection)"
  by (cases g) simp

lemma run_targets [prog_simps]:
  "mu g = WHeld \<Longrightarrow> selectGossipTargets ks perm n (g, e) = Blocks"
  "mu g = Free \<Longrightarrow> selectGossipTargets ks perm n (g, e) = Returns
     (if length (alive_peers ks g) \<le> n then alive_peers ks g
      else map (\<lambda>i. alive_peers ks g ! i) (take n perm), (g, e))"
  by (auto simp: selectGossipTargets_def alive_peers_def prog_simps)

definition gossip_registration :: "GossipElection \<Rightarrow> NodeInfo" where
  "gossip_registration g = \<lparr>ni_ID = ge_nodeID g, ni_Address = ge_address g, ni_IsLeader = ge_isLeader g,
     ni_LastSeen = zero_time, ni_WorkerCount = 10, ni_Version = ''1.0.0'', ni_Term = 0\<rparr>"

lemma run_register [prog_simps]:
  "updateNodeInfo now (g, e) = Returns ((), (g, snd (RegisterNode now (gossip_registration g) e)))"
  by (simp add: updateNodeInfo_def gossip_registration_def prog_simps)

lemma run_callbacks [prog_simps]:
  "notifyCallbacks (g, e) = Returns ((), (g\<lparr>ge_notified := ge_notified g @ [(ge_isLeader g, ge_currentLeader g)]\<rparr>, e))"
  by (simp add: notifyCallbacks_def prog_simps)

lemma run_send [prog_simps]:
  "send_all ts msg (g, e) = Returns ((), (g\<lparr>ge_sent := ge_sent g @ map (\<lambda>t. (t, msg)) ts\<rparr>, e))"
  by (simp add: send_all_def prog_simps)

lemma run_merge [prog_simps]:
  "mergeMemberList ms (g, e) = Returns ((), (fold merge_member ms g, e))"
  by (simp add: mergeMemberList_def prog_simps)

section \<open>The failure detector\<close>

text \<open>The node is an alive member that has not been seen within the suspicion timeout.\<close>

definition overdue :: "gtime \<Rightarrow> GossipElection \<Rightarrow> string \<Rightarrow> bool" where
  "overdue now g k \<longleftrightarrow> k \<noteq> ge_nodeID g \<and> (case ge_members g k of None \<Rightarrow> False
     | Some m \<Rightarrow> gm_State m = Alive \<and> ge_suspicionTimeout g < time_Sub now (gm_LastSeen m))"

lemma overdue_mu [simp]: "overdue now (g\<lparr>mu := x\<rparr>) = overdue now g"
  by (auto simp: overdue_def fun_eq_iff split: option.splits)

lemma overdue_fail:
  "gm_State m = Suspected \<Longrightarrow> ge_members g k = Some m \<Longrightarrow> overdue now (fail_member k m g) = overdue now g"
  by (rule ext) (auto simp: overdue_def fail_member_def split: option.splits)

lemma mu_fail [simp]: "mu (fail_member k m g) = mu g"
  by (simp add: fail_member_def)

lemma propagate_blocks:
  "mu g = WHeld \<Longrightarrow> ge_suspicions g k \<noteq> None \<Longrightarrow> propagateSuspicion now ks perm k (g, e) = Blocks"
  by (auto simp: propagateSuspicion_def prog_simps)

lemma member_states_blocks:
  assumes "k \<in> set ks" and "overdue now g k" and "mu g = WHeld"
  shows "member_states now ks' perm ks (g, e) = Blocks"
  using assms
proof (induction ks arbitrary: g)
  case (Cons x ks)
  show ?case
  proof (cases "overdue now g x")
    case True
    with Cons.prems(3) show ?thesis
      by (auto simp: overdue_def prog_simps Let_def suspect_def propagate_blocks split: option.splits)
  next
    case False
    with Cons.prems have k: "k \<in> set ks" by auto
    note IH = Cons.IH [OF k]
    show ?thesis
    proof (cases "x = ge_nodeID g \<or> ge_members g x = None")
      case True
      with IH [OF Cons.prems(2,3)] show ?thesis by (auto simp: prog_simps)
    next
      case in_table: False
      then obtain m where m: "ge_members g x = Some m" "x \<noteq> ge_nodeID g" by auto
      with False IH [OF Cons.prems(2,3)] IH [of "fail_member x m g"] Cons.prems(2,3) show ?thesis
        by (cases "gm_State m") (auto simp: overdue_def [of now g x] prog_simps Let_def overdue_fail)
    qed
  qed
qed simp

definition decline :: "gtime \<Rightarrow> GossipElection \<Rightarrow> GossipMember \<Rightarrow> GossipMember" where
  "decline now g m = (if gm_State m = Suspected \<and> ge_failureTimeout g < time_Sub now (gm_LastSeen m)
     then m\<lparr>gm_State := Failed\<rparr> else m)"

definition declines :: "gtime \<Rightarrow> GossipElection \<Rightarrow> string \<Rightarrow> bool" where
  "declines now g k \<longleftrightarrow> k \<noteq> ge_nodeID g \<and> (case ge_members g k of None \<Rightarrow> False
     | Some m \<Rightarrow> gm_State m = Suspected \<and> ge_failureTimeout g < time_Sub now (gm_LastSeen m))"

definition declined :: "gtime \<Rightarrow> string set \<Rightarrow> GossipElection \<Rightarrow> GossipElection" where
  "declined now K g = g\<lparr>
     ge_members := (\<lambda>k. if k \<in> K \<and> k \<noteq> ge_nodeID g then map_option (decline now g) (ge_members g k) else ge_members g k),
     ge_suspicions := (\<lambda>k. if k \<in> K \<and> declines now g k then None else ge_suspicions g k)\<rparr>"

lemma declined_empty: "declined now {} g = g"
  by (simp add: declined_def)

lemma decline_tables [simp]:
  "decline now (g\<lparr>ge_members := a, ge_suspicions := b\<rparr>) = decline now g"
  by (rule ext) (simp add: decline_def)

lemma declined_member:
  "declined now (insert k K) g = declined now K (if declines now g k then fail_member k (the (ge_members g k)) g else g)"
proof -
  have "decline now g m = m" if "\<not> declines now g k" "k \<noteq> ge_nodeID g" "ge_members g k = Some m" for m
    using that by (auto simp: declines_def decline_def)
  then show ?thesis
    by (auto simp: declined_def declines_def decline_def fail_member_def fun_eq_iff
        split: option.splits intro!: GossipElection.equality)
qed

lemma member_states_runs:
  assumes "\<not> (\<exists>k\<in>set ks. overdue now g k)"
  shows "member_states now ks' perm ks (g, e) = Returns ((), (declined now (set ks) g, e))"
  using assms
proof (induction ks arbitrary: g)
  case Nil
  then show ?case by (simp add: prog_simps declined_empty)
next
  case (Cons k ks)
  show ?case
  proof (cases "declines now g k")
    case True
    then obtain m where m: "ge_members g k = Some m" "gm_State m = Suspected"
      by (auto simp: declines_def split: option.splits)
    with Cons.prems have "\<not> (\<exists>x\<in>set ks. overdue now (fail_member k m g) x)" by (simp add: overdue_fail)
    from Cons.IH [OF this] m True show ?thesis
      by (simp add: declined_member [of now k] prog_simps Let_def) (simp add: declines_def)
  next
    case False
    with Cons show ?thesis
      by (auto simp: declined_member [of now k] prog_simps Let_def declines_def overdue_def
          split: option.splits GossipNodeState.splits)
  qed
qed

lemma drop_members:
  "fold (drop_member now) ks g = g\<lparr>ge_members := (\<lambda>k. case ge_members g k of None \<Rightarrow> None
     | Some m \<Rightarrow> if k \<in> set ks \<and> gm_State m = Failed \<and> int64 (ge_failureTimeout g * 2) < time_Sub now (gm_LastSeen m)
       then None else Some m)\<rparr>"
proof (induction ks arbitrary: g)
  case Nil
  show ?case by (auto simp: fun_eq_iff intro!: GossipElection.equality split: option.splits)
next
  case (Cons x ks)
  show ?case
    by (simp add: Cons.IH) (auto simp: drop_member_def fun_eq_iff intro!: GossipElection.equality split: option.splits)
qed

text \<open>What a pass of the failure detector makes of a member of another node: the state it declines
  to, or its removal.\<close>

definition checked_member :: "gtime \<Rightarrow> GossipElection \<Rightarrow> GossipMember \<Rightarrow> GossipMember option" where
  "checked_member now g m = (let m' = decline now g m in
     if gm_State m' = Failed \<and> int64 (ge_failureTimeout g * 2) < time_Sub now (gm_LastSeen m) then None else Some m')"

lemma run_detector:
  assumes "mu g = Free" and "set ks = dom (ge_members g)" and "set ks2 = dom (ge_members g)"
    and "\<And>m. ge_members g (ge_nodeID g) = Some m \<Longrightarrow> gm_State m = Alive"
  shows "updateMemberStates now ks ks2 ks' perm (g, e) =
    (if \<exists>k. overdue now g k then Blocks
     else Returns ((), (g\<lparr>ge_members := (\<lambda>k. if k = ge_nodeID g then ge_members g k
                             else Option.bind (ge_members g k) (checked_member now g)),
                          ge_suspicions := (\<lambda>k. if declines now g k then None else ge_suspicions g k)\<rparr>, e)))"
proof (cases "\<exists>k. overdue now g k")
  case True
  then obtain k where "overdue now g k" by blast
  moreover from this assms(2) have "k \<in> set ks" by (auto simp: overdue_def split: option.splits)
  ultimately have "member_states now ks' perm ks (g\<lparr>mu := WHeld\<rparr>, e) = Blocks"
    by (intro member_states_blocks [of k]) simp_all
  with True assms(1) show ?thesis by (simp add: updateMemberStates_def prog_simps)
next
  case False
  let ?g = "g\<lparr>mu := WHeld\<rparr>"
  from False have "\<not> (\<exists>k\<in>set ks. overdue now ?g k)" by simp
  from member_states_runs [OF this] have r: "member_states now ks' perm ks (?g, e) = Returns ((), (declined now (set ks) ?g, e))" .
  have d: "decline now ?g = decline now g" "declines now ?g = declines now g"
    by (auto simp: decline_def declines_def fun_eq_iff split: option.splits)
  have in_ks: "k \<in> set ks \<longleftrightarrow> ge_members g k \<noteq> None" "k \<in> set ks2 \<longleftrightarrow> ge_members g k \<noteq> None" for k
    using assms(2,3) by auto
  have out: "declines now g k \<Longrightarrow> ge_members g k \<noteq> None" for k by (auto simp: declines_def split: option.splits)
  have m: "ge_members (fold (drop_member now) ks2 (declined now (set ks) ?g)) =
      (\<lambda>k. if k = ge_nodeID g then ge_members g k else Option.bind (ge_members g k) (checked_member now g))"
    using assms(4)
    by (rule_tac ext) (auto simp: drop_members declined_def d in_ks checked_member_def Let_def decline_def split: option.splits)
  have "fold (drop_member now) ks2 (declined now (set ks) ?g) = ?g\<lparr>
      ge_members := (\<lambda>k. if k = ge_nodeID g then ge_members g k else Option.bind (ge_members g k) (checked_member now g)),
      ge_suspicions := (\<lambda>k. if declines now g k then None else ge_suspicions g k)\<rparr>"
    using out by (intro GossipElection.equality m [THEN trans])
      (auto simp: drop_members declined_def d in_ks fun_eq_iff)
  with False assms(1) r show ?thesis
    by (simp add: updateMemberStates_def prog_simps)
qed


text \<open>A pass of the failure detector over the whole table: if an alive member of another node has not
  been seen within the suspicion timeout, the node waits for its own lock for ever, since
  announcing the suspicion takes the read lock; otherwise the suspected members unseen for the
  failure timeout have failed, the failed ones unseen for twice that are gone, and the others and
  the own entry are as before.\<close>

theorem failure_detector:
  assumes "mu g = Free" and "set ks = dom (ge_members g)" and "set ks2 = dom (ge_members g)"
    and "\<And>m. ge_members g (ge_nodeID g) = Some m \<Longrightarrow> gm_State m = Alive"
  shows "updateMemberStates now ks ks2 ks' perm (g, e) =
    (if \<exists>k. overdue now g k then Blocks
     else Returns ((), (g\<lparr>ge_members := (\<lambda>k. if k = ge_nodeID g then ge_members g k
                             else Option.bind (ge_members g k) (checked_member now g)),
                          ge_suspicions := (\<lambda>k. if declines now g k then None else ge_suspicions g k)\<rparr>, e)))"
  using assms by (rule run_detector)

section \<open>The election\<close>

text \<open>The alive members that state a priority.\<close>

definition standing :: "GossipElection \<Rightarrow> string \<Rightarrow> real \<Rightarrow> bool" where
  "standing g k p \<longleftrightarrow> (case ge_members g k of None \<Rightarrow> False
     | Some m \<Rightarrow> gm_State m = Alive \<and> gm_Metadata m ''priority'' = Some (Float64 p))"

lemma standing_unique: "standing g k p \<Longrightarrow> standing g k q \<Longrightarrow> p = q"
  by (auto simp: standing_def split: option.splits)

lemma standing_mu [simp]: "standing (g\<lparr>mu := x\<rparr>) = standing g"
  by (simp add: standing_def fun_eq_iff)

lemma elect_scan_standing:
  "standing g k p \<Longrightarrow> elect_scan g k (h, cs) =
     (if h < p then (p, [k]) else if p = h then (h, cs @ [k]) else (h, cs))"
  "\<nexists>p. standing g k p \<Longrightarrow> elect_scan g k (h, cs) = (h, cs)"
  by (auto simp: standing_def elect_scan_def split: option.splits meta.splits)

text \<open>The scan keeps the highest priority and everyone who has it, in any order.\<close>

lemma elect_scan_best:
  assumes "fold (elect_scan g) ks (h, cs) = (h', cs')"
  shows "h \<le> h' \<and> (\<forall>k\<in>set ks. \<forall>p. standing g k p \<longrightarrow> p \<le> h')
    \<and> set cs' = {k \<in> set ks. standing g k h'} \<union> (if h' = h then set cs else {})
    \<and> (h' \<noteq> h \<longrightarrow> (\<exists>k\<in>set ks. standing g k h'))"
  using assms
proof (induction ks arbitrary: h cs)
  case (Cons k ks)
  show ?case
  proof (cases "\<exists>p. standing g k p")
    case True
    then obtain p where p: "standing g k p" by blast
    note eq = elect_scan_standing(1) [OF p, of h cs]
    have only: "standing g k q \<longleftrightarrow> q = p" for q using p standing_unique by blast
    consider "h < p" | "p = h" | "p < h" by linarith
    then show ?thesis
    proof cases
      case 1
      with Cons.prems eq have "fold (elect_scan g) ks (p, [k]) = (h', cs')" by simp
      from Cons.IH [OF this] 1 only show ?thesis by auto
    next
      case 2
      with Cons.prems eq have "fold (elect_scan g) ks (h, cs @ [k]) = (h', cs')" by simp
      from Cons.IH [OF this] 2 only show ?thesis by auto
    next
      case 3
      with Cons.prems eq have "fold (elect_scan g) ks (h, cs) = (h', cs')" by simp
      from Cons.IH [OF this] 3 only show ?thesis by auto
    qed
  next
    case False
    with Cons.prems have "fold (elect_scan g) ks (h, cs) = (h', cs')" by (simp add: elect_scan_standing(2))
    from Cons.IH [OF this] False show ?thesis by auto
  qed
qed auto

lemma least_candidates:
  assumes "'''' \<notin> set cs" and "cs \<noteq> []"
  shows "fold least_candidate cs '''' = Min (set cs)"
proof -
  have "fold least_candidate cs x = Min (insert x (set cs))" if "x \<noteq> ''''" "'''' \<notin> set cs" for x and cs :: "string list"
    using that
  proof (induction cs arbitrary: x)
    case (Cons c cs)
    have "least_candidate c x = min c x" using Cons.prems(1) by (auto simp: least_candidate_def min_def)
    moreover have "min c x \<noteq> ''''" using Cons.prems by (auto simp: min_def)
    ultimately have "fold least_candidate (c # cs) x = Min (insert (min c x) (set cs))"
      using Cons.IH [of "min c x"] Cons.prems(2) by simp
    then show ?case
      by (cases "set cs = {}") (simp_all add: insert_commute min.commute min.assoc min.left_commute)
  qed simp
  with assms show ?thesis by (cases cs) (auto simp: least_candidate_def)
qed

definition best :: "GossipElection \<Rightarrow> string set" where
  "best g = {k. \<exists>p \<ge> -1. standing g k p \<and> (\<forall>k' p'. standing g k' p' \<longrightarrow> p' \<le> p)}"

lemma candidates_are_the_best:
  assumes "set ks = dom (ge_members g)"
  shows "set (snd (fold (elect_scan g) ks (-1, []))) = best g"
proof -
  obtain h cs where f: "fold (elect_scan g) ks (-1, []) = (h, cs)" by fastforce
  have s: "k \<in> set ks" if "standing g k p" for k p
    using that assms by (auto simp: standing_def split: option.splits)
  from elect_scan_best [OF f] have h: "-1 \<le> h" "\<And>k p. standing g k p \<Longrightarrow> p \<le> h" "set cs = {k. standing g k h}"
    and a: "h \<noteq> -1 \<longrightarrow> (\<exists>k. standing g k h)"
    using s by (auto split: if_splits)
  have "{k. standing g k h} = best g"
  proof (rule set_eqI)
    fix k
    show "k \<in> {k. standing g k h} \<longleftrightarrow> k \<in> best g"
    proof
      assume "k \<in> {k. standing g k h}"
      with h(1,2) show "k \<in> best g" by (auto simp: best_def)
    next
      assume "k \<in> best g"
      then obtain p where p: "-1 \<le> p" "standing g k p" "\<forall>k' p'. standing g k' p' \<longrightarrow> p' \<le> p"
        by (auto simp: best_def)
      have "p = h"
      proof (cases "h = -1")
        case True
        with p(1) h(2) [OF p(2)] show ?thesis by simp
      next
        case False
        with a p(3) have "h \<le> p" by blast
        with h(2) [OF p(2)] show ?thesis by simp
      qed
      with p(2) show "k \<in> {k. standing g k h}" by simp
    qed
  qed
  with f h(3) show ?thesis by simp
qed


lemma propagate_leadership_blocks: "mu g = WHeld \<Longrightarrow> propagateLeadership now ks perm (g, e) = Blocks"
  by (simp add: propagateLeadership_def prog_simps)

text \<open>The state after another node was elected.\<close>

definition follow :: "string \<Rightarrow> GossipElection \<Rightarrow> GossipElection" where
  "follow leader g = (take_leader leader g)\<lparr>ge_notified := ge_notified g @ [(False, leader)]\<rparr>"

lemma run_elect:
  assumes "mu g = Free" and "snd (fold (elect_scan g) ks (-1, [])) = cs"
    and "leader = (if length cs = 1 then hd cs else fold least_candidate cs '''')"
  shows "electLeader now ks ks' perm (g, e) =
    (if cs = [] \<or> leader = ge_currentLeader g then Returns ((), (g, e))
     else if leader = ge_nodeID g then Blocks
     else Returns ((), (follow leader g, snd (RegisterNode now (gossip_registration (take_leader leader g)) e))))"
proof -
  have "elect_scan (g\<lparr>mu := WHeld\<rparr>) = elect_scan g" by (simp add: elect_scan_def fun_eq_iff)
  with assms show ?thesis
    by (auto simp: electLeader_def prog_simps Let_def take_leader_def propagate_leadership_blocks
        follow_def gossip_registration_def)
qed

text \<open>C28: Whatever the order of the table, the elected leader is the least identifier among the alive
  members of the highest priority. When that is another node and a new one, the node stores itself
  as no leader, calls the callbacks and counts the term; when it is the node itself, the node waits
  for its own lock for ever, since announcing the leadership takes the read lock.\<close>

theorem gossip_elects_the_least_of_the_best:
  assumes "mu g = Free" and "set ks = dom (ge_members g)" and "ge_members g '''' = None"
  shows "electLeader now ks ks' perm (g, e) =
    (if best g = {} \<or> Min (best g) = ge_currentLeader g then Returns ((), (g, e))
     else if Min (best g) = ge_nodeID g then Blocks
     else Returns ((), (follow (Min (best g)) g,
            snd (RegisterNode now (gossip_registration (take_leader (Min (best g)) g)) e))))"
proof -
  let ?cs = "snd (fold (elect_scan g) ks (-1, []))"
  have cs: "set ?cs = best g" by (rule candidates_are_the_best [OF assms(2)])
  have "'''' \<notin> best g" using assms(3) by (auto simp: best_def standing_def)
  with cs have least: "fold least_candidate ?cs '''' = Min (best g)" if "?cs \<noteq> []"
    using least_candidates [of ?cs] that by simp
  have one: "(if length ?cs = 1 then hd ?cs else fold least_candidate ?cs '''') = Min (best g)" if "?cs \<noteq> []"
  proof (cases "length ?cs = 1")
    case True
    then obtain c where "?cs = [c]" by (cases ?cs) auto
    with cs have "best g = {c}" by simp
    with \<open>?cs = [c]\<close> show ?thesis by simp
  qed (simp add: least that)
  have "?cs = [] \<longleftrightarrow> best g = {}" using cs by auto
  with run_elect [OF assms(1) refl refl, of now ks ks' perm e] one show ?thesis by (cases "?cs = []") simp_all
qed

section \<open>Merging\<close>

lemma merge_other [simp]: "gm_ID m \<noteq> k \<Longrightarrow> ge_members (merge_member m g) k = ge_members g k"
  by (auto simp: merge_member_def split: option.splits)

lemma merge_own [simp]: "ge_nodeID (merge_member m g) = ge_nodeID g" "mu (merge_member m g) = mu g"
  by (auto simp: merge_member_def split: option.splits)

lemma merge_own_entry [simp]: "ge_members (merge_member m g) (ge_nodeID g) = ge_members g (ge_nodeID g)"
  by (auto simp: merge_member_def split: option.splits)

lemma merges_own: "ge_nodeID (fold merge_member ms g) = ge_nodeID g" "mu (fold merge_member ms g) = mu g"
  by (induction ms arbitrary: g) simp_all

lemma merge_keeps_own: "ge_members (fold merge_member ms g) (ge_nodeID g) = ge_members g (ge_nodeID g)"
proof (induction ms arbitrary: g)
  case (Cons m ms)
  from Cons [of "merge_member m g"] show ?case by simp
qed simp

text \<open>What is merged is the same news: everything but identifier and address.\<close>

definition same_news :: "GossipMember \<Rightarrow> GossipMember \<Rightarrow> bool" where
  "same_news m m' \<longleftrightarrow> gm_State m' = gm_State m \<and> gm_Incarnation m' = gm_Incarnation m
     \<and> gm_LastSeen m' = gm_LastSeen m \<and> gm_Metadata m' = gm_Metadata m"

definition newest :: "GossipMember option \<Rightarrow> GossipMember list \<Rightarrow> string \<Rightarrow> GossipMember option \<Rightarrow> bool" where
  "newest before ms k after \<longleftrightarrow> (case after of
       None \<Rightarrow> before = None \<and> k \<notin> gm_ID ` set ms
     | Some m' \<Rightarrow> (before = Some m' \<or> (\<exists>m\<in>set ms. gm_ID m = k \<and> same_news m m'))
         \<and> (\<forall>m. before = Some m \<longrightarrow> gm_Incarnation m \<le> gm_Incarnation m')
         \<and> (\<forall>m\<in>set ms. gm_ID m = k \<longrightarrow> gm_Incarnation m \<le> gm_Incarnation m'))"

lemma merge_one_newest:
  assumes "k \<noteq> ge_nodeID g"
  shows "newest (ge_members g k) [m] k (ge_members (merge_member m g) k)"
  using assms by (auto simp: newest_def merge_member_def same_news_def split: option.splits)

lemma newest_trans:
  "newest a [m] k b \<Longrightarrow> newest b ms k c \<Longrightarrow> newest a (m # ms) k c"
  by (auto simp: newest_def same_news_def split: option.splits)

lemma merges_newest:
  "k \<noteq> ge_nodeID g \<Longrightarrow> newest (ge_members g k) ms k (ge_members (fold merge_member ms g) k)"
proof (induction ms arbitrary: g)
  case Nil
  then show ?case by (auto simp: newest_def same_news_def split: option.splits)
next
  case (Cons m ms)
  from Cons.IH [of "merge_member m g"] Cons.prems newest_trans [OF merge_one_newest [OF Cons.prems]]
  show ?case by simp
qed

lemma merge_covered:
  assumes "\<And>m. m \<in> set ms \<Longrightarrow> gm_ID m \<noteq> ge_nodeID g
    \<Longrightarrow> \<exists>x. ge_members g (gm_ID m) = Some x \<and> gm_Incarnation m \<le> gm_Incarnation x"
  shows "fold merge_member ms g = g"
  using assms
proof (induction ms)
  case (Cons m ms)
  have "merge_member m g = g" using Cons.prems [of m] by (auto simp: merge_member_def)
  with Cons show ?case by simp
qed simp

text \<open>C30: Merging keeps of every other node the news of the greatest incarnation that was known or received,
  adds the nodes that were unknown, leaves the own entry alone, and merging the same list again
  changes nothing.\<close>

theorem merge_keeps_the_newest:
  shows "\<exists>g'. mergeMemberList ms (g, e) = Returns ((), (g', e))
    \<and> (\<forall>k. k \<noteq> ge_nodeID g \<longrightarrow> newest (ge_members g k) ms k (ge_members g' k))
    \<and> ge_members g' (ge_nodeID g) = ge_members g (ge_nodeID g)
    \<and> mergeMemberList ms (g', e) = Returns ((), (g', e))"
proof -
  let ?g = "fold merge_member ms g"
  have "fold merge_member ms ?g = ?g"
  proof (rule merge_covered)
    fix m assume m: "m \<in> set ms" "gm_ID m \<noteq> ge_nodeID ?g"
    then have "newest (ge_members g (gm_ID m)) ms (gm_ID m) (ge_members ?g (gm_ID m))"
      by (intro merges_newest) (simp add: merges_own)
    with m(1) show "\<exists>x. ge_members ?g (gm_ID m) = Some x \<and> gm_Incarnation m \<le> gm_Incarnation x"
      by (auto simp: newest_def split: option.splits)
  qed
  then show ?thesis by (auto simp: prog_simps merges_newest merge_keeps_own)
qed


section \<open>The node as a state machine\<close>

text \<open>
  The steps are the program's critical sections, run by its goroutines in any order: a round, the
  answer of a message to itself in two steps (the list of members is copied under one lock and
  merged under another, so other steps come between), the two parts of the maintenance, and whatever
  other nodes do to the storage. \<open>flight\<close> holds the copied lists. A step that blocks or
  panics is no step.
\<close>

type_synonym 'd gossip_config = "GossipElection \<times> 'd MongoStorage \<times> GossipMember list list"

definition response :: "gtime \<Rightarrow> string \<Rightarrow> GossipMember list \<Rightarrow> GossipMessage" where
  "response now targetID ms = \<lparr>gmsg_Type = ''membership'', gmsg_SenderID = targetID, gmsg_Members = ms,
     gmsg_Suspicion = None, gmsg_Leadership = None, gmsg_Timestamp = now\<rparr>"

inductive gossip_step :: "'d gossip_config \<Rightarrow> 'd gossip_config \<Rightarrow> bool" where
  starts: "Gossip_Start now n (g, e) = Returns (u, (g', e')) \<Longrightarrow> gossip_step (g, e, flight) (g', e', flight)"
| gossips: "performGossipRound now ks draws ks' perm (g, e) = Returns (u, (g', e')) \<Longrightarrow>
    gossip_step (g, e, flight) (g', e', flight)"
| rearms: "resetGossipTimer n (g, e) = Returns (u, (g', e')) \<Longrightarrow> gossip_step (g, e, flight) (g', e', flight)"
| copies: "rlocked (gets (member_list (filter keep ks))) (g, e) = Returns (ms, (g', e')) \<Longrightarrow>
    gossip_step (g, e, flight) (g', e', ms # flight)"
| delivers: "ms \<in> set flight \<Longrightarrow> handleGossipMessage now (response now targetID ms) (g, e) = Returns (u, (g', e')) \<Longrightarrow>
    gossip_step (g, e, flight) (g', e', flight)"
| detects: "updateMemberStates now ks ks2 ks' perm (g, e) = Returns (u, (g', e')) \<Longrightarrow>
    gossip_step (g, e, flight) (g', e', flight)"
| elects: "electLeader now ks ks' perm (g, e) = Returns (u, (g', e')) \<Longrightarrow>
    gossip_step (g, e, flight) (g', e', flight)"
| stops: "Gossip_Stop (g, e) = Returns (u, (g', e')) \<Longrightarrow> gossip_step (g, e, flight) (g', e', flight)"
| others_write: "gossip_step (g, e, flight) (g, e', flight)"

inductive gossip_reach :: "'d gossip_config \<Rightarrow> 'd gossip_config \<Rightarrow> bool" for c0 :: "'d gossip_config" where
  here: "gossip_reach c0 c0"
| step_on: "gossip_reach c0 c \<Longrightarrow> gossip_step c c' \<Longrightarrow> gossip_reach c0 c'"

lemma simulate_is_copy_and_deliver:
  "simulateGossipResponse now ks keep targetID message =
     rbind (rlocked (gets (member_list (filter keep ks)))) (\<lambda>ms. handleGossipMessage now (response now targetID ms))"
  by (simp add: simulateGossipResponse_def response_def)

text \<open>The invariant: every entry, in the table or in flight, is alive and under its own identifier; the
  node neither leads nor is the leader it knows.\<close>

definition well_kept :: "GossipElection \<Rightarrow> bool" where
  "well_kept g \<longleftrightarrow> mu g = Free \<and> \<not> ge_isLeader g \<and> ge_currentLeader g \<noteq> ge_nodeID g
     \<and> (\<forall>k m. ge_members g k = Some m \<longrightarrow> gm_State m = Alive \<and> gm_ID m = k)"

definition gossip_inv :: "'d gossip_config \<Rightarrow> bool" where
  "gossip_inv = (\<lambda>(g, e, flight). well_kept g \<and> (\<forall>ms\<in>set flight. \<forall>m\<in>set ms. gm_State m = Alive))"

lemma member_list_set: "m \<in> set (member_list ks g) \<longleftrightarrow> (\<exists>k\<in>set ks. ge_members g k = Some m)"
  by (force simp: member_list_def List.map_filter_def)

lemma well_kept_merge: "well_kept g \<Longrightarrow> gm_State m = Alive \<Longrightarrow> well_kept (merge_member m g)"
  by (auto simp: well_kept_def merge_member_def split: option.splits)

lemma well_kept_merges:
  "well_kept g \<Longrightarrow> \<forall>m\<in>set ms. gm_State m = Alive \<Longrightarrow> well_kept (fold merge_member ms g)"
  by (induction ms arbitrary: g) (auto dest: well_kept_merge)

lemma well_kept_discover: "well_kept g \<Longrightarrow> well_kept (discover now draws n g)"
  by (auto simp: well_kept_def discover_def split: option.splits)

lemma well_kept_discovers: "well_kept g \<Longrightarrow> well_kept (fold (discover now draws) ns g)"
  by (induction ns arbitrary: g) (auto dest: well_kept_discover)

lemma well_kept_mu: "well_kept g \<Longrightarrow> mu g = Free"
  by (simp add: well_kept_def)

lemma mu_discovers [simp]: "mu (fold (discover now draws) ns g) = mu g"
proof (induction ns arbitrary: g)
  case (Cons n ns)
  have "mu (discover now draws n g) = mu g" by (auto simp: discover_def split: option.splits)
  with Cons [of "discover now draws n g"] show ?case by simp
qed simp

lemma discovers_mu: "fold (discover now draws) ns (g\<lparr>mu := x\<rparr>) = (fold (discover now draws) ns g)\<lparr>mu := x\<rparr>"
proof (induction ns arbitrary: g)
  case (Cons n ns)
  have "discover now draws n (g\<lparr>mu := x\<rparr>) = (discover now draws n g)\<lparr>mu := x\<rparr>"
    by (auto simp: discover_def split: option.splits)
  with Cons [of "discover now draws n g"] show ?case by simp
qed simp

lemma merges_mu: "fold merge_member ms (g\<lparr>mu := x\<rparr>) = (fold merge_member ms g)\<lparr>mu := x\<rparr>"
proof (induction ms arbitrary: g)
  case (Cons m ms)
  have "merge_member m (g\<lparr>mu := x\<rparr>) = (merge_member m g)\<lparr>mu := x\<rparr>"
    by (auto simp: merge_member_def split: option.splits)
  with Cons [of "merge_member m g"] show ?case by simp
qed simp

lemma run_discover:
  assumes "mu g = Free"
  shows "discoverNodes now draws (g, e) = Returns ((), (if snd (fst (GetNodes now e)) = None
    then fold (discover now draws) (fst (fst (GetNodes now e))) g else g, snd (GetNodes now e)))"
  using assms by (auto simp: discoverNodes_def prog_simps split_beta discovers_mu)

lemma run_handle_response:
  "mu g = Free \<Longrightarrow> handleGossipMessage now (response now targetID ms) (g, e) = Returns ((), (fold merge_member ms g, e))"
  by (simp add: handleGossipMessage_def response_def prog_simps merges_mu merges_own)

text \<open>A failure detector that returns changes nothing when all members are alive.\<close>

lemma detector_idle:
  assumes "well_kept g" and "updateMemberStates now ks ks2 ks' perm (g, e) = Returns (u, (g', e'))"
  shows "g' = g"
proof -
  let ?g = "g\<lparr>mu := WHeld\<rparr>"
  have alive: "ge_members g k = Some m \<Longrightarrow> gm_State m = Alive" for k m using assms(1) by (auto simp: well_kept_def)
  have "\<not> (\<exists>k\<in>set ks. overdue now ?g k)"
  proof
    assume "\<exists>k\<in>set ks. overdue now ?g k"
    then have "member_states now ks' perm ks (?g, e) = Blocks" using member_states_blocks by fastforce
    with assms well_kept_mu [OF assms(1)] show False by (simp add: updateMemberStates_def prog_simps)
  qed
  from member_states_runs [OF this] have "member_states now ks' perm ks (?g, e) = Returns ((), (declined now (set ks) ?g, e))" .
  moreover have "declined now (set ks) ?g = ?g"
  proof -
    have "\<not> declines now ?g k" for k using alive by (auto simp: declines_def split: option.splits)
    moreover have "(\<lambda>k. if k \<in> set ks \<and> k \<noteq> ge_nodeID ?g then map_option (decline now ?g) (ge_members ?g k)
        else ge_members ?g k) = ge_members ?g"
    proof
      fix k
      show "(if k \<in> set ks \<and> k \<noteq> ge_nodeID ?g then map_option (decline now ?g) (ge_members ?g k)
        else ge_members ?g k) = ge_members ?g k"
        using alive [of k] by (cases "ge_members g k") (simp_all add: decline_def)
    qed
    ultimately show ?thesis unfolding declined_def by simp
  qed
  moreover have "fold (drop_member now) ks2 ?g = ?g"
  proof (induction ks2)
    case (Cons k ks2)
    have "drop_member now k ?g = ?g" using alive [of k] by (auto simp: drop_member_def split: option.splits)
    with Cons show ?case by simp
  qed simp
  ultimately show ?thesis using assms(2) well_kept_mu [OF assms(1)] by (simp add: updateMemberStates_def prog_simps)
qed


lemma run_round:
  assumes "mu g = Free" and "performGossipRound now ks draws ks' perm (g, e) = Returns (u, (g', e'))"
  shows "\<exists>sent. g' = (if snd (fst (GetNodes now e)) = None
    then fold (discover now draws) (fst (fst (GetNodes now e))) g else g)\<lparr>ge_sent := sent\<rparr>"
  using assms by (auto simp: performGossipRound_def prog_simps run_discover split: if_splits)

lemma well_kept_frame [simp]:
  "well_kept (g\<lparr>ge_sent := s\<rparr>) = well_kept g" "well_kept (g\<lparr>ge_gossipTimer := t\<rparr>) = well_kept g"
  "well_kept (g\<lparr>ge_notified := ns\<rparr>) = well_kept g"
  by (simp_all add: well_kept_def)

lemma gossip_inv_step:
  assumes "gossip_step c c'" and "gossip_inv c"
  shows "gossip_inv c'"
  using assms
proof (induction rule: gossip_step.induct)
  case (starts now n g e u g' e' flight)
  then have w: "well_kept g" by (simp add: gossip_inv_def)
  with starts show ?case
    by (auto simp: gossip_inv_def Gossip_Start_def resetGossipTimer_def prog_simps well_kept_def own_member_def
        split: if_splits)
next
  case (gossips now ks draws ks' perm g e u g' e' flight)
  then have w: "well_kept g" by (simp add: gossip_inv_def)
  with run_round [OF well_kept_mu [OF w] gossips(1)] gossips(2) show ?case
    by (auto simp: gossip_inv_def well_kept_discovers)
next
  case (rearms n g e u g' e' flight)
  then show ?case by (auto simp: gossip_inv_def resetGossipTimer_def prog_simps split: if_splits)
next
  case (copies keep ks g e ms g' e' flight)
  then have w: "well_kept g" by (simp add: gossip_inv_def)
  with copies have "g' = g" "ms = member_list (filter keep ks) g"
    by (auto simp: prog_simps well_kept_mu member_list_def)
  with w copies(2) show ?case by (auto simp: gossip_inv_def member_list_set well_kept_def)
next
  case (delivers ms flight now targetID g e u g' e')
  then have w: "well_kept g" and a: "\<forall>m\<in>set ms. gm_State m = Alive" by (auto simp: gossip_inv_def)
  from delivers run_handle_response [OF well_kept_mu [OF w], of now targetID ms e]
  have "g' = fold merge_member ms g" by simp
  with well_kept_merges [OF w a] delivers(3) show ?case by (simp add: gossip_inv_def)
next
  case (detects now ks ks2 ks' perm g e u g' e' flight)
  then have "g' = g" by (auto simp: gossip_inv_def intro: detector_idle)
  with detects show ?case by (simp add: gossip_inv_def)
next
  case (elects now ks ks' perm g e u g' e' flight)
  then have w: "well_kept g" by (simp add: gossip_inv_def)
  from run_elect [OF well_kept_mu [OF w] refl refl, of now ks ks' perm e] elects(1)
  have "g' = g \<or> (\<exists>l. l \<noteq> ge_nodeID g \<and> g' = follow l g)" by (auto split: if_splits)
  with w elects(2) show ?case by (auto simp: gossip_inv_def well_kept_def follow_def take_leader_def)
next
  case (stops g e u g' e' flight)
  then have "mu g = Free" by (simp add: gossip_inv_def well_kept_mu)
  with stops have "g' = g\<lparr>ge_gossipTimer := None\<rparr>" by (auto simp: Gossip_Stop_def prog_simps)
  with stops show ?case by (simp add: gossip_inv_def)
qed (simp add: gossip_inv_def)

lemma gossip_inv_reach: "gossip_reach c0 c \<Longrightarrow> gossip_inv c0 \<Longrightarrow> gossip_inv c"
  by (induction rule: gossip_reach.induct) (auto dest: gossip_inv_step)

lemma gossip_inv_new:
  "nodeID \<noteq> '''' \<Longrightarrow> gossip_inv (NewGossipElection now draw nodeID interval timeout, e, [])"
  by (simp add: gossip_inv_def well_kept_def NewGossipElection_def)


text \<open>A message that is sent teaches nobody anything: its answer is made of the sender's own members, and
  merging them changes nothing, whatever the message says.\<close>

theorem gossip_message_changes_nothing:
  assumes "mu g = Free" and "\<And>k m. ge_members g k = Some m \<Longrightarrow> gm_ID m = k"
  shows "sendGossipMessage now ks keep targetID message (g, e) = Returns ((), (g, e))"
proof -
  have "fold merge_member (member_list (filter keep ks) g) g = g"
    by (rule merge_covered) (use assms(2) in \<open>fastforce simp: member_list_set\<close>)
  moreover have "member_list (filter keep ks) (g\<lparr>mu := RHeld\<rparr>) = member_list (filter keep ks) g"
    by (simp add: member_list_def)
  ultimately show ?thesis using run_handle_response [OF assms(1), of now targetID "member_list (filter keep ks) g" e] assms(1)
    by (simp add: sendGossipMessage_def simulate_is_copy_and_deliver prog_simps)
qed

section \<open>Witnesses\<close>

definition sample_member :: "string \<Rightarrow> real \<Rightarrow> GossipMember" where
  "sample_member k p = \<lparr>gm_ID = k, gm_Address = '''', gm_State = Alive, gm_Incarnation = 1, gm_LastSeen = 0,
     gm_Metadata = Map.empty(''priority'' \<mapsto> Float64 p)\<rparr>"

definition sample_gossip :: "real \<Rightarrow> real \<Rightarrow> GossipElection" where
  "sample_gossip p q = (NewGossipElection 0 p ''a'' (seconds 1) (seconds 10))\<lparr>
     ge_members := Map.empty(''a'' \<mapsto> sample_member ''a'' p, ''b'' \<mapsto> sample_member ''b'' q)\<rparr>"

lemma sample_member_simps [simp]:
  "gm_ID (sample_member k p) = k" "gm_State (sample_member k p) = Alive" "gm_LastSeen (sample_member k p) = 0"
  "gm_Incarnation (sample_member k p) = 1"
  "gm_Metadata (sample_member k p) = Map.empty(''priority'' \<mapsto> Float64 p)"
  by (simp_all add: sample_member_def)

lemma sample_gossip_simps [simp]:
  "mu (sample_gossip p q) = Free" "ge_nodeID (sample_gossip p q) = ''a''" "ge_currentLeader (sample_gossip p q) = ''''"
  "ge_suspicionTimeout (sample_gossip p q) = seconds 10"
  "ge_members (sample_gossip p q) = Map.empty(''a'' \<mapsto> sample_member ''a'' p, ''b'' \<mapsto> sample_member ''b'' q)"
  by (simp_all add: sample_gossip_def NewGossipElection_def)

lemma sample_standing: "standing (sample_gossip p q) k r \<longleftrightarrow> k = ''a'' \<and> r = p \<or> k = ''b'' \<and> r = q"
  by (auto simp: standing_def split: option.splits)

lemma sample_best: "-1 \<le> p \<Longrightarrow> -1 \<le> q \<Longrightarrow> best (sample_gossip p q) =
    (if p \<le> q then {''b''} else {}) \<union> (if q \<le> p then {''a''} else {})"
  by (auto simp: best_def sample_standing)

theorem failure_detector_witness:
  "updateMemberStates (seconds 11) [''a'', ''b''] [''b'', ''a''] [''a'', ''b''] [] (sample_gossip 0 1, new_storage) = Blocks"
proof -
  have "set [''a'', ''b''] = dom (ge_members (sample_gossip 0 1))"
    "set [''b'', ''a''] = dom (ge_members (sample_gossip 0 1))" by auto
  moreover have "overdue (seconds 11) (sample_gossip 0 1) ''b''" by (simp add: overdue_def time_Sub_def)
  ultimately show ?thesis
    using failure_detector [of "sample_gossip 0 1" "[''a'', ''b'']" "[''b'', ''a'']" "seconds 11" "[''a'', ''b'']" "[]" new_storage]
    by auto
qed

theorem gossip_elects_the_least_of_the_best_witness:
  "electLeader 0 [''b'', ''a''] [] [] (sample_gossip 1 0, new_storage) = Blocks
   \<and> electLeader 0 [''b'', ''a''] [] [] (sample_gossip 1 1, new_storage) = Blocks
   \<and> (\<exists>e'. electLeader 0 [''b'', ''a''] [] [] (sample_gossip 0 1, new_storage)
        = Returns ((), (follow ''b'' (sample_gossip 0 1), e')))"
proof -
  have d: "set [''b'', ''a''] = dom (ge_members (sample_gossip p q))" for p q by auto
  have "Min {''b'', ''a''} = ''a''" by (simp add: min_def)
  with gossip_elects_the_least_of_the_best [OF _ d, of 1 0 0 "[]" "[]" new_storage]
    gossip_elects_the_least_of_the_best [OF _ d, of 1 1 0 "[]" "[]" new_storage]
    gossip_elects_the_least_of_the_best [OF _ d, of 0 1 0 "[]" "[]" new_storage]
  show ?thesis by (auto simp: sample_best)
qed


theorem gossip_message_changes_nothing_witness:
  "sendGossipMessage 0 [''b''] (\<lambda>k. True) ''b'' (response 0 ''x'' []) (sample_gossip 0 1, new_storage)
     = Returns ((), (sample_gossip 0 1, new_storage))"
  by (rule gossip_message_changes_nothing) (auto split: if_splits)


theorem merge_keeps_the_newest_witness:
  "\<exists>g'. mergeMemberList [(sample_member ''b'' 1)\<lparr>gm_Incarnation := 7\<rparr>, sample_member ''c'' 1] (sample_gossip 0 1, new_storage)
      = Returns ((), (g', new_storage))
    \<and> (\<exists>m. ge_members g' ''b'' = Some m \<and> gm_Incarnation m = 7) \<and> ge_members g' ''c'' \<noteq> None"
proof -
  let ?ms = "[(sample_member ''b'' 1)\<lparr>gm_Incarnation := 7\<rparr>, sample_member ''c'' 1]"
  obtain g' where g: "mergeMemberList ?ms (sample_gossip 0 1, new_storage) = Returns ((), (g', new_storage))"
    and n: "\<forall>k. k \<noteq> ''a'' \<longrightarrow> newest (ge_members (sample_gossip 0 1) k) ?ms k (ge_members g' k)"
    using merge_keeps_the_newest [of ?ms "sample_gossip 0 1" new_storage] by auto
  from n have "newest (Some (sample_member ''b'' 1)) ?ms ''b'' (ge_members g' ''b'')"
    and "newest None ?ms ''c'' (ge_members g' ''c'')" by (auto dest: spec [of _ "''b''"] spec [of _ "''c''"])
  then have "\<exists>m. ge_members g' ''b'' = Some m \<and> gm_Incarnation m = 7" "ge_members g' ''c'' \<noteq> None"
    by (auto simp: newest_def same_news_def split: option.splits)
  with g show ?thesis by blast
qed


end
