(* ===== verification/Election.thy ===== *)
theory Election
  imports Bully Raft Gossip
begin

text \<open>
  The election behind its interface, \<open>internal/election/factory.go\<close>: the three algorithms as
  the cases of one datatype, dynamic dispatch as case distinction, and the factory with the limits
  it puts on the configured durations. The interface, as its callers use it, is the locale
  \<open>election_service\<close>: asking does not change the election, and who leads names itself.
\<close>

section \<open>The interface\<close>

datatype Election = BullyE BullyElection | RaftE RaftElection | GossipE GossipElection

text \<open>What a call returns, with the election and the storage after it.\<close>

type_synonym ('d, 'a) call = "('a \<times> Election \<times> 'd MongoStorage) outcome"

definition raft_call :: "('d, 'a) raft \<Rightarrow> RaftElection \<Rightarrow> 'd MongoStorage \<Rightarrow> ('d, 'a) call" where
  "raft_call p r s = obind (p (r, s)) (\<lambda>(x, (r', s')). Returns (x, RaftE r', s'))"

definition gossip_call :: "('d, 'a) gossip \<Rightarrow> GossipElection \<Rightarrow> 'd MongoStorage \<Rightarrow> ('d, 'a) call" where
  "gossip_call p g s = obind (p (g, s)) (\<lambda>(x, (g', s')). Returns (x, GossipE g', s'))"

text \<open>\<open>Start\<close> of the bully election only launches its goroutines. \<open>rs\<close> and \<open>n\<close>
  are what the timers draw.\<close>

fun Election_Start :: "gtime \<Rightarrow> int \<times> int \<Rightarrow> int \<Rightarrow> Election \<Rightarrow> 'd MongoStorage \<Rightarrow> ('d, unit) call" where
  "Election_Start now rs n (BullyE b) s = Returns ((), BullyE b, s)"
| "Election_Start now rs n (RaftE r) s = raft_call (Raft_Start rs) r s"
| "Election_Start now rs n (GossipE g) s = gossip_call (Gossip_Start now n) g s"

fun Election_Stop :: "gtime \<Rightarrow> Election \<Rightarrow> 'd MongoStorage \<Rightarrow> ('d, unit) call" where
  "Election_Stop now (BullyE b) s = Returns ((), BullyE b, s)"
| "Election_Stop now (RaftE r) s = raft_call (Raft_Stop now) r s"
| "Election_Stop now (GossipE g) s = gossip_call Gossip_Stop g s"

fun Election_IsLeader :: "Election \<Rightarrow> 'd MongoStorage \<Rightarrow> ('d, bool) call" where
  "Election_IsLeader (BullyE b) s = Returns (Bully_IsLeader b, BullyE b, s)"
| "Election_IsLeader (RaftE r) s = raft_call Raft_IsLeader r s"
| "Election_IsLeader (GossipE g) s = gossip_call Gossip_IsLeader g s"

fun Election_GetLeader :: "gtime \<Rightarrow> Election \<Rightarrow> 'd MongoStorage \<Rightarrow> ('d, string) call" where
  "Election_GetLeader now (BullyE b) s = (let (l, s') = Bully_GetLeader now b s in Returns (l, BullyE b, s'))"
| "Election_GetLeader now (RaftE r) s = raft_call (Raft_GetLeader now) r s"
| "Election_GetLeader now (GossipE g) s = gossip_call Gossip_GetLeader g s"

section \<open>The factory\<close>

text \<open>\<open>now\<close> and \<open>draw\<close> are the readings of the clock and of the random generator that a
  constructor makes.\<close>

definition at_least :: "duration \<Rightarrow> duration \<Rightarrow> duration" where
  "at_least m d = (if d < m then m else d)"

definition CreateElection ::
  "gtime \<Rightarrow> real \<Rightarrow> string \<Rightarrow> string \<Rightarrow> duration \<Rightarrow> duration \<Rightarrow> Election res outcome" where
  "CreateElection now draw algorithm nodeID timeout interval =
     (if algorithm = ''bully'' then
        obind (NewBullyElection nodeID timeout interval) (\<lambda>b. Returns (Inr (BullyE b)))
      else if algorithm = ''raft'' then
        Returns (Inr (RaftE (NewRaftElection now nodeID timeout (at_least (millis 50) (go_quot interval 3)))))
      else if algorithm = ''gossip'' then
        Returns (Inr (GossipE (NewGossipElection now draw nodeID
          (at_least (millis 100) (go_quot interval 2)) (at_least (seconds 1) (go_quot timeout 2)))))
      else Returns (Inl (Errorf (''unknown election algorithm: '' @ algorithm))))"

definition GetSupportedAlgorithms :: "string list" where
  "GetSupportedAlgorithms = [''bully'', ''raft'', ''gossip'']"

definition GetAlgorithmDescription :: "string \<Rightarrow> string" where
  "GetAlgorithmDescription algorithm =
     (if algorithm = ''bully'' then ''Bully Algorithm - Simple leader election based on node priorities. ''
        @ ''Best for small clusters with stable membership. ''
        @ ''Leader is the node with highest priority that's currently alive.''
      else if algorithm = ''raft'' then ''Raft Consensus - Strong consistency with leader election and log replication. ''
        @ ''Best for critical systems requiring consensus on state changes. ''
        @ ''Handles network partitions gracefully with majority quorum.''
      else if algorithm = ''gossip'' then ''Gossip-based Election - Decentralized membership management with failure detection. ''
        @ ''Best for large, dynamic clusters with frequent membership changes. ''
        @ ''Eventually consistent leader election through gossip protocol.''
      else ''Unknown algorithm'')"

text \<open>A map literal is the list of its entries.\<close>

definition GetRecommendedConfiguration :: "string \<Rightarrow> int \<Rightarrow> (string \<times> json) list" where
  "GetRecommendedConfiguration algorithm clusterSize =
     (if algorithm = ''bully'' then
        [(''election_timeout'', JStr ''10s''), (''election_interval'', JStr ''30s''),
         (''recommended_for'', JStr ''Small clusters (2-10 nodes)''),
         (''characteristics'', JArr [JStr ''Simple and fast'', JStr ''Single point of failure detection'',
            JStr ''Good for stable membership''])]
      else if algorithm = ''raft'' then
        [(''election_timeout'', JStr (if 5 < clusterSize then ''10s'' else ''5s'')), (''election_interval'', JStr ''2s''),
         (''recommended_for'', JStr ''Medium clusters (3-7 nodes)''),
         (''characteristics'', JArr [JStr ''Strong consistency guarantees'', JStr ''Handles network partitions'',
            JStr ''Requires majority quorum''])]
      else if algorithm = ''gossip'' then
        [(''election_timeout'', JStr ''15s''), (''election_interval'', JStr (if 20 < clusterSize then ''2s'' else ''1s'')),
         (''recommended_for'', JStr ''Large clusters (10+ nodes)''),
         (''characteristics'', JArr [JStr ''Scales to large clusters'', JStr ''Handles dynamic membership'',
            JStr ''Eventually consistent'', JStr ''Built-in failure detection''])]
      else [(''error'', JStr ''Unknown algorithm'')])"

section \<open>The contract\<close>

text \<open>What the server relies on: asking returns and leaves the election as it is, and an election
  that leads names its own node.\<close>

locale election_service =
  fixes isLeader :: "'e \<Rightarrow> 's \<Rightarrow> (bool \<times> 'e \<times> 's) outcome"
    and askLeader :: "gtime \<Rightarrow> 'e \<Rightarrow> 's \<Rightarrow> (string \<times> 'e \<times> 's) outcome"
    and inv :: "'e \<Rightarrow> bool"
    and leads :: "'e \<Rightarrow> bool"
    and name :: "'e \<Rightarrow> string"
  assumes is_leader: "inv e \<Longrightarrow> isLeader e s = Returns (leads e, e, s)"
    and get_leader: "inv e \<Longrightarrow> \<exists>l s'. askLeader now e s = Returns (l, e, s')"
    and names_itself: "inv e \<Longrightarrow> leads e \<Longrightarrow> askLeader now e s = Returns (name e, e, s)"
begin

lemma queries_return:
  assumes "inv e"
  shows "\<exists>l s'. askLeader now e s = Returns (l, e, s') \<and> isLeader e s' = Returns (leads e, e, s')
    \<and> (leads e \<longrightarrow> l = name e \<and> s' = s)"
  using get_leader [OF assms, of now s] is_leader [OF assms] names_itself [OF assms, of now s] by auto

end

text \<open>A contract for elections that are made: they start in the invariant, without leading.\<close>

locale election_factory = election_service +
  fixes create :: "string \<Rightarrow> 'e res outcome"
  assumes created: "create a = Returns (Inr e) \<Longrightarrow> inv e \<and> \<not> leads e"
begin

lemma created_follower: "create a = Returns (Inr e) \<Longrightarrow> isLeader e s = Returns (False, e, s)"
  using created is_leader by fastforce

end

fun election_leads :: "Election \<Rightarrow> bool" where
  "election_leads (BullyE b) = be_isLeader b"
| "election_leads (RaftE r) = (ra_state r = Leader)"
| "election_leads (GossipE g) = ge_isLeader g"

fun election_node :: "Election \<Rightarrow> string" where
  "election_node (BullyE b) = be_nodeID b"
| "election_node (RaftE r) = ra_nodeID r"
| "election_node (GossipE g) = ge_nodeID g"

text \<open>The lock is free, and a gossip node that leads takes itself for the leader.\<close>

fun election_ok :: "Election \<Rightarrow> bool" where
  "election_ok (BullyE b) = True"
| "election_ok (RaftE r) = (mu r = Free)"
| "election_ok (GossipE g) = (mu g = Free \<and> (ge_isLeader g \<longrightarrow> ge_currentLeader g = ge_nodeID g))"

interpretation any: election_service Election_IsLeader Election_GetLeader election_ok election_leads election_node
proof (unfold_locales, goal_cases)
  case (1 e s)
  then show ?case
    by (cases e) (auto simp: Bully_IsLeader_def raft_call_def gossip_call_def Raft_IsLeader_def Gossip_IsLeader_def prog_simps)
next
  case (2 e now s)
  then show ?case
    by (cases e) (auto simp: raft_call_def gossip_call_def Raft_GetLeader_def Gossip_GetLeader_def prog_simps
        Let_def split_beta split: option.splits)
next
  case (3 e now s)
  then show ?case
    by (cases e) (auto simp: raft_call_def gossip_call_def Raft_GetLeader_def Gossip_GetLeader_def Bully_GetLeader_def prog_simps)
qed

section \<open>What the factory makes\<close>

lemma created_cases:
  "CreateElection now draw algorithm nodeID timeout interval =
     (if algorithm = ''bully'' then
        (if length nodeID < 5 then Panics else Returns (Inr (BullyE \<lparr>be_nodeID = nodeID,
           be_nodeAddr = ''job-processor-'' @ drop 5 nodeID @ '':8080'', be_nodes = Map.empty,
           be_isLeader = False, be_timeout = timeout, be_interval = interval\<rparr>)))
      else if algorithm = ''raft'' then
        Returns (Inr (RaftE (NewRaftElection now nodeID timeout (at_least (millis 50) (go_quot interval 3)))))
      else if algorithm = ''gossip'' then
        Returns (Inr (GossipE (NewGossipElection now draw nodeID
          (at_least (millis 100) (go_quot interval 2)) (at_least (seconds 1) (go_quot timeout 2)))))
      else Returns (Inl (Errorf (''unknown election algorithm: '' @ algorithm))))"
  by (simp add: CreateElection_def NewBullyElection_def generateNodeAddress_def slice_from_def numeral_eq_Suc)

lemma created_ok:
  "CreateElection now draw algorithm nodeID timeout interval = Returns (Inr e) \<Longrightarrow> election_ok e \<and> \<not> election_leads e"
  by (auto simp: created_cases NewRaftElection_def NewGossipElection_def split: if_splits)

definition make_election :: "gtime \<Rightarrow> real \<Rightarrow> string \<Rightarrow> duration \<Rightarrow> duration \<Rightarrow> string \<Rightarrow> Election res outcome" where
  "make_election now draw nodeID timeout interval algorithm = CreateElection now draw algorithm nodeID timeout interval"

interpretation made: election_factory Election_IsLeader Election_GetLeader election_ok election_leads election_node
  "make_election now draw nodeID timeout interval" for now draw nodeID timeout interval
  by unfold_locales (rule created_ok, simp add: make_election_def)

text \<open>Whether what is started afterwards panics: the call of \<open>Start\<close>, and for the bully election
  its goroutines.\<close>

fun start_panics :: "gtime \<Rightarrow> string list \<Rightarrow> int \<times> int \<Rightarrow> int \<Rightarrow> Election \<Rightarrow> 'd MongoStorage \<Rightarrow> bool" where
  "start_panics now ks rs n (BullyE b) s = (runElectionLoop now ks b s = Panics \<or> runHeartbeat now b s = Panics)"
| "start_panics now ks rs n e s = (Election_Start now rs n e s = Panics)"

lemma start_panics_iff:
  "start_panics now ks rs n (BullyE b) s \<longleftrightarrow> be_interval b < 2"
  "mu r = Free \<Longrightarrow> start_panics now ks rs n (RaftE r) s \<longleftrightarrow> ra_electionTimeout r < millis 1"
  "mu g = Free \<Longrightarrow> start_panics now ks rs n (GossipE g) s \<longleftrightarrow> ge_gossipInterval g < millis 1"
proof -
  have "go_quot i 2 \<le> 0 \<longleftrightarrow> i < 2" for i :: int
    using go_quot_nonneg [of i 2] go_quot_neg [of i 2] by (cases "0 \<le> i") auto
  then show "start_panics now ks rs n (BullyE b) s \<longleftrightarrow> be_interval b < 2"
    by (auto simp: runElectionLoop_def runHeartbeat_def NewTicker_def Let_def)
qed (auto simp: raft_call_def gossip_call_def Raft_Start_def Gossip_Start_def prog_simps resetGossipTimer_def resetElectionTimer_def)

lemma started_never_blocks:
  "election_ok e \<Longrightarrow> Election_Start now rs n e s \<noteq> Blocks"
  by (cases e) (auto simp: raft_call_def gossip_call_def Raft_Start_def Gossip_Start_def prog_simps
      resetGossipTimer_def resetElectionTimer_def)

text \<open>What becomes of every configuration: an unknown algorithm is an error; the bully election panics
  when it is made for a name of fewer than five bytes and, started, for an interval below two
  nanoseconds; Raft panics when it is started with a timeout below a millisecond; gossip starts
  with any durations, thanks to the limits of the factory; and no election leads when it is made.\<close>

theorem created_elections_start:
  "case CreateElection now draw algorithm nodeID timeout interval of
     Blocks \<Rightarrow> False
   | Panics \<Rightarrow> algorithm = ''bully'' \<and> length nodeID < 5
   | Returns (Inl err) \<Rightarrow> algorithm \<notin> set GetSupportedAlgorithms
   | Returns (Inr e) \<Rightarrow> algorithm \<in> set GetSupportedAlgorithms \<and> election_ok e \<and> \<not> election_leads e
       \<and> election_node e = nodeID \<and> Election_Start later rs n e s \<noteq> Blocks
       \<and> (start_panics later ks rs n e s \<longleftrightarrow>
           algorithm = ''bully'' \<and> interval < 2 \<or> algorithm = ''raft'' \<and> timeout < millis 1)"
proof -
  have g: "\<not> at_least (millis 100) d < millis 1" for d by (simp add: at_least_def)
  show ?thesis
    using g started_never_blocks [OF created_ok [THEN conjunct1], of now draw algorithm nodeID timeout interval _ later rs n s]
    by (auto simp: created_cases GetSupportedAlgorithms_def start_panics_iff NewRaftElection_def NewGossipElection_def
        simp del: start_panics.simps Election_Start.simps split: outcome.splits sum.splits)
qed

text \<open>The three lists agree: an algorithm is supported exactly when it has a description and a
  recommended configuration, and exactly then it can be made.\<close>

theorem supported_algorithms_agree:
  "(algorithm \<in> set GetSupportedAlgorithms \<longleftrightarrow> GetAlgorithmDescription algorithm \<noteq> ''Unknown algorithm'')
   \<and> (algorithm \<in> set GetSupportedAlgorithms \<longleftrightarrow> ''error'' \<notin> fst ` set (GetRecommendedConfiguration algorithm clusterSize))
   \<and> (algorithm \<in> set GetSupportedAlgorithms \<longleftrightarrow>
        (\<forall>err. CreateElection now draw algorithm nodeID timeout interval \<noteq> Returns (Inl err)))"
  by (simp add: GetSupportedAlgorithms_def GetAlgorithmDescription_def GetRecommendedConfiguration_def created_cases)


end
