(* ===== verification/Config.thy ===== *)
theory Config
  imports Retry
begin

text \<open>
  The configuration of \<open>internal/config/config.go\<close>: the variables of the environment with their
  defaults, and the parsers of the standard library that read them (\<open>strconv.Atoi\<close>,
  \<open>strconv.ParseBool\<close>, \<open>strconv.ParseFloat\<close> of a decimal, \<open>time.ParseDuration\<close>).
  The lemmas show that printed numbers and durations are read back.
\<close>

section \<open>Digits\<close>

definition is_digit :: "char \<Rightarrow> bool" where
  "is_digit c \<longleftrightarrow> 48 \<le> (of_char c :: nat) \<and> (of_char c :: nat) \<le> 57"

definition digit :: "char \<Rightarrow> nat" where
  "digit c = of_char c - 48"

text \<open>A sign in front, if any: whether it is negative, and the rest.\<close>

definition take_sign :: "string \<Rightarrow> bool \<times> string" where
  "take_sign s = (case s of
       [] \<Rightarrow> (False, [])
     | c # cs \<Rightarrow> if c = CHR ''-'' then (True, cs) else if c = CHR ''+'' then (False, cs) else (False, s))"

section \<open>Integers and truth values\<close>

definition Atoi :: "string \<Rightarrow> int option" where
  "Atoi s = (let (neg, ds) = take_sign s; i = (if neg then - int (read_nat ds) else int (read_nat ds))
     in if ds = [] \<or> \<not> list_all is_digit ds \<or> \<not> in_int64 i then None else Some i)"

definition ParseBool :: "string \<Rightarrow> bool option" where
  "ParseBool s =
     (if s \<in> set [''1'', ''t'', ''T'', ''true'', ''TRUE'', ''True''] then Some True
      else if s \<in> set [''0'', ''f'', ''F'', ''false'', ''FALSE'', ''False''] then Some False
      else None)"

section \<open>Floats\<close>

text \<open>The exponent of a decimal stops growing at ten thousand.\<close>

definition float_exponent :: "string \<Rightarrow> int option" where
  "float_exponent s = (case s of
       [] \<Rightarrow> Some 0
     | c # cs \<Rightarrow>
         if c = CHR ''e'' \<or> c = CHR ''E'' then
           (let (neg, ds) = take_sign cs;
                e = foldl (\<lambda>e d. if e < 10000 then e * 10 + int (digit d) else e) 0 ds
            in if ds = [] \<or> \<not> list_all is_digit ds then None else Some (if neg then - e else e))
         else None)"

definition scale10 :: "real \<Rightarrow> int \<Rightarrow> real" where
  "scale10 x e = (if 0 \<le> e then x * 10 ^ nat e else x / 10 ^ nat (- e))"

text \<open>\<open>special\<close> reads what is no decimal: hexadecimal floats, infinities, NaN. A decimal that
  rounds to infinity is an error.\<close>

definition ParseFloat :: "float_env \<Rightarrow> (string \<Rightarrow> real option) \<Rightarrow> string \<Rightarrow> real option" where
  "ParseFloat fe special s =
     (let (neg, s1) = take_sign s;
          int_part = takeWhile is_digit s1; s2 = dropWhile is_digit s1;
          (frac, s3) = (case s2 of
             [] \<Rightarrow> ([], [])
           | c # cs \<Rightarrow> if c = CHR ''.'' then (takeWhile is_digit cs, dropWhile is_digit cs) else ([], s2))
      in if int_part @ frac = [] then special s
         else case float_exponent s3 of
             None \<Rightarrow> special s
           | Some e \<Rightarrow>
               let x = scale10 (real (read_nat (int_part @ frac))) (e - int (length frac))
               in if 2 ^ 1024 - 2 ^ 970 \<le> x then None
                  else Some (fe_round fe (if neg then - x else x)))"

section \<open>Durations\<close>

fun leadingInt :: "nat \<Rightarrow> string \<Rightarrow> (nat \<times> string) option" where
  "leadingInt x [] = Some (x, [])"
| "leadingInt x (c # cs) =
     (if \<not> is_digit c then Some (x, c # cs)
      else if 2 ^ 63 div 10 < x then None
      else let y = x * 10 + digit c in if 2 ^ 63 < y then None else leadingInt y cs)"

text \<open>Digits beyond the range are skipped.\<close>

fun leadingFraction :: "nat \<Rightarrow> nat \<Rightarrow> bool \<Rightarrow> string \<Rightarrow> nat \<times> nat \<times> string" where
  "leadingFraction x scale overflow [] = (x, scale, [])"
| "leadingFraction x scale overflow (c # cs) =
     (if \<not> is_digit c then (x, scale, c # cs)
      else if overflow \<or> (2 ^ 63 - 1) div 10 < x \<or> 2 ^ 63 < x * 10 + digit c
        then leadingFraction x scale True cs
      else leadingFraction (x * 10 + digit c) (scale * 10) False cs)"

text \<open>The unit names; the micro sign is U+00B5 or U+03BC, in UTF-8.\<close>

definition unitMap :: "string \<Rightarrow> nat option" where
  "unitMap u =
     (if u = ''ns'' then Some 1
      else if u \<in> set [''us'', [CHR 0xC2, CHR 0xB5, CHR ''s''], [CHR 0xCE, CHR 0xBC, CHR ''s'']] then Some 1000
      else if u = ''ms'' then Some 1000000
      else if u = ''s'' then Some 1000000000
      else if u = ''m'' then Some 60000000000
      else if u = ''h'' then Some 3600000000000
      else None)"

definition unit_char :: "char \<Rightarrow> bool" where
  "unit_char c \<longleftrightarrow> c \<noteq> CHR ''.'' \<and> \<not> is_digit c"

text \<open>The number of a term: what stands before the point and after it (with its scale), and the rest.\<close>

definition duration_number :: "string \<Rightarrow> (nat \<times> nat \<times> nat \<times> string) option" where
  "duration_number s = (case leadingInt 0 s of
       None \<Rightarrow> None
     | Some (v, s1) \<Rightarrow>
         let pre = (length s1 \<noteq> length s);
             (f, scale, s2, post) =
               (case s1 of
                  [] \<Rightarrow> (0, 1, s1, False)
                | c # cs \<Rightarrow>
                    if c = CHR ''.'' then
                      (let (f, scale, s2) = leadingFraction 0 1 False cs in (f, scale, s2, length s2 \<noteq> length cs))
                    else (0, 1, s1, False))
         in if \<not> pre \<and> \<not> post then None else Some (v, f, scale, s2))"

text \<open>A fraction is computed in \<open>float64\<close>.\<close>

definition duration_value :: "float_env \<Rightarrow> nat \<Rightarrow> nat \<Rightarrow> nat \<Rightarrow> nat \<Rightarrow> nat option" where
  "duration_value fe v f scale unit =
     (if 2 ^ 63 div unit < v then None
      else let w = (if 0 < f then v * unit + nat \<lfloor>fe_round fe (fe_round fe (real f) * fe_round fe (real unit / real scale))\<rfloor>
                    else v * unit)
           in if 2 ^ 63 < w then None else Some w)"

text \<open>One term: its value and the rest.\<close>

definition duration_term :: "float_env \<Rightarrow> string \<Rightarrow> (nat \<times> string) option" where
  "duration_term fe s =
     (if s = [] \<or> \<not> (hd s = CHR ''.'' \<or> is_digit (hd s)) then None
      else case duration_number s of
          None \<Rightarrow> None
        | Some (v, f, scale, s2) \<Rightarrow>
            let u = takeWhile unit_char s2
            in if u = [] then None
               else case unitMap u of
                   None \<Rightarrow> None
                 | Some unit \<Rightarrow> map_option (\<lambda>w. (w, dropWhile unit_char s2)) (duration_value fe v f scale unit))"

lemma leadingInt_length: "leadingInt x s = Some (v, s') \<Longrightarrow> length s' \<le> length s"
  by (induction x s rule: leadingInt.induct) (auto simp: Let_def split: if_splits)

lemma leadingFraction_length: "leadingFraction x sc ov s = (f, sc', s') \<Longrightarrow> length s' \<le> length s"
  by (induction x sc ov s rule: leadingFraction.induct) (auto split: if_splits)

lemma duration_number_length: "duration_number s = Some (v, f, sc, s') \<Longrightarrow> length s' \<le> length s"
  by (auto simp: duration_number_def Let_def split: option.splits list.splits if_splits prod.splits
      dest!: leadingInt_length leadingFraction_length)

lemma duration_term_length: "duration_term fe s = Some (w, s') \<Longrightarrow> length s' < length s"
proof -
  assume "duration_term fe s = Some (w, s')"
  then obtain v f sc s2 where n: "duration_number s = Some (v, f, sc, s2)" and u: "takeWhile unit_char s2 \<noteq> []"
    and s': "s' = dropWhile unit_char s2"
    by (auto simp: duration_term_def Let_def split: option.splits if_splits)
  have "length s2 = length (takeWhile unit_char s2) + length s'"
    unfolding s' by (metis length_append takeWhile_dropWhile_id)
  with u duration_number_length [OF n] show ?thesis by (cases "takeWhile unit_char s2") auto
qed

function duration_terms :: "float_env \<Rightarrow> nat \<Rightarrow> string \<Rightarrow> nat option" where
  "duration_terms fe d s =
     (if s = [] then Some d
      else case duration_term fe s of
          None \<Rightarrow> None
        | Some (w, s') \<Rightarrow> if 2 ^ 63 < d + w then None else duration_terms fe (d + w) s')"
  by pat_completeness auto
termination by (relation "measure (\<lambda>(fe, d, s). length s)") (auto dest: duration_term_length)

declare duration_terms.simps [simp del]

definition ParseDuration :: "float_env \<Rightarrow> string \<Rightarrow> duration option" where
  "ParseDuration fe s =
     (let (neg, s1) = take_sign s
      in if s1 = ''0'' then Some 0
         else if s1 = [] then None
         else case duration_terms fe 0 s1 of
             None \<Rightarrow> None
           | Some d \<Rightarrow>
               if neg then Some (int64 (- int64 (int d)))
               else if 2 ^ 63 - 1 < d then None else Some (int d))"

section \<open>The environment\<close>

text \<open>\<open>os.Getenv\<close>: the empty string stands for a variable that is not set.\<close>

type_synonym environment = "string \<Rightarrow> string"

definition getEnv :: "environment \<Rightarrow> string \<Rightarrow> string \<Rightarrow> string" where
  "getEnv env key defaultValue = (if env key \<noteq> '''' then env key else defaultValue)"

definition getEnvInt :: "environment \<Rightarrow> string \<Rightarrow> int \<Rightarrow> int" where
  "getEnvInt env key defaultValue =
     (if env key \<noteq> '''' then (case Atoi (env key) of Some intVal \<Rightarrow> intVal | None \<Rightarrow> defaultValue)
      else defaultValue)"

definition getEnvBool :: "environment \<Rightarrow> string \<Rightarrow> bool \<Rightarrow> bool" where
  "getEnvBool env key defaultValue =
     (if env key \<noteq> '''' then (case ParseBool (env key) of Some boolVal \<Rightarrow> boolVal | None \<Rightarrow> defaultValue)
      else defaultValue)"

definition getEnvFloat :: "float_env \<Rightarrow> (string \<Rightarrow> real option) \<Rightarrow> environment \<Rightarrow> string \<Rightarrow> real \<Rightarrow> real" where
  "getEnvFloat fe special env key defaultValue =
     (if env key \<noteq> '''' then (case ParseFloat fe special (env key) of Some floatVal \<Rightarrow> floatVal | None \<Rightarrow> defaultValue)
      else defaultValue)"

definition getEnvDuration :: "float_env \<Rightarrow> environment \<Rightarrow> string \<Rightarrow> duration \<Rightarrow> duration" where
  "getEnvDuration fe env key defaultValue =
     (if env key \<noteq> '''' then (case ParseDuration fe (env key) of Some d \<Rightarrow> d | None \<Rightarrow> defaultValue)
      else defaultValue)"

section \<open>The configuration\<close>

record ServerConfig =
  sc_Port :: string
  sc_Host :: string
  sc_WorkerCount :: int
  sc_NodeID :: string

record MongoDBConfig =
  mc_URI :: string
  mc_Database :: string
  mc_Timeout :: duration

record RedisConfig =
  rc_Addr :: string
  rc_Password :: string
  rc_DB :: int

record ElectionConfig =
  ec_Algorithm :: string
  ec_Timeout :: duration
  ec_Interval :: duration

record LoadBalancerConfig =
  lc_Strategy :: string

record RetryConfig =
  rt_Policy :: string
  rt_MaxRetries :: int
  rt_BaseDelay :: duration
  rt_MaxDelay :: duration
  rt_Multiplier :: real
  rt_JitterFactor :: real

record MetricsConfig =
  me_Enabled :: bool
  me_Port :: string

record SecurityConfig =
  se_TLSEnabled :: bool
  se_CertFile :: string
  se_KeyFile :: string
  se_AuthEnabled :: bool
  se_JWTSecret :: string

record Config =
  cf_Server :: ServerConfig
  cf_MongoDB :: MongoDBConfig
  cf_Redis :: RedisConfig
  cf_Election :: ElectionConfig
  cf_LoadBalancer :: LoadBalancerConfig
  cf_Retry :: RetryConfig
  cf_Metrics :: MetricsConfig
  cf_Security :: SecurityConfig

text \<open>\<open>env\<close> is the environment after \<open>godotenv.Load\<close>, whose error is ignored;
  \<open>Load\<close> itself never returns an error.\<close>

definition Load :: "float_env \<Rightarrow> (string \<Rightarrow> real option) \<Rightarrow> environment \<Rightarrow> Config" where
  "Load fe special env =
     \<lparr>cf_Server = \<lparr>sc_Port = getEnv env ''SERVER_PORT'' ''8080'',
        sc_Host = getEnv env ''SERVER_HOST'' ''0.0.0.0'',
        sc_WorkerCount = getEnvInt env ''WORKER_COUNT'' 10,
        sc_NodeID = getEnv env ''NODE_ID'' ''node-1''\<rparr>,
      cf_MongoDB = \<lparr>mc_URI = getEnv env ''MONGODB_URI'' ''mongodb://localhost:27017'',
        mc_Database = getEnv env ''MONGODB_DATABASE'' ''jobprocessor'',
        mc_Timeout = getEnvDuration fe env ''MONGODB_TIMEOUT'' (seconds 30)\<rparr>,
      cf_Redis = \<lparr>rc_Addr = getEnv env ''REDIS_ADDR'' ''localhost:6379'',
        rc_Password = getEnv env ''REDIS_PASSWORD'' '''',
        rc_DB = getEnvInt env ''REDIS_DB'' 0\<rparr>,
      cf_Election = \<lparr>ec_Algorithm = getEnv env ''ELECTION_ALGORITHM'' ''bully'',
        ec_Timeout = getEnvDuration fe env ''ELECTION_TIMEOUT'' (seconds 10),
        ec_Interval = getEnvDuration fe env ''ELECTION_INTERVAL'' (seconds 30)\<rparr>,
      cf_LoadBalancer = \<lparr>lc_Strategy = getEnv env ''LOAD_BALANCER_STRATEGY'' ''round_robin''\<rparr>,
      cf_Retry = \<lparr>rt_Policy = getEnv env ''RETRY_POLICY'' ''exponential'',
        rt_MaxRetries = getEnvInt env ''MAX_RETRIES'' 3,
        rt_BaseDelay = getEnvDuration fe env ''RETRY_BASE_DELAY'' (seconds 1),
        rt_MaxDelay = getEnvDuration fe env ''RETRY_MAX_DELAY'' (seconds 60),
        rt_Multiplier = getEnvFloat fe special env ''RETRY_MULTIPLIER'' (fe_round fe 2),
        rt_JitterFactor = getEnvFloat fe special env ''RETRY_JITTER_FACTOR'' (fe_round fe (1 / 10))\<rparr>,
      cf_Metrics = \<lparr>me_Enabled = getEnvBool env ''METRICS_ENABLED'' True,
        me_Port = getEnv env ''METRICS_PORT'' ''9090''\<rparr>,
      cf_Security = \<lparr>se_TLSEnabled = getEnvBool env ''TLS_ENABLED'' False,
        se_CertFile = getEnv env ''TLS_CERT_FILE'' '''',
        se_KeyFile = getEnv env ''TLS_KEY_FILE'' '''',
        se_AuthEnabled = getEnvBool env ''AUTH_ENABLED'' False,
        se_JWTSecret = getEnv env ''JWT_SECRET'' ''your-secret-key''\<rparr>\<rparr>"

section \<open>Printing and reading back\<close>

lemma digit_char [simp]:
  "n < 10 \<Longrightarrow> is_digit (char_of (48 + n))" "n < 10 \<Longrightarrow> digit (char_of (48 + n)) = n"
  by (simp_all add: is_digit_def digit_def)

lemma show_nat_digits: "list_all is_digit (show_nat n)"
proof (induction n rule: show_nat.induct)
  case (1 n)
  then show ?case by (subst show_nat.simps) simp
qed

lemma show_nat_nonempty [simp]: "show_nat n \<noteq> []"
  by (subst show_nat.simps) simp

lemma digit_no_sign: "is_digit c \<Longrightarrow> c \<noteq> CHR ''-'' \<and> c \<noteq> CHR ''+'' \<and> c \<noteq> CHR ''.''"
  by (auto simp: is_digit_def)

lemma take_sign_digits: "list_all is_digit (takeWhile is_digit s) \<Longrightarrow> s \<noteq> [] \<Longrightarrow> is_digit (hd s) \<Longrightarrow> take_sign s = (False, s)"
  by (cases s) (auto simp: take_sign_def dest: digit_no_sign)

lemma hd_show_nat: "is_digit (hd (show_nat n))"
  using show_nat_digits [of n] by (cases "show_nat n") auto

lemma take_sign_show [simp]: "take_sign (show_nat n @ r) = (False, show_nat n @ r)"
  using hd_show_nat [of n] by (cases "show_nat n") (auto simp: take_sign_def dest: digit_no_sign)

definition show_int :: "int \<Rightarrow> string" where
  "show_int i = (if i < 0 then CHR ''-'' # show_nat (nat (- i)) else show_nat (nat i))"

lemma Atoi_show_int [simp]: "in_int64 i \<Longrightarrow> Atoi (show_int i) = Some i"
  using take_sign_show [of "nat i" "[]"]
  by (auto simp: Atoi_def show_int_def take_sign_def show_nat_digits)

text \<open>Reading the digits of a number that is in range leaves what follows.\<close>

lemma digits_grow: "(x :: nat) \<le> foldl (\<lambda>x c. x * 10 + digit c) x ds"
proof (induction ds arbitrary: x)
  case (Cons c ds)
  have "x \<le> x * 10 + digit c" by simp
  also have "\<dots> \<le> foldl (\<lambda>x c. x * 10 + digit c) (x * 10 + digit c) ds" by (rule Cons)
  finally show ?case by simp
qed simp

lemma leadingInt_digits:
  assumes "list_all is_digit ds" and "foldl (\<lambda>x c. x * 10 + digit c) x ds \<le> 2 ^ 63"
    and "r = [] \<or> \<not> is_digit (hd r)"
  shows "leadingInt x (ds @ r) = Some (foldl (\<lambda>x c. x * 10 + digit c) x ds, r)"
  using assms
proof (induction ds arbitrary: x)
  case Nil
  then show ?case by (cases r) auto
next
  case (Cons c ds)
  have le: "x * 10 + digit c \<le> 2 ^ 63" using digits_grow [of "x * 10 + digit c" ds] Cons.prems(2) by simp
  then have "\<not> 2 ^ 63 div 10 < x" by linarith
  with le Cons.prems show ?case by (simp add: Let_def Cons.IH del: power_numeral)
qed

lemma read_nat_digits: "read_nat s = foldl (\<lambda>x c. x * 10 + digit c) 0 s"
  by (simp add: read_nat_def digit_def)

lemma leadingInt_show:
  "n \<le> 2 ^ 63 \<Longrightarrow> r = [] \<or> \<not> is_digit (hd r) \<Longrightarrow> leadingInt 0 (show_nat n @ r) = Some (n, r)"
  using leadingInt_digits [OF show_nat_digits [of n], of 0 r] read_show_nat [of n] by (simp add: read_nat_digits)

lemma duration_term_show:
  assumes "unitMap u = Some unit" and "u \<noteq> []" and "list_all unit_char u" and "n * unit \<le> 2 ^ 63"
    and "r = [] \<or> \<not> unit_char (hd r)" and "0 < unit"
  shows "duration_term fe (show_nat n @ u @ r) = Some (n * unit, r)"
proof -
  have u: "takeWhile unit_char (u @ r) = u" "dropWhile unit_char (u @ r) = r"
    using assms(3,5) by (cases r; auto simp: list_all_iff takeWhile_append dropWhile_append)+
  have hu: "\<not> is_digit (hd (u @ r))" "hd (u @ r) \<noteq> CHR ''.''"
    using assms(2,3) by (cases u; auto simp: unit_char_def)+
  have "n \<le> n * unit" using assms(6) by simp
  then have "leadingInt 0 (show_nat n @ u @ r) = Some (n, u @ r)"
    using order_trans [OF \<open>n \<le> n * unit\<close> assms(4)] hu(1) by (intro leadingInt_show) auto
  then have num: "duration_number (show_nat n @ u @ r) = Some (n, 0, 1, u @ r)"
    using hu(2) assms(2) by (cases "u @ r") (auto simp: duration_number_def Let_def)
  have "\<not> 2 ^ 63 div unit < n" using assms(4,6) by (simp add: not_less less_eq_div_iff_mult_less_eq)
  then have v: "duration_value fe n 0 1 unit = Some (n * unit)" using assms(4) by (simp add: duration_value_def Let_def)
  show ?thesis
    using num v u assms(1,2) hd_show_nat [of n] by (simp add: duration_term_def Let_def)
qed

lemma ParseDuration_show:
  assumes "unitMap u = Some unit" and "u \<noteq> []" and "list_all unit_char u" and "n * unit < 2 ^ 63" and "0 < unit"
  shows "ParseDuration fe (show_nat n @ u) = Some (int (n * unit))"
proof -
  have "duration_term fe (show_nat n @ u) = Some (n * unit, [])"
    using duration_term_show [OF assms(1-3), of n "[]" fe] assms(4,5) by simp
  then have "duration_terms fe 0 (show_nat n @ u) = Some (n * unit)"
    using assms(4) by (simp add: duration_terms.simps)
  moreover have "show_nat n @ u \<noteq> ''0''"
  proof
    assume "show_nat n @ u = ''0''"
    then have "u = []" using assms(2) by (cases "show_nat n") auto
    with assms(2) show False ..
  qed
  ultimately show ?thesis using assms(4) by (simp add: ParseDuration_def Let_def)
qed


text \<open>Decimals with one digit after the point.\<close>

definition show_tenths :: "nat \<Rightarrow> string" where
  "show_tenths n = show_nat (n div 10) @ ''.'' @ show_nat (n mod 10)"

lemma read_nat_snoc: "read_nat (s @ t) = read_nat s * 10 ^ length t + read_nat t"
proof (induction t rule: rev_induct)
  case (snoc c t)
  have "read_nat (x @ [c]) = read_nat x * 10 + (of_char c - 48)" for x by (simp add: read_nat_def)
  from this [of "s @ t"] this [of t] snoc show ?case by (simp add: algebra_simps)
qed (simp add: read_nat_def)

lemma length_show_digit: "n < 10 \<Longrightarrow> length (show_nat n) = 1"
  by (subst show_nat.simps) simp

lemma ParseFloat_tenths:
  assumes "n < 2 ^ 1000"
  shows "ParseFloat fe special (show_tenths n) = Some (fe_round fe (real n / 10))"
proof -
  let ?a = "show_nat (n div 10)" and ?b = "show_nat (n mod 10)"
  have d: "list_all is_digit ?a" "list_all is_digit ?b" by (rule show_nat_digits)+
  have dot: "\<not> is_digit CHR ''.''" by (simp add: is_digit_def)
  have t: "takeWhile is_digit (?a @ CHR ''.'' # ?b) = ?a" "dropWhile is_digit (?a @ CHR ''.'' # ?b) = CHR ''.'' # ?b"
    using d(1) dot by (auto simp: list_all_iff takeWhile_append dropWhile_append)
  have b: "takeWhile is_digit ?b = ?b" "dropWhile is_digit ?b = []"
    using d(2) by (auto simp: list_all_iff takeWhile_eq_all_conv dropWhile_eq_Nil_conv)
  have "read_nat (?a @ ?b) = n"
    by (simp add: read_nat_snoc length_show_digit)
  moreover have "real n / 10 < 2 ^ 1024 - 2 ^ 970"
  proof -
    have "real n < 2 ^ 1000" using assms by (metis of_nat_less_iff of_nat_numeral of_nat_power)
    moreover have "(2 :: real) ^ 1000 \<le> 2 ^ 1024 - 2 ^ 970" by simp
    ultimately show ?thesis by linarith
  qed
  ultimately show ?thesis
    using take_sign_show [of "n div 10" "''.'' @ ?b"]
    by (simp add: ParseFloat_def show_tenths_def Let_def float_exponent_def scale10_def length_show_digit t b
        del: power_numeral)
qed

text \<open>A configuration written as an environment; the two floats in tenths.\<close>

definition show_duration :: "duration \<Rightarrow> string" where
  "show_duration d = show_nat (nat d) @ ''ns''"

definition show_bool :: "bool \<Rightarrow> string" where
  "show_bool b = (if b then ''true'' else ''false'')"

definition environment_of :: "nat \<Rightarrow> nat \<Rightarrow> Config \<Rightarrow> environment" where
  "environment_of multiplier jitter c = (\<lambda>_. '''')(
     ''SERVER_PORT'' := sc_Port (cf_Server c), ''SERVER_HOST'' := sc_Host (cf_Server c),
     ''WORKER_COUNT'' := show_int (sc_WorkerCount (cf_Server c)), ''NODE_ID'' := sc_NodeID (cf_Server c),
     ''MONGODB_URI'' := mc_URI (cf_MongoDB c), ''MONGODB_DATABASE'' := mc_Database (cf_MongoDB c),
     ''MONGODB_TIMEOUT'' := show_duration (mc_Timeout (cf_MongoDB c)),
     ''REDIS_ADDR'' := rc_Addr (cf_Redis c), ''REDIS_PASSWORD'' := rc_Password (cf_Redis c),
     ''REDIS_DB'' := show_int (rc_DB (cf_Redis c)),
     ''ELECTION_ALGORITHM'' := ec_Algorithm (cf_Election c),
     ''ELECTION_TIMEOUT'' := show_duration (ec_Timeout (cf_Election c)),
     ''ELECTION_INTERVAL'' := show_duration (ec_Interval (cf_Election c)),
     ''LOAD_BALANCER_STRATEGY'' := lc_Strategy (cf_LoadBalancer c),
     ''RETRY_POLICY'' := rt_Policy (cf_Retry c), ''MAX_RETRIES'' := show_int (rt_MaxRetries (cf_Retry c)),
     ''RETRY_BASE_DELAY'' := show_duration (rt_BaseDelay (cf_Retry c)),
     ''RETRY_MAX_DELAY'' := show_duration (rt_MaxDelay (cf_Retry c)),
     ''RETRY_MULTIPLIER'' := show_tenths multiplier, ''RETRY_JITTER_FACTOR'' := show_tenths jitter,
     ''METRICS_ENABLED'' := show_bool (me_Enabled (cf_Metrics c)), ''METRICS_PORT'' := me_Port (cf_Metrics c),
     ''TLS_ENABLED'' := show_bool (se_TLSEnabled (cf_Security c)),
     ''TLS_CERT_FILE'' := se_CertFile (cf_Security c), ''TLS_KEY_FILE'' := se_KeyFile (cf_Security c),
     ''AUTH_ENABLED'' := show_bool (se_AuthEnabled (cf_Security c)), ''JWT_SECRET'' := se_JWTSecret (cf_Security c))"

definition duration_ok :: "duration \<Rightarrow> bool" where
  "duration_ok d \<longleftrightarrow> 0 \<le> d \<and> d < 2 ^ 63"

definition writable_config :: "float_env \<Rightarrow> nat \<Rightarrow> nat \<Rightarrow> Config \<Rightarrow> bool" where
  "writable_config fe multiplier jitter c \<longleftrightarrow>
     list_all (\<lambda>s. s \<noteq> '''') [sc_Port (cf_Server c), sc_Host (cf_Server c), sc_NodeID (cf_Server c), mc_URI (cf_MongoDB c),
       mc_Database (cf_MongoDB c), rc_Addr (cf_Redis c), ec_Algorithm (cf_Election c),
       lc_Strategy (cf_LoadBalancer c), rt_Policy (cf_Retry c), me_Port (cf_Metrics c), se_JWTSecret (cf_Security c)]
   \<and> list_all in_int64 [sc_WorkerCount (cf_Server c), rc_DB (cf_Redis c), rt_MaxRetries (cf_Retry c)]
   \<and> list_all duration_ok [mc_Timeout (cf_MongoDB c), ec_Timeout (cf_Election c), ec_Interval (cf_Election c),
       rt_BaseDelay (cf_Retry c), rt_MaxDelay (cf_Retry c)]
   \<and> multiplier < 2 ^ 1000 \<and> rt_Multiplier (cf_Retry c) = fe_round fe (real multiplier / 10)
   \<and> jitter < 2 ^ 1000 \<and> rt_JitterFactor (cf_Retry c) = fe_round fe (real jitter / 10)"

lemma ParseBool_show [simp]: "ParseBool (show_bool b) = Some b"
  by (simp add: ParseBool_def show_bool_def)

lemma ParseDuration_show_duration: "duration_ok d \<Longrightarrow> ParseDuration fe (show_duration d) = Some d"
  using ParseDuration_show [of "''ns''" 1 "nat d" fe]
  by (auto simp: show_duration_def duration_ok_def unitMap_def unit_char_def is_digit_def)

lemma shown_nonempty [simp]: "show_int i \<noteq> []" "show_tenths n \<noteq> []" "show_bool b \<noteq> []" "show_duration d \<noteq> []"
  by (simp_all add: show_int_def show_tenths_def show_bool_def show_duration_def)

lemmas read_back = environment_of_def getEnv_def getEnvInt_def getEnvBool_def getEnvFloat_def
  getEnvDuration_def ParseDuration_show_duration ParseFloat_tenths

text \<open>C32: Any configuration with non-empty strings where the defaults are not empty, integers of 64 bits,
  durations that are not negative and floats in tenths is read back from the environment it is
  written to: no variable is misspelt, mixed up with another, or read with the wrong parser.\<close>

theorem configuration_read_back:
  assumes "writable_config fe multiplier jitter c"
  shows "Load fe special (environment_of multiplier jitter c) = c"
proof -
  let ?env = "environment_of multiplier jitter c"
  note w = assms [unfolded writable_config_def, simplified]
  have "cf_Server (Load fe special ?env) = cf_Server c"
    by (rule ServerConfig.equality; simp only: Load_def Config.select_convs ServerConfig.select_convs; simp add: read_back w)
  moreover have "cf_MongoDB (Load fe special ?env) = cf_MongoDB c"
    by (rule MongoDBConfig.equality; simp only: Load_def Config.select_convs MongoDBConfig.select_convs; simp add: read_back w)
  moreover have "cf_Redis (Load fe special ?env) = cf_Redis c"
    by (rule RedisConfig.equality; simp only: Load_def Config.select_convs RedisConfig.select_convs; simp add: read_back w)
  moreover have "cf_Election (Load fe special ?env) = cf_Election c"
    by (rule ElectionConfig.equality; simp only: Load_def Config.select_convs ElectionConfig.select_convs; simp add: read_back w)
  moreover have "cf_LoadBalancer (Load fe special ?env) = cf_LoadBalancer c"
    by (rule LoadBalancerConfig.equality; simp only: Load_def Config.select_convs LoadBalancerConfig.select_convs; simp add: read_back w)
  moreover have "cf_Retry (Load fe special ?env) = cf_Retry c"
    by (rule RetryConfig.equality; simp only: Load_def Config.select_convs RetryConfig.select_convs; simp add: read_back w)
  moreover have "cf_Metrics (Load fe special ?env) = cf_Metrics c"
    by (rule MetricsConfig.equality; simp only: Load_def Config.select_convs MetricsConfig.select_convs; simp add: read_back w)
  moreover have "cf_Security (Load fe special ?env) = cf_Security c"
    by (rule SecurityConfig.equality; simp only: Load_def Config.select_convs SecurityConfig.select_convs; simp add: read_back w)
  ultimately show ?thesis by (cases c) (cases "Load fe special ?env", simp)
qed

text \<open>What a duration parses to fits its 64 bits, whatever the text.\<close>

theorem parsed_duration_in_range:
  "case ParseDuration fe s of None \<Rightarrow> True | Some d \<Rightarrow> in_int64 d"
proof -
  have "in_int64 0" "\<And>d. \<not> 2 ^ 63 - 1 < d \<Longrightarrow> in_int64 (int d)" by (simp_all add: in_int64_def)
  then show ?thesis by (auto simp: ParseDuration_def Let_def split: option.splits prod.splits)
qed

definition default_config :: Config where
  "default_config = Load exact_env (\<lambda>_. None) (\<lambda>_. '''')"

theorem configuration_read_back_witness:
  "Load exact_env (\<lambda>_. None) (environment_of 20 1 default_config) = default_config"
  by (rule configuration_read_back)
    (simp add: writable_config_def default_config_def Load_def getEnv_def getEnvInt_def getEnvDuration_def
      getEnvFloat_def in_int64_def duration_ok_def exact_env_def)


end
