(* ===== verification/Auth.thy ===== *)
theory Auth
  imports Job Config
begin

text \<open>
  Authentication, \<open>internal/auth/auth.go\<close>: issuing and checking tokens, the two middlewares that
  guard a route, and the login handler. The JWT library is the record \<open>jwt_lib\<close>, with what
  its documentation promises as \<open>jwt_contract\<close>. A handler that lets a request pass answers
  \<open>Next\<close> with the request's context, one that answers itself \<open>Abort\<close> with the response.
  The lemmas say which requests are admitted.
\<close>

section \<open>Roles and claims\<close>

type_synonym Role = string

definition RoleAdmin :: Role where [status_simps]: "RoleAdmin = ''admin''"
definition RoleUser :: Role where [status_simps]: "RoleUser = ''user''"
definition RoleWorker :: Role where [status_simps]: "RoleWorker = ''worker''"

text \<open>Of the registered claims, those that are set or that the library checks.\<close>

record Claims =
  cl_UserID :: string
  cl_Role :: Role
  cl_ExpiresAt :: "gtime option"
  cl_NotBefore :: "gtime option"
  cl_IssuedAt :: "gtime option"
  cl_Issuer :: string

record AuthConfig =
  ac_Enabled :: bool
  ac_JWTSecret :: string
  ac_TokenTTL :: duration

section \<open>The JWT library\<close>

text \<open>
  \<open>jwt_SignedString\<close> makes a token of claims with an algorithm and a key;
  \<open>jwt_ParseWithClaims\<close> reads one at an instant, asking the function it is given for the key of
  the token's algorithm, and returns the claims and \<open>token.Valid\<close>. \<open>jwt_decode\<close> is what
  is written in a token, \<open>jwt_verifies\<close> whether its signature is right for an algorithm and a key.
\<close>

record jwt_lib =
  jwt_NewNumericDate :: "gtime \<Rightarrow> gtime"
  jwt_SignedString :: "string \<Rightarrow> string \<Rightarrow> Claims \<Rightarrow> string res"
  jwt_ParseWithClaims :: "gtime \<Rightarrow> string \<Rightarrow> (string \<Rightarrow> string res) \<Rightarrow> (Claims \<times> bool) res"
  jwt_decode :: "string \<Rightarrow> (string \<times> Claims) option"
  jwt_verifies :: "string \<Rightarrow> string \<Rightarrow> string \<Rightarrow> bool"

definition is_hmac :: "string \<Rightarrow> bool" where
  "is_hmac alg \<longleftrightarrow> alg \<in> set [''HS256'', ''HS384'', ''HS512'']"

definition claims_live :: "gtime \<Rightarrow> Claims \<Rightarrow> bool" where
  "claims_live now c \<longleftrightarrow> (case cl_ExpiresAt c of None \<Rightarrow> True | Some e \<Rightarrow> now < e)
     \<and> (case cl_NotBefore c of None \<Rightarrow> True | Some b \<Rightarrow> b \<le> now)"

text \<open>Numeric dates have whole seconds; what is signed with a shared key can be read and verifies; and
  parsing succeeds exactly for a token that can be read, whose algorithm has a key, whose signature
  is right and whose claims are live.\<close>

definition jwt_contract :: "jwt_lib \<Rightarrow> bool" where
  "jwt_contract lib \<longleftrightarrow>
     (\<forall>t. jwt_NewNumericDate lib t = seconds (time_Unix t))
   \<and> (\<forall>alg key c. is_hmac alg \<longrightarrow> (\<exists>t. jwt_SignedString lib alg key c = Inr t
        \<and> jwt_decode lib t = Some (alg, c) \<and> jwt_verifies lib alg key t))
   \<and> (\<forall>now t keyfunc c v. jwt_ParseWithClaims lib now t keyfunc = Inr (c, v) \<longleftrightarrow>
        v \<and> (\<exists>alg key. jwt_decode lib t = Some (alg, c) \<and> keyfunc alg = Inr key
              \<and> jwt_verifies lib alg key t \<and> claims_live now c))"

section \<open>Tokens\<close>

text \<open>\<open>now1\<close> and \<open>now2\<close> are the two readings of the clock.\<close>

definition GenerateToken :: "jwt_lib \<Rightarrow> gtime \<Rightarrow> gtime \<Rightarrow> AuthConfig \<Rightarrow> string \<Rightarrow> Role \<Rightarrow> string res" where
  "GenerateToken lib now1 now2 a userID role =
     (if \<not> ac_Enabled a then Inr ''''
      else let claims = \<lparr>cl_UserID = userID, cl_Role = role,
                 cl_ExpiresAt = Some (jwt_NewNumericDate lib (now1 + ac_TokenTTL a)), cl_NotBefore = None,
                 cl_IssuedAt = Some (jwt_NewNumericDate lib now2), cl_Issuer = ''distributed-job-processor''\<rparr>
           in case jwt_SignedString lib ''HS256'' (ac_JWTSecret a) claims of
                Inl err \<Rightarrow> Inl (Wrap ''failed to sign token'' err)
              | Inr tokenString \<Rightarrow> Inr tokenString)"

definition token_key :: "AuthConfig \<Rightarrow> string \<Rightarrow> string res" where
  "token_key a alg = (if \<not> is_hmac alg then Inl (Errorf (''unexpected signing method: '' @ alg)) else Inr (ac_JWTSecret a))"

definition system_claims :: Claims where
  "system_claims = \<lparr>cl_UserID = ''system'', cl_Role = RoleAdmin, cl_ExpiresAt = None, cl_NotBefore = None,
     cl_IssuedAt = None, cl_Issuer = ''''\<rparr>"

definition ValidateToken :: "jwt_lib \<Rightarrow> gtime \<Rightarrow> AuthConfig \<Rightarrow> string \<Rightarrow> Claims res" where
  "ValidateToken lib now a tokenString =
     (if \<not> ac_Enabled a then Inr system_claims
      else case jwt_ParseWithClaims lib now tokenString (token_key a) of
          Inl err \<Rightarrow> Inl (Wrap ''failed to parse token'' err)
        | Inr (claims, valid) \<Rightarrow> if valid then Inr claims else Inl (Errorf ''invalid token''))"

section \<open>Requests and responses\<close>

record Response =
  rs_Status :: int
  rs_Body :: json

definition error_body :: "string \<Rightarrow> json" where
  "error_body msg = JObj [(''error'', JStr msg)]"

abbreviation respond_error :: "int \<Rightarrow> string \<Rightarrow> Response" where
  "respond_error status msg \<equiv> \<lparr>rs_Status = status, rs_Body = error_body msg\<rparr>"

datatype ctx_value = CtxString string | CtxRole Role

record Context =
  cx_Header :: "string \<Rightarrow> string"
  cx_keys :: "string \<rightharpoonup> ctx_value"

datatype 'c step = Next 'c | Abort Response

fun then_handle :: "'c step \<Rightarrow> ('c \<Rightarrow> 'c step) \<Rightarrow> 'c step" where
  "then_handle (Next c) h = h c"
| "then_handle (Abort r) h = Abort r"

section \<open>Middlewares\<close>

definition AuthMiddleware :: "jwt_lib \<Rightarrow> gtime \<Rightarrow> AuthConfig \<Rightarrow> 'x Context_scheme \<Rightarrow> 'x Context_scheme step" where
  "AuthMiddleware lib now a c =
     (if \<not> ac_Enabled a then Next c
      else let authHeader = cx_Header c ''Authorization''
        in if authHeader = '''' then Abort (respond_error 401 ''Authorization header required'')
           else let tokenString = TrimPrefix authHeader ''Bearer ''
             in if tokenString = authHeader then Abort (respond_error 401 ''Bearer token required'')
                else case ValidateToken lib now a tokenString of
                    Inl err \<Rightarrow> Abort (respond_error 401 ''Invalid token'')
                  | Inr claims \<Rightarrow> Next (c\<lparr>cx_keys := (cx_keys c)(''user_id'' \<mapsto> CtxString (cl_UserID claims),
                        ''role'' \<mapsto> CtxRole (cl_Role claims))\<rparr>))"

definition roleHierarchy :: "Role \<rightharpoonup> int" where
  "roleHierarchy = Map.empty(RoleWorker \<mapsto> 1, RoleUser \<mapsto> 2, RoleAdmin \<mapsto> 3)"

definition hasPermission :: "Role \<Rightarrow> Role \<Rightarrow> bool" where
  "hasPermission userRole requiredRole =
     (case (roleHierarchy userRole, roleHierarchy requiredRole) of
        (Some userLevel, Some requiredLevel) \<Rightarrow> requiredLevel \<le> userLevel
      | _ \<Rightarrow> False)"

definition RequireRole :: "AuthConfig \<Rightarrow> Role \<Rightarrow> 'x Context_scheme \<Rightarrow> 'x Context_scheme step" where
  "RequireRole a requiredRole c =
     (if \<not> ac_Enabled a then Next c
      else case cx_keys c ''role'' of
          None \<Rightarrow> Abort (respond_error 403 ''Role not found in context'')
        | Some (CtxString s) \<Rightarrow> Abort (respond_error 403 ''Invalid role type'')
        | Some (CtxRole userRole) \<Rightarrow>
            if \<not> hasPermission userRole requiredRole
            then Abort (respond_error 403 ''Insufficient permissions'') else Next c)"

section \<open>Login\<close>

definition hardcodedUsers :: "string \<rightharpoonup> string \<times> Role" where
  "hardcodedUsers = Map.empty(''admin'' \<mapsto> (''admin123'', RoleAdmin), ''user'' \<mapsto> (''user123'', RoleUser),
     ''worker'' \<mapsto> (''worker123'', RoleWorker))"

definition authenticateUser :: "string \<Rightarrow> string \<Rightarrow> Role" where
  "authenticateUser username password = (case hardcodedUsers username of
       None \<Rightarrow> ''''
     | Some (pw, role) \<Rightarrow> if pw = password then role else '''')"

text \<open>\<open>binding\<close> is what gin's \<open>ShouldBindJSON\<close> makes of the body: user name and password, or
  an error.\<close>

definition LoginHandler ::
  "jwt_lib \<Rightarrow> gtime \<Rightarrow> gtime \<Rightarrow> AuthConfig \<Rightarrow> (string \<times> string) res \<Rightarrow> Response" where
  "LoginHandler lib now1 now2 a binding = (case binding of
       Inl err \<Rightarrow> respond_error 400 (Error err)
     | Inr (username, password) \<Rightarrow>
         (let role = authenticateUser username password
          in if role = '''' then respond_error 401 ''Invalid credentials''
             else case GenerateToken lib now1 now2 a username role of
                 Inl err \<Rightarrow> respond_error 500 ''Failed to generate token''
               | Inr token \<Rightarrow> \<lparr>rs_Status = 200, rs_Body = JObj [(''token'', JStr token), (''role'', JStr role)]\<rparr>))"

section \<open>Who is admitted\<close>

text \<open>The guard of a route: authentication, then the role.\<close>

definition guard :: "jwt_lib \<Rightarrow> gtime \<Rightarrow> AuthConfig \<Rightarrow> Role \<Rightarrow> 'x Context_scheme \<Rightarrow> 'x Context_scheme step" where
  "guard lib now a requiredRole c = then_handle (AuthMiddleware lib now a c) (RequireRole a requiredRole)"

lemma validate_iff:
  assumes "jwt_contract lib" and "ac_Enabled a"
  shows "ValidateToken lib now a t = Inr c \<longleftrightarrow>
    (\<exists>alg. jwt_decode lib t = Some (alg, c) \<and> is_hmac alg \<and> jwt_verifies lib alg (ac_JWTSecret a) t \<and> claims_live now c)"
proof -
  have p: "jwt_ParseWithClaims lib now t (token_key a) = Inr (d, v) \<longleftrightarrow>
      v \<and> (\<exists>alg key. jwt_decode lib t = Some (alg, d) \<and> token_key a alg = Inr key
            \<and> jwt_verifies lib alg key t \<and> claims_live now d)" for d v
    using assms(1) by (simp add: jwt_contract_def)
  have "ValidateToken lib now a t = Inr c \<longleftrightarrow> jwt_ParseWithClaims lib now t (token_key a) = Inr (c, True)"
    using assms(2) by (auto simp: ValidateToken_def split: sum.splits if_splits)
  then show ?thesis unfolding p by (auto simp: token_key_def split: if_splits)
qed

lemma role_levels: "roleHierarchy r = Some n \<longleftrightarrow>
    r = RoleWorker \<and> n = 1 \<or> r = RoleUser \<and> n = 2 \<or> r = RoleAdmin \<and> n = 3"
  by (auto simp: roleHierarchy_def status_simps)

lemma hasPermission_iff:
  "hasPermission r q \<longleftrightarrow> (r = RoleAdmin \<and> q \<in> {RoleWorker, RoleUser, RoleAdmin})
     \<or> (r = RoleUser \<and> q \<in> {RoleWorker, RoleUser}) \<or> (r = RoleWorker \<and> q = RoleWorker)"
proof -
  have "hasPermission r q \<longleftrightarrow> (\<exists>m n. roleHierarchy r = Some m \<and> roleHierarchy q = Some n \<and> n \<le> m)"
    by (auto simp: hasPermission_def split: option.splits)
  moreover have "RoleAdmin \<noteq> RoleUser" "RoleAdmin \<noteq> RoleWorker" "RoleUser \<noteq> RoleWorker"
    by (simp_all add: status_simps)
  ultimately show ?thesis unfolding role_levels by (elim ssubst) force
qed

lemma guard_cases:
  assumes "ac_Enabled a"
  shows "guard lib now a q c =
    (let h = cx_Header c ''Authorization'' in
     if h = '''' then Abort (respond_error 401 ''Authorization header required'')
     else if take 7 h \<noteq> ''Bearer '' then Abort (respond_error 401 ''Bearer token required'')
     else case ValidateToken lib now a (drop 7 h) of
         Inl err \<Rightarrow> Abort (respond_error 401 ''Invalid token'')
       | Inr claims \<Rightarrow>
           if hasPermission (cl_Role claims) q
           then Next (c\<lparr>cx_keys := (cx_keys c)(''user_id'' \<mapsto> CtxString (cl_UserID claims), ''role'' \<mapsto> CtxRole (cl_Role claims))\<rparr>)
           else Abort (respond_error 403 ''Insufficient permissions''))"
proof -
  let ?h = "cx_Header c ''Authorization''"
  have seven: "length ''Bearer '' = 7" by simp
  have t: "TrimPrefix ?h ''Bearer '' = ?h \<longleftrightarrow> take 7 ?h \<noteq> ''Bearer ''"
    using TrimPrefix_same_iff [of "''Bearer ''" ?h] unfolding seven by simp
  have d: "TrimPrefix ?h ''Bearer '' = drop 7 ?h" if "take 7 ?h = ''Bearer ''"
    using that unfolding TrimPrefix_def seven by simp
  consider "?h = ''''" | "?h \<noteq> ''''" "take 7 ?h \<noteq> ''Bearer ''" | "?h \<noteq> ''''" "take 7 ?h = ''Bearer ''" by blast
  then show ?thesis
  proof cases
    case 1
    with assms show ?thesis by (simp add: guard_def AuthMiddleware_def)
  next
    case 2
    with assms t show ?thesis unfolding guard_def AuthMiddleware_def Let_def by simp
  next
    case 3
    with t have h: "drop 7 ?h \<noteq> ?h" using d by metis
    have "AuthMiddleware lib now a c = (case ValidateToken lib now a (drop 7 ?h) of
        Inl err \<Rightarrow> Abort (respond_error 401 ''Invalid token'')
      | Inr claims \<Rightarrow> Next (c\<lparr>cx_keys := (cx_keys c)(''user_id'' \<mapsto> CtxString (cl_UserID claims), ''role'' \<mapsto> CtxRole (cl_Role claims))\<rparr>))"
      unfolding AuthMiddleware_def Let_def d [OF 3(2)] using assms 3(1) h by (simp only: if_False if_True not_True_eq_False)
    with assms 3 show ?thesis
      by (cases "ValidateToken lib now a (drop 7 ?h)") (simp_all only: guard_def Let_def sum.case then_handle.simps if_False
          RequireRole_def, simp_all)
  qed
qed

definition with_claims :: "Claims \<Rightarrow> 'x Context_scheme \<Rightarrow> 'x Context_scheme" where
  "with_claims claims c = c\<lparr>cx_keys := (cx_keys c)(''user_id'' \<mapsto> CtxString (cl_UserID claims),
     ''role'' \<mapsto> CtxRole (cl_Role claims))\<rparr>"

lemma bearer_iff: "(\<exists>t. h = ''Bearer '' @ t \<and> P t) \<longleftrightarrow> take 7 h = ''Bearer '' \<and> P (drop 7 h)"
proof
  assume "\<exists>t. h = ''Bearer '' @ t \<and> P t"
  then show "take 7 h = ''Bearer '' \<and> P (drop 7 h)" by auto
next
  assume "take 7 h = ''Bearer '' \<and> P (drop 7 h)"
  then show "\<exists>t. h = ''Bearer '' @ t \<and> P t" by (metis append_take_drop_id)
qed

text \<open>With authentication enabled, a request passes the guard of a route exactly when it carries a
  bearer token that is signed with the configured secret and an HMAC algorithm, is live now, and
  names a role that suffices; it then carries the token's user and role. Any other request is
  answered 401 or 403.\<close>

theorem admitted_exactly:
  assumes "jwt_contract lib" and "ac_Enabled a"
  shows "(guard lib now a q c = Next c' \<longleftrightarrow>
      (\<exists>t alg claims. cx_Header c ''Authorization'' = ''Bearer '' @ t \<and> jwt_decode lib t = Some (alg, claims)
        \<and> is_hmac alg \<and> jwt_verifies lib alg (ac_JWTSecret a) t \<and> claims_live now claims
        \<and> hasPermission (cl_Role claims) q \<and> c' = with_claims claims c))
    \<and> (\<forall>r. guard lib now a q c = Abort r \<longrightarrow> rs_Status r \<in> {401, 403})"
proof
  let ?h = "cx_Header c ''Authorization''"
  have "guard lib now a q c = Next c' \<longleftrightarrow> take 7 ?h = ''Bearer '' \<and>
      (\<exists>claims. ValidateToken lib now a (drop 7 ?h) = Inr claims \<and> hasPermission (cl_Role claims) q \<and> c' = with_claims claims c)"
    by (cases "?h = ''''") (auto simp: guard_cases [OF assms(2)] Let_def with_claims_def split: sum.splits if_splits)
  then show "guard lib now a q c = Next c' \<longleftrightarrow>
      (\<exists>t alg claims. ?h = ''Bearer '' @ t \<and> jwt_decode lib t = Some (alg, claims)
        \<and> is_hmac alg \<and> jwt_verifies lib alg (ac_JWTSecret a) t \<and> claims_live now claims
        \<and> hasPermission (cl_Role claims) q \<and> c' = with_claims claims c)"
    unfolding validate_iff [OF assms] by (simp only: ex_simps bearer_iff) blast
  show "\<forall>r. guard lib now a q c = Abort r \<longrightarrow> rs_Status r \<in> {401, 403}"
    by (auto simp: guard_cases [OF assms(2)] Let_def split: sum.splits if_splits)
qed

lemma generated_token:
  assumes "jwt_contract lib" and "ac_Enabled a"
  shows "\<exists>t. GenerateToken lib now1 now2 a u role = Inr t \<and> (\<forall>now c. ValidateToken lib now a t = Inr c \<longleftrightarrow>
      now < seconds (time_Unix (now1 + ac_TokenTTL a)) \<and>
      c = \<lparr>cl_UserID = u, cl_Role = role, cl_ExpiresAt = Some (seconds (time_Unix (now1 + ac_TokenTTL a))),
        cl_NotBefore = None, cl_IssuedAt = Some (seconds (time_Unix now2)), cl_Issuer = ''distributed-job-processor''\<rparr>)"
proof -
  let ?c = "\<lparr>cl_UserID = u, cl_Role = role, cl_ExpiresAt = Some (seconds (time_Unix (now1 + ac_TokenTTL a))),
        cl_NotBefore = None, cl_IssuedAt = Some (seconds (time_Unix now2)), cl_Issuer = ''distributed-job-processor''\<rparr>"
  have date: "jwt_NewNumericDate lib t = seconds (time_Unix t)" for t using assms(1) by (simp add: jwt_contract_def)
  have "is_hmac ''HS256''" by (simp add: is_hmac_def)
  then obtain t where t: "jwt_SignedString lib ''HS256'' (ac_JWTSecret a) ?c = Inr t"
    "jwt_decode lib t = Some (''HS256'', ?c)" "jwt_verifies lib ''HS256'' (ac_JWTSecret a) t"
    using assms(1) unfolding jwt_contract_def by blast
  have "GenerateToken lib now1 now2 a u role = Inr t" using assms(2) t(1) by (simp add: GenerateToken_def date)
  moreover have "ValidateToken lib now a t = Inr c \<longleftrightarrow> now < seconds (time_Unix (now1 + ac_TokenTTL a)) \<and> c = ?c" for now c
    unfolding validate_iff [OF assms] using t \<open>is_hmac ''HS256''\<close> by (auto simp: claims_live_def)
  ultimately show ?thesis by blast
qed

text \<open>C31: The token that a login with the right password returns is admitted wherever the user's role
  suffices, until the second in which its time to live ends, and answered 401 from then on.\<close>

theorem login_token_admitted:
  assumes "jwt_contract lib" and "ac_Enabled a" and "hardcodedUsers u = Some (pw, role)"
  shows "\<exists>t. LoginHandler lib now1 now2 a (Inr (u, pw))
        = \<lparr>rs_Status = 200, rs_Body = JObj [(''token'', JStr t), (''role'', JStr role)]\<rparr>
    \<and> (\<forall>now q (c :: Context). cx_Header c ''Authorization'' = ''Bearer '' @ t \<longrightarrow>
        (case guard lib now a q c of
           Next c' \<Rightarrow> now < seconds (time_Unix (now1 + ac_TokenTTL a)) \<and> hasPermission role q
             \<and> cx_keys c' ''user_id'' = Some (CtxString u)
         | Abort r \<Rightarrow> rs_Status r = (if now < seconds (time_Unix (now1 + ac_TokenTTL a)) then 403 else 401)
             \<and> \<not> (now < seconds (time_Unix (now1 + ac_TokenTTL a)) \<and> hasPermission role q)))"
proof -
  let ?expiry = "seconds (time_Unix (now1 + ac_TokenTTL a))"
  let ?c = "\<lparr>cl_UserID = u, cl_Role = role, cl_ExpiresAt = Some ?expiry,
        cl_NotBefore = None, cl_IssuedAt = Some (seconds (time_Unix now2)), cl_Issuer = ''distributed-job-processor''\<rparr>"
  obtain t where g: "GenerateToken lib now1 now2 a u role = Inr t"
    and v: "\<And>now d. ValidateToken lib now a t = Inr d \<longleftrightarrow> now < ?expiry \<and> d = ?c"
    using generated_token [OF assms(1,2), of now1 now2 u role] by blast
  have role: "role \<noteq> ''''" "authenticateUser u pw = role"
    using assms(3) by (auto simp: hardcodedUsers_def authenticateUser_def status_simps split: if_splits)
  have "case guard lib now a q c of
       Next c' \<Rightarrow> now < ?expiry \<and> hasPermission role q \<and> cx_keys c' ''user_id'' = Some (CtxString u)
     | Abort r \<Rightarrow> rs_Status r = (if now < ?expiry then 403 else 401) \<and> \<not> (now < ?expiry \<and> hasPermission role q)"
    if "cx_Header c ''Authorization'' = ''Bearer '' @ t" for now q and c :: Context
  proof (cases "now < ?expiry")
    case True
    with v have "ValidateToken lib now a t = Inr ?c" by blast
    with True that show ?thesis by (simp add: guard_cases [OF assms(2)] Let_def)
  next
    case False
    with v have "ValidateToken lib now a t \<noteq> Inr d" for d by blast
    then obtain err where "ValidateToken lib now a t = Inl err" by (cases "ValidateToken lib now a t") auto
    with False that show ?thesis by (simp add: guard_cases [OF assms(2)] Let_def)
  qed
  with g role show ?thesis by (intro exI [of _ t]) (simp add: LoginHandler_def Let_def)
qed


section \<open>A library that keeps the contract\<close>

text \<open>A token that spells out its algorithm, key and claims: every field escaped and closed by a point.\<close>

definition esc :: "string \<Rightarrow> string" where
  "esc s = concat (map (\<lambda>c. [CHR ''x'', c]) s) @ ''.''"

fun unesc :: "string \<Rightarrow> string \<times> string" where
  "unesc (c # d # r) = (if c = CHR ''x'' then (let (s, r') = unesc r in (d # s, r')) else ([], d # r))"
| "unesc [c] = ([], [])"
| "unesc [] = ([], [])"

lemma unesc_esc [simp]: "unesc (esc s @ r) = (s, r)"
  by (induction s) (cases r; simp add: esc_def)+

definition text_of_date :: "gtime option \<Rightarrow> string" where
  "text_of_date d = (case d of None \<Rightarrow> '''' | Some i \<Rightarrow> show_int i)"

definition date_of_text :: "string \<Rightarrow> gtime option" where
  "date_of_text s = (if s = '''' then None
     else (let (neg, ds) = take_sign s in Some (if neg then - int (read_nat ds) else int (read_nat ds))))"

lemma date_of_text [simp]: "date_of_text (text_of_date d) = d"
proof (cases d)
  case (Some i)
  have "take_sign (show_nat (nat i)) = (False, show_nat (nat i))" using take_sign_show [of "nat i" "[]"] by simp
  moreover have "take_sign (CHR ''-'' # s) = (True, s)" for s by (simp add: take_sign_def)
  ultimately show ?thesis using Some by (simp add: date_of_text_def text_of_date_def show_int_def)
qed (simp add: date_of_text_def text_of_date_def)

definition toy_token :: "string \<Rightarrow> string \<Rightarrow> Claims \<Rightarrow> string" where
  "toy_token alg key c = esc alg @ esc key @ esc (cl_UserID c) @ esc (cl_Role c) @ esc (text_of_date (cl_ExpiresAt c))
     @ esc (text_of_date (cl_NotBefore c)) @ esc (text_of_date (cl_IssuedAt c)) @ esc (cl_Issuer c)"

definition toy_read :: "string \<Rightarrow> string \<times> string \<times> Claims" where
  "toy_read t =
     (let (alg, t1) = unesc t; (key, t2) = unesc t1; (user, t3) = unesc t2; (role, t4) = unesc t3;
          (e, t5) = unesc t4; (b, t6) = unesc t5; (i, t7) = unesc t6; (iss, t8) = unesc t7
      in (alg, key, \<lparr>cl_UserID = user, cl_Role = role, cl_ExpiresAt = date_of_text e, cl_NotBefore = date_of_text b,
            cl_IssuedAt = date_of_text i, cl_Issuer = iss\<rparr>))"

lemma toy_read_token [simp]: "toy_read (toy_token alg key c) = (alg, key, c)"
  using unesc_esc [of "cl_Issuer c" "[]"] by (simp add: toy_read_def toy_token_def)

definition toy_jwt :: jwt_lib where
  "toy_jwt = \<lparr>jwt_NewNumericDate = (\<lambda>t. seconds (time_Unix t)),
     jwt_SignedString = (\<lambda>alg key c. Inr (toy_token alg key c)),
     jwt_ParseWithClaims = (\<lambda>now t keyfunc. let (alg, key, c) = toy_read t in
        case keyfunc alg of
          Inl err \<Rightarrow> Inl err
        | Inr k \<Rightarrow> if k = key \<and> claims_live now c then Inr (c, True) else Inl (Errorf ''token is invalid'')),
     jwt_decode = (\<lambda>t. let (alg, key, c) = toy_read t in Some (alg, c)),
     jwt_verifies = (\<lambda>alg key t. fst (snd (toy_read t)) = key)\<rparr>"

lemma toy_contract: "jwt_contract toy_jwt"
  by (auto simp: jwt_contract_def toy_jwt_def split_beta Let_def split: sum.splits)

definition sample_auth :: AuthConfig where
  "sample_auth = \<lparr>ac_Enabled = True, ac_JWTSecret = ''secret'', ac_TokenTTL = seconds 86400\<rparr>"

lemma sample_auth_simps [simp]:
  "ac_Enabled sample_auth" "ac_JWTSecret sample_auth = ''secret''" "ac_TokenTTL sample_auth = seconds 86400"
  by (simp_all add: sample_auth_def)

definition sample_claims :: "Role \<Rightarrow> Claims" where
  "sample_claims role = system_claims\<lparr>cl_Role := role\<rparr>"

definition request_with :: "string \<Rightarrow> Context" where
  "request_with t = \<lparr>cx_Header = (\<lambda>_. '''')(''Authorization'' := ''Bearer '' @ t), cx_keys = Map.empty\<rparr>"

theorem admitted_exactly_witness:
  "guard toy_jwt 0 sample_auth RoleUser (request_with (toy_token ''HS256'' ''secret'' (sample_claims RoleAdmin)))
     = Next (with_claims (sample_claims RoleAdmin) (request_with (toy_token ''HS256'' ''secret'' (sample_claims RoleAdmin))))"
proof -
  let ?t = "toy_token ''HS256'' ''secret'' (sample_claims RoleAdmin)"
  have "hasPermission RoleAdmin RoleUser" by (simp add: hasPermission_iff)
  moreover have "jwt_decode toy_jwt ?t = Some (''HS256'', sample_claims RoleAdmin)" "jwt_verifies toy_jwt ''HS256'' ''secret'' ?t"
    by (simp_all add: toy_jwt_def)
  moreover have "is_hmac ''HS256''" "claims_live 0 (sample_claims RoleAdmin)" "cl_Role (sample_claims RoleAdmin) = RoleAdmin"
    by (simp_all add: is_hmac_def claims_live_def sample_claims_def system_claims_def)
  moreover have "cx_Header (request_with ?t) ''Authorization'' = ''Bearer '' @ ?t" by (simp add: request_with_def)
  ultimately show ?thesis
    using admitted_exactly [OF toy_contract, of sample_auth 0 RoleUser "request_with ?t"
        "with_claims (sample_claims RoleAdmin) (request_with ?t)"] by force
qed

theorem login_token_admitted_witness:
  "\<exists>t. LoginHandler toy_jwt 0 0 sample_auth (Inr (''user'', ''user123''))
        = \<lparr>rs_Status = 200, rs_Body = JObj [(''token'', JStr t), (''role'', JStr RoleUser)]\<rparr>
    \<and> (\<forall>r. guard toy_jwt 0 sample_auth RoleAdmin (request_with t) = Abort r \<longrightarrow> rs_Status r = 403)
    \<and> (\<forall>r. guard toy_jwt (seconds 86400) sample_auth RoleUser (request_with t) = Abort r \<longrightarrow> rs_Status r = 401)"
proof -
  have u: "hardcodedUsers ''user'' = Some (''user123'', RoleUser)" by (simp add: hardcodedUsers_def)
  obtain t where t: "LoginHandler toy_jwt 0 0 sample_auth (Inr (''user'', ''user123''))
        = \<lparr>rs_Status = 200, rs_Body = JObj [(''token'', JStr t), (''role'', JStr RoleUser)]\<rparr>"
    and g: "\<And>now q (c :: Context). cx_Header c ''Authorization'' = ''Bearer '' @ t \<Longrightarrow>
        (case guard toy_jwt now sample_auth q c of
           Next c' \<Rightarrow> now < seconds (time_Unix (0 + ac_TokenTTL sample_auth)) \<and> hasPermission RoleUser q
             \<and> cx_keys c' ''user_id'' = Some (CtxString ''user'')
         | Abort r \<Rightarrow> rs_Status r = (if now < seconds (time_Unix (0 + ac_TokenTTL sample_auth)) then 403 else 401)
             \<and> \<not> (now < seconds (time_Unix (0 + ac_TokenTTL sample_auth)) \<and> hasPermission RoleUser q))"
    using login_token_admitted [OF toy_contract _ u, of sample_auth 0 0] by auto
  have h: "cx_Header (request_with t) ''Authorization'' = ''Bearer '' @ t" by (simp add: request_with_def)
  have "seconds (time_Unix (0 + ac_TokenTTL sample_auth)) = seconds 86400" by (simp add: time_Unix_def)
  with t g [OF h, of 0 RoleAdmin] g [OF h, of "seconds 86400" RoleUser] show ?thesis
    by (intro exI [of _ t]) (auto split: step.splits)
qed


end
