(* ===== verification/Logger.thy ===== *)
theory Logger
  imports Prelude
begin

text \<open>
  The logger of \<open>internal/logger/logger.go\<close>. The library logrus is a parameter, the record
  \<open>logrus\<close>: how a level is parsed, which level is its default here, and which calls a level lets
  through. What a call does is the lines it writes and whether it ends the program. The other theories
  leave logging out, except where \<open>Fatal\<close> ends the program.
\<close>

datatype severity = Debug_call | Info_call | Warn_call | Error_call | Fatal_call

record 'l logrus =
  lr_ParseLevel :: "string \<Rightarrow> 'l res"
  lr_InfoLevel :: 'l
  lr_Enabled :: "'l \<Rightarrow> severity \<Rightarrow> bool"

datatype log_output = Stdout | Stderr

datatype log_formatter = TextFormatter | JSONFormatter string

record 'l Logger =
  lg_Out :: log_output
  lg_Formatter :: log_formatter
  lg_Level :: 'l

text \<open>\<open>logrus.New()\<close> writes text to the standard error from the level of information on.\<close>

definition logrus_New :: "'l logrus \<Rightarrow> 'l Logger" where
  "logrus_New lr = \<lparr>lg_Out = Stderr, lg_Formatter = TextFormatter, lg_Level = lr_InfoLevel lr\<rparr>"

definition logger_init :: "'l logrus \<Rightarrow> (string \<Rightarrow> string) \<Rightarrow> 'l Logger" where
  "logger_init lr env =
     (let log = (logrus_New lr)\<lparr>lg_Out := Stdout\<rparr>;
          log = log\<lparr>lg_Formatter := JSONFormatter ''2006-01-02T15:04:05.000Z07:00''\<rparr>;
          level = (case lr_ParseLevel lr (env ''LOG_LEVEL'') of Inl err \<Rightarrow> lr_InfoLevel lr | Inr l \<Rightarrow> l)
      in log\<lparr>lg_Level := level\<rparr>)"

section \<open>Entries\<close>

text \<open>An entry is its fields; a field that is set twice keeps the last value.\<close>

type_synonym 'v fields = "string \<rightharpoonup> 'v"

definition WithFields :: "'v fields \<Rightarrow> 'v fields" where
  "WithFields fs = fs"

definition WithField :: "string \<Rightarrow> 'v \<Rightarrow> 'v fields" where
  "WithField k v = [k \<mapsto> v]"

definition WithError :: "goerr \<Rightarrow> goerr fields" where
  "WithError err = [''error'' \<mapsto> err]"

record 'v log_line =
  ll_Severity :: severity
  ll_Fields :: "'v fields"
  ll_Args :: "string list"

datatype 'v logged = Goes_on "'v log_line list" | Exits "'v log_line list"

definition log_at :: "'l logrus \<Rightarrow> 'l Logger \<Rightarrow> severity \<Rightarrow> 'v fields \<Rightarrow> string list \<Rightarrow> 'v log_line list" where
  "log_at lr L sev fs args =
     (if lr_Enabled lr (lg_Level L) sev then [\<lparr>ll_Severity = sev, ll_Fields = fs, ll_Args = args\<rparr>] else [])"

definition Log_Info :: "'l logrus \<Rightarrow> 'l Logger \<Rightarrow> 'v fields \<Rightarrow> string list \<Rightarrow> 'v logged" where
  "Log_Info lr L fs args = Goes_on (log_at lr L Info_call fs args)"

definition Log_Warn :: "'l logrus \<Rightarrow> 'l Logger \<Rightarrow> 'v fields \<Rightarrow> string list \<Rightarrow> 'v logged" where
  "Log_Warn lr L fs args = Goes_on (log_at lr L Warn_call fs args)"

definition Log_Error :: "'l logrus \<Rightarrow> 'l Logger \<Rightarrow> 'v fields \<Rightarrow> string list \<Rightarrow> 'v logged" where
  "Log_Error lr L fs args = Goes_on (log_at lr L Error_call fs args)"

definition Log_Debug :: "'l logrus \<Rightarrow> 'l Logger \<Rightarrow> 'v fields \<Rightarrow> string list \<Rightarrow> 'v logged" where
  "Log_Debug lr L fs args = Goes_on (log_at lr L Debug_call fs args)"

text \<open>\<open>Fatal\<close> exits with 1 after it has logged, whatever the level.\<close>

definition Log_Fatal :: "'l logrus \<Rightarrow> 'l Logger \<Rightarrow> 'v fields \<Rightarrow> string list \<Rightarrow> 'v logged" where
  "Log_Fatal lr L fs args = Exits (log_at lr L Fatal_call fs args)"

section \<open>The level\<close>

text \<open>What the documentation of logrus says of the levels the program names: at the level of
  information, all but debugging gets through.\<close>

definition logrus_contract :: "'l logrus \<Rightarrow> bool" where
  "logrus_contract lr \<longleftrightarrow> (\<forall>sev. lr_Enabled lr (lr_InfoLevel lr) sev \<longleftrightarrow> sev \<noteq> Debug_call)"

lemma logger_init_level:
  "lg_Level (logger_init lr env) = (case lr_ParseLevel lr (env ''LOG_LEVEL'') of Inl err \<Rightarrow> lr_InfoLevel lr | Inr l \<Rightarrow> l)"
  by (simp add: logger_init_def Let_def)

text \<open>Without a level that can be read, a line of debugging is dropped and any other is written, with
  its fields.\<close>

lemma unreadable_level_logs_information:
  assumes "logrus_contract lr" and "lr_ParseLevel lr (env ''LOG_LEVEL'') = Inl err"
  shows "Log_Debug lr (logger_init lr env) fs args = Goes_on []"
    and "Log_Info lr (logger_init lr env) fs args = Goes_on [\<lparr>ll_Severity = Info_call, ll_Fields = fs, ll_Args = args\<rparr>]"
    and "Log_Fatal lr (logger_init lr env) fs args = Exits [\<lparr>ll_Severity = Fatal_call, ll_Fields = fs, ll_Args = args\<rparr>]"
  using assms
  by (simp_all add: Log_Debug_def Log_Info_def Log_Fatal_def log_at_def logger_init_level logrus_contract_def)

end
