(* ===== verification/Metrics.thy ===== *)
theory Metrics
  imports Logger
begin

text \<open>
  The metrics of \<open>internal/metrics/metrics.go\<close>: the vectors and their registration, the server that
  exports them, and the recording functions. A recording function is the list of calls it makes on the
  metric vectors, each with its label values; the Prometheus registry is a parameter. What a
  gauge shows for a series is the last value set on that series.
\<close>

datatype metric = JobsTotal | JobDuration | WorkersActive | QueueSize | LeaderElections | NodeInfoGauge | RetryAttempts

section \<open>The vectors\<close>

text \<open>The histogram has the default buckets of the library.\<close>

datatype metric_kind = CounterVec | HistogramVec | GaugeVec

record metric_vec =
  mv_Kind :: metric_kind
  mv_Name :: string
  mv_Help :: string
  mv_Labels :: "string list"

fun metric_vector :: "metric \<Rightarrow> metric_vec" where
  "metric_vector JobsTotal = \<lparr>mv_Kind = CounterVec, mv_Name = ''jobs_total'',
     mv_Help = ''Total number of jobs processed'', mv_Labels = [''status'', ''type'']\<rparr>"
| "metric_vector JobDuration = \<lparr>mv_Kind = HistogramVec, mv_Name = ''job_duration_seconds'',
     mv_Help = ''Job processing duration in seconds'', mv_Labels = [''type'']\<rparr>"
| "metric_vector WorkersActive = \<lparr>mv_Kind = GaugeVec, mv_Name = ''workers_active'',
     mv_Help = ''Number of active workers'', mv_Labels = [''node_id'']\<rparr>"
| "metric_vector QueueSize = \<lparr>mv_Kind = GaugeVec, mv_Name = ''queue_size'',
     mv_Help = ''Number of jobs in queue'', mv_Labels = [''queue_type'']\<rparr>"
| "metric_vector LeaderElections = \<lparr>mv_Kind = CounterVec, mv_Name = ''leader_elections_total'',
     mv_Help = ''Total number of leader elections'', mv_Labels = [''node_id'', ''result'']\<rparr>"
| "metric_vector NodeInfoGauge = \<lparr>mv_Kind = GaugeVec, mv_Name = ''node_info'',
     mv_Help = ''Node information'', mv_Labels = [''node_id'', ''version'', ''is_leader'']\<rparr>"
| "metric_vector RetryAttempts = \<lparr>mv_Kind = CounterVec, mv_Name = ''retry_attempts_total'',
     mv_Help = ''Total number of job retry attempts'', mv_Labels = [''type'', ''attempt'']\<rparr>"

text \<open>\<open>MustRegister\<close> panics when the registry refuses; \<open>reg\<close> is \<open>Register\<close> of the default
  registry, whose state is of any type.\<close>

type_synonym 'p register = "metric_vec \<Rightarrow> 'p \<Rightarrow> goerr option \<times> 'p"

definition MustRegister :: "'p register \<Rightarrow> metric \<Rightarrow> 'p \<Rightarrow> 'p outcome" where
  "MustRegister reg m p = (case reg (metric_vector m) p of (Some err, p') \<Rightarrow> Panics | (None, p') \<Rightarrow> Returns p')"

fun register_all :: "'p register \<Rightarrow> metric list \<Rightarrow> 'p \<Rightarrow> 'p outcome" where
  "register_all reg [] p = Returns p"
| "register_all reg (m # ms) p = obind (MustRegister reg m p) (register_all reg ms)"

definition metrics_init :: "'p register \<Rightarrow> 'p \<Rightarrow> 'p outcome" where
  "metrics_init reg = register_all reg
     [JobsTotal, JobDuration, WorkersActive, QueueSize, LeaderElections, NodeInfoGauge, RetryAttempts]"

text \<open>What the library promises: a vector is refused when one of its name is registered, and is
  otherwise added; \<open>names\<close> are the names of a registry.\<close>

definition register_contract :: "('p \<Rightarrow> string set) \<Rightarrow> 'p register \<Rightarrow> bool" where
  "register_contract names reg \<longleftrightarrow>
     (\<forall>v p. case reg v p of
        (None, p') \<Rightarrow> mv_Name v \<notin> names p \<and> names p' = insert (mv_Name v) (names p)
      | (Some err, p') \<Rightarrow> mv_Name v \<in> names p)"

definition metric_name :: "metric \<Rightarrow> string" where
  "metric_name m = mv_Name (metric_vector m)"

lemma MustRegister_spec:
  assumes "register_contract names reg"
  shows "if metric_name m \<in> names p then MustRegister reg m p = Panics
    else \<exists>p'. MustRegister reg m p = Returns p' \<and> names p' = insert (metric_name m) (names p)"
  using assms [unfolded register_contract_def, rule_format, of "metric_vector m" p]
  by (auto simp: MustRegister_def metric_name_def split: prod.splits option.splits)

lemma register_all_spec:
  assumes "register_contract names reg" and "distinct (map metric_name ms)"
    and "\<forall>m\<in>set ms. metric_name m \<notin> names p"
  shows "\<exists>p'. register_all reg ms p = Returns p' \<and> names p' = names p \<union> metric_name ` set ms"
  using assms(2,3)
proof (induction ms arbitrary: p)
  case (Cons m ms)
  from MustRegister_spec [OF assms(1), of m p] Cons.prems obtain p1
    where p1: "MustRegister reg m p = Returns p1" "names p1 = insert (metric_name m) (names p)" by auto
  from Cons.prems have "\<forall>k\<in>set ms. metric_name k \<notin> names p1" by (auto simp: p1(2) image_iff)
  from Cons.IH [OF _ this] Cons.prems obtain p2
    where "register_all reg ms p1 = Returns p2" "names p2 = names p1 \<union> metric_name ` set ms" by auto
  with p1 show ?case by auto
qed simp

text \<open>The program starts with its seven vectors registered, which have seven names, unless one of
  the names is taken; a second registration panics.\<close>

lemma metrics_init_registers:
  assumes "register_contract names reg" and "\<forall>m. metric_name m \<notin> names p"
  shows "\<exists>p'. metrics_init reg p = Returns p' \<and> names p' = names p \<union> range metric_name
    \<and> metrics_init reg p' = Panics"
proof -
  let ?ms = "[JobsTotal, JobDuration, WorkersActive, QueueSize, LeaderElections, NodeInfoGauge, RetryAttempts]"
  have all: "set ?ms = UNIV" by (auto intro: metric.exhaust)
  have "distinct (map metric_name ?ms)" by (simp add: metric_name_def)
  from register_all_spec [OF assms(1) this] assms(2) obtain p'
    where p': "register_all reg ?ms p = Returns p'" "names p' = names p \<union> metric_name ` set ?ms" by blast
  have "metric_name JobsTotal \<in> names p'" using p'(2) by simp
  with MustRegister_spec [OF assms(1), of JobsTotal p'] have "MustRegister reg JobsTotal p' = Panics" by simp
  with p' show ?thesis unfolding all by (simp add: metrics_init_def)
qed

section \<open>The recording functions\<close>

datatype metric_call =
    Inc metric "string list"
  | Observe metric "string list" duration
  | Set_to metric "string list" int

text \<open>\<open>string(rune(n))\<close> is the UTF-8 encoding of the code point \<open>n\<close>, not its decimal;
  what is no code point becomes U+FFFD. \<open>rune\<close> cuts to 32 bits.\<close>

definition to_rune :: "int \<Rightarrow> int" where
  "to_rune n = (n + 2 ^ 31) mod 2 ^ 32 - 2 ^ 31"

definition utf8 :: "int \<Rightarrow> int list" where
  "utf8 r =
     (if r < 0 \<or> 1114111 < r \<or> (55296 \<le> r \<and> r < 57344) then [239, 191, 189]
      else if r < 128 then [r]
      else if r < 2048 then [192 + r div 64, 128 + r mod 64]
      else if r < 65536 then [224 + r div 4096, 128 + r div 64 mod 64, 128 + r mod 64]
      else [240 + r div 262144, 128 + r div 4096 mod 64, 128 + r div 64 mod 64, 128 + r mod 64])"

definition string_of_rune :: "int \<Rightarrow> string" where
  "string_of_rune n = map char_of (utf8 (to_rune n))"

definition RecordJobStart :: "string \<Rightarrow> metric_call list" where
  "RecordJobStart jobType = [Inc JobsTotal [''started'', jobType]]"

definition RecordJobCompletion :: "string \<Rightarrow> duration \<Rightarrow> metric_call list" where
  "RecordJobCompletion jobType d = [Inc JobsTotal [''completed'', jobType], Observe JobDuration [jobType] d]"

definition RecordJobFailure :: "string \<Rightarrow> metric_call list" where
  "RecordJobFailure jobType = [Inc JobsTotal [''failed'', jobType]]"

definition RecordJobRetry :: "string \<Rightarrow> int \<Rightarrow> metric_call list" where
  "RecordJobRetry jobType attempt = [Inc RetryAttempts [jobType, string_of_rune attempt]]"

definition UpdateWorkerCount :: "string \<Rightarrow> int \<Rightarrow> metric_call list" where
  "UpdateWorkerCount nodeID n = [Set_to WorkersActive [nodeID] n]"

definition UpdateQueueSize :: "string \<Rightarrow> int \<Rightarrow> metric_call list" where
  "UpdateQueueSize queueType n = [Set_to QueueSize [queueType] n]"

definition RecordLeaderElection :: "string \<Rightarrow> string \<Rightarrow> metric_call list" where
  "RecordLeaderElection nodeID result = [Inc LeaderElections [nodeID, result]]"

definition UpdateNodeInfo :: "string \<Rightarrow> string \<Rightarrow> bool \<Rightarrow> metric_call list" where
  "UpdateNodeInfo nodeID version isLeader =
     [Set_to NodeInfoGauge [nodeID, version, if isLeader then ''true'' else ''false''] 1]"

text \<open>\<open>WithLabelValues\<close> panics when the values are not as many as the labels. Every recording
  function gives as many as the vector has, and uses the operation of the vector's kind.\<close>

fun call_fits :: "metric_call \<Rightarrow> bool" where
  "call_fits (Inc m ls) \<longleftrightarrow> length ls = length (mv_Labels (metric_vector m)) \<and> mv_Kind (metric_vector m) = CounterVec"
| "call_fits (Observe m ls d) \<longleftrightarrow> length ls = length (mv_Labels (metric_vector m)) \<and> mv_Kind (metric_vector m) = HistogramVec"
| "call_fits (Set_to m ls n) \<longleftrightarrow> length ls = length (mv_Labels (metric_vector m)) \<and> mv_Kind (metric_vector m) = GaugeVec"

lemmas recording_defs = RecordJobStart_def RecordJobCompletion_def RecordJobFailure_def RecordJobRetry_def
  UpdateWorkerCount_def UpdateQueueSize_def RecordLeaderElection_def UpdateNodeInfo_def

lemma recordings_fit:
  "list_all call_fits (RecordJobStart t @ RecordJobCompletion t d @ RecordJobFailure t @ RecordJobRetry t a
     @ UpdateWorkerCount i n @ UpdateQueueSize q n @ RecordLeaderElection i r @ UpdateNodeInfo i v b)"
  by (simp add: recording_defs)

section \<open>The metrics server\<close>

text \<open>It listens on the port with two paths; when listening ends, the program ends.\<close>

datatype metrics_handler = Exporter | Plain int string

definition healthHandler :: metrics_handler where
  "healthHandler = Plain 200 ''OK''"

record metrics_server =
  mx_Addr :: string
  mx_Handlers :: "(string \<times> metrics_handler) list"

definition StartMetricsServer :: "string \<Rightarrow> metrics_server" where
  "StartMetricsServer port = \<lparr>mx_Addr = '':'' @ port, mx_Handlers = [(''/metrics'', Exporter), (''/health'', healthHandler)]\<rparr>"

definition metrics_server_ended :: "'l logrus \<Rightarrow> 'l Logger \<Rightarrow> goerr \<Rightarrow> goerr logged" where
  "metrics_server_ended lr L err = Log_Fatal lr L (WithError err) [''Failed to start metrics server'']"

section \<open>What gauges show\<close>

text \<open>The value of a gauge for a series after a list of calls.\<close>

fun gauge :: "metric \<Rightarrow> string list \<Rightarrow> metric_call list \<Rightarrow> int option" where
  "gauge m ls [] = None"
| "gauge m ls (Set_to m' ls' n # cs) = (case gauge m ls cs of
       Some k \<Rightarrow> Some k
     | None \<Rightarrow> if m' = m \<and> ls' = ls then Some n else None)"
| "gauge m ls (c # cs) = gauge m ls cs"

lemma gauge_append: "gauge m ls (cs @ ds) = (case gauge m ls ds of Some k \<Rightarrow> Some k | None \<Rightarrow> gauge m ls cs)"
  by (induction m ls cs rule: gauge.induct) (auto split: option.splits)

lemma node_info_values:
  "gauge NodeInfoGauge ls (concat (map (UpdateNodeInfo nodeID version) bs)) \<in> {None, Some 1}"
  by (induction bs) (auto simp: UpdateNodeInfo_def split: option.splits)

text \<open>The gauge of node information is never taken back: once a node has been leader and has not, both
  of its series show one, whatever is recorded between and after.\<close>

lemma node_info_never_reset:
  assumes "b \<in> set bs"
  shows "gauge NodeInfoGauge [nodeID, version, if b then ''true'' else ''false'']
    (concat (map (UpdateNodeInfo nodeID version) bs)) = Some 1"
  using assms
proof (induction bs)
  case (Cons x bs)
  show ?case
  proof (cases "b \<in> set bs")
    case True
    with Cons.IH show ?thesis by (simp add: gauge_append)
  next
    case False
    with Cons.prems have "x = b" by simp
    moreover have "gauge NodeInfoGauge ls (concat (map (UpdateNodeInfo nodeID version) bs)) \<in> {None, Some 1}" for ls
      by (rule node_info_values)
    from this [of "[nodeID, version, if b then ''true'' else ''false'']"]
    have "gauge NodeInfoGauge [nodeID, version, if b then ''true'' else ''false''] (UpdateNodeInfo nodeID version b
        @ concat (map (UpdateNodeInfo nodeID version) bs)) = Some 1"
      unfolding gauge_append by (auto simp: UpdateNodeInfo_def)
    ultimately show ?thesis by simp
  qed
qed simp

text \<open>The label of a retry's attempt is a control character, not the number.\<close>

lemma retry_label_is_no_number:
  assumes "0 \<le> attempt" and "attempt < 48"
  shows "string_of_rune attempt \<noteq> show_nat (nat attempt)"
proof
  assume eq: "string_of_rune attempt = show_nat (nat attempt)"
  have "to_rune attempt = attempt" using assms by (simp add: to_rune_def)
  with assms have s: "string_of_rune attempt = [char_of attempt]" by (simp add: string_of_rune_def utf8_def)
  have "last (show_nat m) = char_of (48 + m mod 10)" for m by (subst show_nat.simps) simp
  with eq have "last (string_of_rune attempt) = char_of (48 + nat attempt mod 10)" by simp
  with s have eq: "(of_char (char_of attempt :: char) :: int) = of_char (char_of (48 + nat attempt mod 10) :: char)" by simp
  have "(of_char (char_of attempt :: char) :: int) < 48" using assms by simp
  moreover have "48 \<le> (of_char (char_of (48 + n mod 10) :: char) :: int)" for n :: nat
  proof -
    have nat: "(of_char (char_of (48 + n mod 10) :: char) :: nat) = 48 + n mod 10"
      by (simp add: mod_less order_le_less_trans [of _ "57 :: nat"])
    have "(of_char c :: int) = int (of_char c)" for c :: char by (rule of_nat_of_char [symmetric])
    from this [of "char_of (48 + n mod 10)"] show ?thesis unfolding nat by simp
  qed
  ultimately show False unfolding eq by (meson not_less)
qed

end
