(* ===== verification/Tls.thy ===== *)
theory Tls
  imports Config
begin

text \<open>
  The TLS settings of \<open>internal/tls/tls.go\<close>: the configurations, servers and clients it makes.
  Reading certificates is a parameter, the record \<open>tls_lib\<close>; a certificate and a pool of
  certificates are what it returns. The numbers of versions and cipher suites are those of
  \<open>crypto/tls\<close>.
\<close>

record tls_lib =
  tl_LoadX509KeyPair :: "string \<Rightarrow> string \<Rightarrow> string res"
  tl_ReadFile :: "string \<Rightarrow> string res"
  tl_AppendCertsFromPEM :: "string \<Rightarrow> string list option"

record TLSConfig =
  tc_Enabled :: bool
  tc_CertFile :: string
  tc_KeyFile :: string

record tls_settings =
  ts_Certificates :: "string list"
  ts_MinVersion :: int
  ts_CipherSuites :: "int list"
  ts_RootCAs :: "string list option"

definition VersionTLS12 :: int where "VersionTLS12 = 771"

definition cipher_suites :: "int list" where
  "cipher_suites = [49200, 52392, 49199]"

text \<open>The fields of \<open>http.Server\<close> and of \<open>http.Client\<close> that the program sets.\<close>

record 'h http_Server =
  hs_Addr :: string
  hs_Handler :: 'h
  hs_TLSConfig :: "tls_settings option"
  hs_ReadTimeout :: duration
  hs_WriteTimeout :: duration

record http_Client =
  hc_TLSClientConfig :: "tls_settings option"

definition NewTLSConfig :: "SecurityConfig \<Rightarrow> TLSConfig" where
  "NewTLSConfig cfg = \<lparr>tc_Enabled = se_TLSEnabled cfg, tc_CertFile = se_CertFile cfg, tc_KeyFile = se_KeyFile cfg\<rparr>"

text \<open>\<open>Inr None\<close> is the pair of a nil configuration and a nil error.\<close>

definition CreateTLSConfig :: "tls_lib \<Rightarrow> TLSConfig \<Rightarrow> tls_settings option res" where
  "CreateTLSConfig lib t =
     (if \<not> tc_Enabled t then Inr None
      else case tl_LoadX509KeyPair lib (tc_CertFile t) (tc_KeyFile t) of
          Inl err \<Rightarrow> Inl (Wrap ''failed to load TLS certificate'' err)
        | Inr cert \<Rightarrow> Inr (Some \<lparr>ts_Certificates = [cert], ts_MinVersion = VersionTLS12,
            ts_CipherSuites = cipher_suites, ts_RootCAs = None\<rparr>))"

definition CreateHTTPSServer :: "tls_lib \<Rightarrow> TLSConfig \<Rightarrow> 'h \<Rightarrow> string \<Rightarrow> 'h http_Server res" where
  "CreateHTTPSServer lib t handler addr =
     (if \<not> tc_Enabled t
      then Inr \<lparr>hs_Addr = addr, hs_Handler = handler, hs_TLSConfig = None, hs_ReadTimeout = 0, hs_WriteTimeout = 0\<rparr>
      else case CreateTLSConfig lib t of
          Inl err \<Rightarrow> Inl err
        | Inr tlsConfig \<Rightarrow> Inr \<lparr>hs_Addr = addr, hs_Handler = handler, hs_TLSConfig = tlsConfig,
            hs_ReadTimeout = 0, hs_WriteTimeout = 0\<rparr>)"

definition CreateHTTPClient :: "tls_lib \<Rightarrow> TLSConfig \<Rightarrow> string \<Rightarrow> http_Client res" where
  "CreateHTTPClient lib t caCertFile =
     (if \<not> tc_Enabled t then Inr \<lparr>hc_TLSClientConfig = None\<rparr>
      else let tlsConfig = \<lparr>ts_Certificates = [], ts_MinVersion = VersionTLS12, ts_CipherSuites = [], ts_RootCAs = None\<rparr>
        in if caCertFile \<noteq> '''' then
             case tl_ReadFile lib caCertFile of
               Inl err \<Rightarrow> Inl (Wrap ''failed to read CA certificate'' err)
             | Inr caCert \<Rightarrow>
                 (case tl_AppendCertsFromPEM lib caCert of
                    None \<Rightarrow> Inl (Errorf ''failed to parse CA certificate'')
                  | Some caCertPool \<Rightarrow> Inr \<lparr>hc_TLSClientConfig = Some (tlsConfig\<lparr>ts_RootCAs := Some caCertPool\<rparr>)\<rparr>)
           else Inr \<lparr>hc_TLSClientConfig = Some tlsConfig\<rparr>)"

definition GenerateSelfSignedCert :: "string \<Rightarrow> string \<Rightarrow> goerr option" where
  "GenerateSelfSignedCert certFile keyFile =
     Some (Errorf ''certificate generation not implemented - use openssl or similar tool'')"

text \<open>With TLS on, what is made speaks TLS 1.2 at least, and a server has a certificate and offers
  only the three suites; a client trusts only the authorities of the file it is given.\<close>

lemma https_made:
  assumes "tc_Enabled t" and "CreateHTTPSServer lib t h addr = Inr srv"
  shows "\<exists>ts. hs_TLSConfig srv = Some ts \<and> ts_MinVersion ts = VersionTLS12 \<and> length (ts_Certificates ts) = 1
    \<and> ts_CipherSuites ts = cipher_suites"
  using assms by (auto simp: CreateHTTPSServer_def CreateTLSConfig_def split: sum.splits)

lemma https_client_made:
  assumes "tc_Enabled t" and "CreateHTTPClient lib t ca = Inr cl"
  shows "\<exists>ts. hc_TLSClientConfig cl = Some ts \<and> ts_MinVersion ts = VersionTLS12 \<and> (ts_RootCAs ts = None \<longleftrightarrow> ca = '''')"
  using assms by (auto simp: CreateHTTPClient_def Let_def split: sum.splits option.splits if_splits)

end
