(* ===== verification/Server.thy ===== *)
theory Server
  imports Connect Pool LoadBalancer Election Auth Metrics Tls
    "HOL-Library.List_Lexorder" "HOL-Library.Char_ord"
begin

text \<open>
  The server of \<open>internal/server/server.go\<close> and \<open>election_info.go\<close>: how it is put
  together, started and shut down, its table of routes, and its handlers on the shared storage, queue,
  worker pool and election. gin's router and JSON decoder are outside: a request is one that the
  router has matched, with its path and query parameters and the value tree of its body. A handler
  returns the response and the server after it. The readings of the clock are \<open>clk 0\<close>,
  \<open>clk 1\<close>, and so on, in the order the code makes them.
\<close>

section \<open>Requests and JSON forms\<close>

record Request = Context +
  rq_Param :: "string \<Rightarrow> string"
  rq_Query :: "string \<Rightarrow> string"
  rq_Body :: "json res"
  rq_Login :: "(string \<times> string) res"

text \<open>A \<open>gin.H\<close> is written with its keys in order; a nil slice is \<open>null\<close>.\<close>

definition gin_H :: "(string \<times> json) list \<Rightarrow> json" where
  "gin_H kvs = JObj (sort_key fst kvs)"

definition slice_json :: "('a \<Rightarrow> json) \<Rightarrow> 'a list \<Rightarrow> json" where
  "slice_json f xs = (if xs = [] then JNull else JArr (map f xs))"

definition job_json :: "job \<Rightarrow> json" where
  "job_json j = JObj (job_fields j)"

definition stats_json :: "JobStats \<Rightarrow> json" where
  "stats_json s = JObj [(''total'', JInt (js_Total s)), (''pending'', JInt (js_Pending s)),
     (''running'', JInt (js_Running s)), (''completed'', JInt (js_Completed s)),
     (''failed'', JInt (js_Failed s)), (''retrying'', JInt (js_Retrying s))]"

definition worker_json :: "WorkerStats \<Rightarrow> json" where
  "worker_json w = JObj [(''id'', JStr (ws_ID w)), (''node_id'', JStr (ws_NodeID w)),
     (''is_active'', JBool (ws_IsActive w)), (''job_count'', JInt (ws_JobCount w))]"

definition node_json :: "NodeInfo \<Rightarrow> json" where
  "node_json n = JObj ([(''id'', JStr (ni_ID n)), (''address'', JStr (ni_Address n)),
     (''is_leader'', JBool (ni_IsLeader n)), (''last_seen'', JTime (ni_LastSeen n)),
     (''worker_count'', JInt (ni_WorkerCount n)), (''version'', JStr (ni_Version n))]
     @ (if ni_Term n = 0 then [] else [(''term'', JInt (ni_Term n))]))"

text \<open>The map of the queue's counts, by the keys it can have.\<close>

definition counts_json :: "(string \<rightharpoonup> int) \<Rightarrow> json" where
  "counts_json m = gin_H (map (\<lambda>k. (k, JInt (the (m k))))
     (filter (\<lambda>k. m k \<noteq> None) [''pending'', ''processing'', ''completed'', ''failed'', ''delayed'']))"

section \<open>The server\<close>

datatype endpoint = login | create_job | get_job | list_jobs | delete_job | get_stats | get_workers
  | get_nodes | get_leader | get_election_info | get_algorithm_info | get_cluster_status | health_check

text \<open>A route with its handlers: whether the group's authentication middleware comes first, the role
  that is required, and the endpoint.\<close>

record route =
  ro_Method :: string
  ro_Path :: string
  ro_Auth :: bool
  ro_Role :: "Role option"
  ro_Endpoint :: endpoint

text \<open>The pool is its workers and its configuration; it shares queue and storage.
  \<open>sv_metrics\<close> records the calls on the metrics, \<open>sv_metricsServer\<close> is the server that
  exports them once it has been started, and the fields after it say whether the HTTP server listens, the workers
  run and the connections are open.\<close>

record ('r, 'd, 'g) Server =
  sv_config :: Config
  sv_storage :: "'d MongoStorage"
  sv_queue :: "'r RedisQueue"
  sv_workers :: "Worker list"
  sv_pool :: PoolConfig
  sv_election :: Election
  sv_callbacks :: "(bool \<Rightarrow> string \<Rightarrow> metric_call list) list"
  sv_loadBalancer :: "'g LoadBalancer"
  sv_httpServer :: "route list http_Server option"
  sv_registry :: ProcessorRegistry
  sv_authManager :: AuthConfig
  sv_tlsConfig :: TLSConfig
  sv_metrics :: "metric_call list"
  sv_metricsServer :: "metrics_server option"
  sv_listening :: bool
  sv_running :: bool
  sv_queueOpen :: bool
  sv_storageOpen :: bool

definition NewPool :: "int \<Rightarrow> string \<Rightarrow> (int \<Rightarrow> duration) \<Rightarrow> (Worker list \<times> PoolConfig) outcome" where
  "NewPool workerCount nodeID delay =
     obind (new_workers workerCount nodeID) (\<lambda>ws. Returns (ws, \<lparr>pc_registry = Map.empty, pc_delay = delay\<rparr>))"

text \<open>\<open>rs\<close> are the random numbers of the retry policy, \<open>draw\<close> is that of the election,
  \<open>g\<close> the generator of the load balancer.\<close>

definition New ::
  "('r, 'd, 'c) services \<Rightarrow> float_env \<Rightarrow> (nat \<Rightarrow> real) \<Rightarrow> gtime \<Rightarrow> real \<Rightarrow> 'g \<Rightarrow> Config
    \<Rightarrow> ('r, 'd, 'g) Server res outcome" where
  "New x fe rs now draw g cfg =
     (case NewMongoStorage x (mc_URI (cf_MongoDB cfg)) (mc_Database (cf_MongoDB cfg)) (mc_Timeout (cf_MongoDB cfg)) of
        Inl err \<Rightarrow> Returns (Inl (Wrap ''failed to create MongoDB storage'' err))
      | Inr mongoStorage \<Rightarrow>
          (let redisQueue = NewRedisQueue x (rc_Addr (cf_Redis cfg)) (rc_Password (cf_Redis cfg)) (rc_DB (cf_Redis cfg));
               retryPolicy = CreatePolicy (rt_Policy (cf_Retry cfg)) (rt_BaseDelay (cf_Retry cfg))
                 (rt_MaxDelay (cf_Retry cfg)) (rt_Multiplier (cf_Retry cfg)) (rt_JitterFactor (cf_Retry cfg))
           in obind (NewPool (sc_WorkerCount (cf_Server cfg)) (sc_NodeID (cf_Server cfg)) (Retry.NextDelay fe rs retryPolicy))
             (\<lambda>(ws, pool).
                obind (CreateElection now draw (ec_Algorithm (cf_Election cfg)) (sc_NodeID (cf_Server cfg))
                    (ec_Timeout (cf_Election cfg)) (ec_Interval (cf_Election cfg)))
                  (\<lambda>r. case r of
                     Inl err \<Rightarrow> Returns (Inl (Wrap ''failed to create election algorithm'' err))
                   | Inr electionAlgorithm \<Rightarrow> Returns (Inr
                       \<lparr>sv_config = cfg, sv_storage = mongoStorage, sv_queue = redisQueue, sv_workers = ws, sv_pool = pool,
                        sv_election = electionAlgorithm, sv_callbacks = [],
                        sv_loadBalancer = LoadBalancer_Create g (lc_Strategy (cf_LoadBalancer cfg)),
                        sv_httpServer = None, sv_registry = Map.empty,
                        sv_authManager = \<lparr>ac_Enabled = se_AuthEnabled (cf_Security cfg),
                          ac_JWTSecret = se_JWTSecret (cf_Security cfg), ac_TokenTTL = seconds (24 * 3600)\<rparr>,
                        sv_tlsConfig = NewTLSConfig (cf_Security cfg), sv_metrics = [], sv_metricsServer = None,
                        sv_listening = False, sv_running = False, sv_queueOpen = True, sv_storageOpen = True\<rparr>)))))"

definition Server_RegisterProcessor :: "processor \<Rightarrow> ('r, 'd, 'g) Server \<Rightarrow> ('r, 'd, 'g) Server" where
  "Server_RegisterProcessor p s = s\<lparr>sv_pool := RegisterProcessor p (sv_pool s),
     sv_registry := registry_Register (sv_registry s) p\<rparr>"

text \<open>\<open>Router\<close> before \<open>setupHTTPServer\<close> dereferences a nil pointer.\<close>

definition Router :: "('r, 'd, 'g) Server \<Rightarrow> route list outcome" where
  "Router s = (case sv_httpServer s of None \<Rightarrow> Panics | Some h \<Rightarrow> Returns (hs_Handler h))"

definition api_routes :: "(string \<times> string \<times> Role \<times> endpoint) list" where
  "api_routes =
     [(''POST'', ''/jobs'', RoleUser, create_job),
      (''GET'', ''/jobs/:id'', RoleUser, get_job),
      (''GET'', ''/jobs'', RoleUser, list_jobs),
      (''DELETE'', ''/jobs/:id'', RoleAdmin, delete_job),
      (''GET'', ''/stats'', RoleUser, get_stats),
      (''GET'', ''/workers'', RoleAdmin, get_workers),
      (''GET'', ''/nodes'', RoleAdmin, get_nodes),
      (''GET'', ''/leader'', RoleUser, get_leader),
      (''GET'', ''/election'', RoleUser, get_election_info),
      (''GET'', ''/election/algorithms/:algorithm'', RoleUser, get_algorithm_info),
      (''GET'', ''/cluster'', RoleAdmin, get_cluster_status)]"

definition routes :: "bool \<Rightarrow> route list" where
  "routes authEnabled =
     (if authEnabled then [\<lparr>ro_Method = ''POST'', ro_Path = ''/auth/login'', ro_Auth = False, ro_Role = None,
        ro_Endpoint = login\<rparr>] else [])
     @ map (\<lambda>(m, p, q, h). \<lparr>ro_Method = m, ro_Path = ''/api/v1'' @ p, ro_Auth = authEnabled, ro_Role = Some q,
         ro_Endpoint = h\<rparr>) api_routes
     @ [\<lparr>ro_Method = ''GET'', ro_Path = ''/health'', ro_Auth = False, ro_Role = None, ro_Endpoint = health_check\<rparr>]"

definition setupHTTPServer :: "('r, 'd, 'g) Server \<Rightarrow> ('r, 'd, 'g) Server" where
  "setupHTTPServer s = s\<lparr>sv_httpServer := Some
     \<lparr>hs_Addr = '':'' @ sc_Port (cf_Server (sv_config s)),
      hs_Handler = routes (se_AuthEnabled (cf_Security (sv_config s))),
      hs_TLSConfig = None, hs_ReadTimeout = seconds 30, hs_WriteTimeout = seconds 30\<rparr>\<rparr>"

definition leadership_callback :: "string \<Rightarrow> bool \<Rightarrow> string \<Rightarrow> metric_call list" where
  "leadership_callback nodeID isLeader leaderID =
     (if isLeader then RecordLeaderElection nodeID ''elected'' else []) @ UpdateNodeInfo nodeID ''1.0.0'' isLeader"

datatype listening = ListenAndServe | ListenAndServeTLS string string

text \<open>\<open>Start\<close> until it listens: it returns only when listening ends.\<close>

definition Start ::
  "gtime \<Rightarrow> int \<times> int \<Rightarrow> int \<Rightarrow> ('r, 'd, 'g) Server \<Rightarrow> (listening \<times> ('r, 'd, 'g) Server) outcome" where
  "Start now rs n s =
     (let s0 = (if me_Enabled (cf_Metrics (sv_config s))
          then s\<lparr>sv_metricsServer := Some (StartMetricsServer (me_Port (cf_Metrics (sv_config s))))\<rparr> else s)
      in obind (Election_Start now rs n (sv_election s0) (sv_storage s0)) (\<lambda>(u, e, st).
       let s1 = s0\<lparr>sv_election := e, sv_storage := st, sv_running := True\<rparr>;
           s2 = setupHTTPServer s1;
           s3 = s2\<lparr>sv_callbacks := sv_callbacks s2 @ [leadership_callback (sc_NodeID (cf_Server (sv_config s2)))], sv_listening := True\<rparr>;
           sec = cf_Security (sv_config s3)
       in Returns (if se_TLSEnabled sec then ListenAndServeTLS (se_CertFile sec) (se_KeyFile sec) else ListenAndServe, s3)))"

definition Shutdown :: "gtime \<Rightarrow> ('r, 'd, 'g) Server \<Rightarrow> ('r, 'd, 'g) Server outcome" where
  "Shutdown now s =
     (let s0 = (if sv_httpServer s \<noteq> None then s\<lparr>sv_listening := False\<rparr> else s);
          s1 = s0\<lparr>sv_running := False\<rparr>
      in obind (Election_Stop now (sv_election s1) (sv_storage s1)) (\<lambda>(u, e, st).
           Returns (s1\<lparr>sv_election := e, sv_storage := st, sv_queueOpen := False, sv_storageOpen := False\<rparr>)))"

section \<open>Handlers of jobs\<close>

type_synonym ('r, 'd, 'g) answer = "(Response \<times> ('r, 'd, 'g) Server) outcome"

text \<open>\<open>ShouldBindJSON(&j)\<close>: the error of the decoder, or what \<open>json.Unmarshal\<close> makes of
  the tree.\<close>

definition bind_job :: "Request \<Rightarrow> job res" where
  "bind_job rq = (case rq_Body rq of Inl err \<Rightarrow> Inl err | Inr d \<Rightarrow> unmarshal_job d)"

definition default_retries :: "int \<Rightarrow> job \<Rightarrow> job" where
  "default_retries n j = (if j_MaxRetries j = 0 then j\<lparr>j_MaxRetries := n\<rparr> else j)"

definition createJob ::
  "ObjectID \<Rightarrow> (nat \<Rightarrow> gtime) \<Rightarrow> Request \<Rightarrow> ('r, 'd, 'g) Server \<Rightarrow> ('r, 'd, 'g) answer" where
  "createJob oid clk rq s =
     (case bind_job rq of
        Inl err \<Rightarrow> Returns (respond_error 400 (Error err), s)
      | Inr j0 \<Rightarrow>
          (case CreateJob oid (clk 0) (default_retries (rt_MaxRetries (cf_Retry (sv_config s))) j0) (sv_storage s) of
             ((Some err, j), st) \<Rightarrow> Returns (respond_error 500 (Error err), s\<lparr>sv_storage := st\<rparr>)
           | ((None, j), st) \<Rightarrow>
               (case Push (clk 1) j (sv_queue s) of
                  (Some err, q) \<Rightarrow> Returns (respond_error 500 (Error err), s\<lparr>sv_storage := st, sv_queue := q\<rparr>)
                | (None, q) \<Rightarrow> Returns (\<lparr>rs_Status = 201, rs_Body = job_json j\<rparr>,
                    s\<lparr>sv_storage := st, sv_queue := q, sv_metrics := sv_metrics s @ RecordJobStart (j_Type j)\<rparr>))))"

definition getJob :: "Request \<Rightarrow> ('r, 'd, 'g) Server \<Rightarrow> ('r, 'd, 'g) answer" where
  "getJob rq s =
     (case oid_FromHex (ms_client (sv_storage s)) (rq_Param rq ''id'') of
        Inl err \<Rightarrow> Returns (respond_error 400 ''Invalid job ID'', s)
      | Inr objID \<Rightarrow>
          (case GetJob objID (sv_storage s) of
             (Inl err, st) \<Rightarrow> Returns (respond_error 404 (Error err), s\<lparr>sv_storage := st\<rparr>)
           | (Inr j, st) \<Rightarrow> Returns (\<lparr>rs_Status = 200, rs_Body = job_json j\<rparr>, s\<lparr>sv_storage := st\<rparr>)))"

definition list_filter :: "Request \<Rightarrow> JobFilter" where
  "list_filter rq =
     (let f0 = \<lparr>jf_Status = [], jf_Type = '''', jf_WorkerID = '''', jf_CreatedAfter = None, jf_CreatedBefore = None,
            jf_Limit = 50, jf_Offset = 0\<rparr>;
          f1 = (if rq_Query rq ''status'' \<noteq> '''' then f0\<lparr>jf_Status := [rq_Query rq ''status'']\<rparr> else f0)
      in if rq_Query rq ''type'' \<noteq> '''' then f1\<lparr>jf_Type := rq_Query rq ''type''\<rparr> else f1)"

definition listJobs :: "Request \<Rightarrow> ('r, 'd, 'g) Server \<Rightarrow> ('r, 'd, 'g) answer" where
  "listJobs rq s =
     (case GetJobs (list_filter rq) (sv_storage s) of
        (Inl err, st) \<Rightarrow> Returns (respond_error 500 (Error err), s\<lparr>sv_storage := st\<rparr>)
      | (Inr jobs, st) \<Rightarrow> Returns (\<lparr>rs_Status = 200, rs_Body = slice_json job_json jobs\<rparr>, s\<lparr>sv_storage := st\<rparr>))"

definition deleteJob :: "Request \<Rightarrow> ('r, 'd, 'g) Server \<Rightarrow> ('r, 'd, 'g) answer" where
  "deleteJob rq s =
     (case oid_FromHex (ms_client (sv_storage s)) (rq_Param rq ''id'') of
        Inl err \<Rightarrow> Returns (respond_error 400 ''Invalid job ID'', s)
      | Inr objID \<Rightarrow>
          (case DeleteJob objID (sv_storage s) of
             (Some err, st) \<Rightarrow> Returns (respond_error 404 (Error err), s\<lparr>sv_storage := st\<rparr>)
           | (None, st) \<Rightarrow> Returns (\<lparr>rs_Status = 200, rs_Body = gin_H [(''message'', JStr ''Job deleted successfully'')]\<rparr>,
               s\<lparr>sv_storage := st\<rparr>)))"

section \<open>Handlers of state\<close>

text \<open>Asking the election.\<close>

definition ask :: "(Election \<Rightarrow> 'd MongoStorage \<Rightarrow> ('d, 'a) call) \<Rightarrow> ('r, 'd, 'g) Server
    \<Rightarrow> ('a \<times> ('r, 'd, 'g) Server) outcome" where
  "ask q s = obind (q (sv_election s) (sv_storage s))
     (\<lambda>(x, e, st). Returns (x, s\<lparr>sv_election := e, sv_storage := st\<rparr>))"

definition getStats :: "Request \<Rightarrow> ('r, 'd, 'g) Server \<Rightarrow> ('r, 'd, 'g) answer" where
  "getStats rq s =
     (case GetJobStats (sv_storage s) of
        (Inl err, st) \<Rightarrow> Returns (respond_error 500 (Error err), s\<lparr>sv_storage := st\<rparr>)
      | (Inr jobStats, st) \<Rightarrow>
          (case GetStats (sv_queue s) of
             (Inl err, q) \<Rightarrow> Returns (respond_error 500 (Error err), s\<lparr>sv_storage := st, sv_queue := q\<rparr>)
           | (Inr queueStats, q) \<Rightarrow>
               obind (ask Election_IsLeader (s\<lparr>sv_storage := st, sv_queue := q\<rparr>)) (\<lambda>(isLeader, s1).
                 Returns (\<lparr>rs_Status = 200, rs_Body = gin_H
                   [(''jobs'', stats_json jobStats), (''queue'', counts_json queueStats),
                    (''node'', gin_H [(''id'', JStr (sc_NodeID (cf_Server (sv_config s1)))), (''is_leader'', JBool isLeader),
                       (''strategy'', JStr (GetStrategy (sv_loadBalancer s1)))])]\<rparr>, s1))))"

definition getWorkers :: "Request \<Rightarrow> ('r, 'd, 'g) Server \<Rightarrow> ('r, 'd, 'g) answer" where
  "getWorkers rq s = Returns (\<lparr>rs_Status = 200, rs_Body = JArr (map worker_json (GetWorkerStats (sv_workers s)))\<rparr>, s)"

definition getNodes :: "gtime \<Rightarrow> Request \<Rightarrow> ('r, 'd, 'g) Server \<Rightarrow> ('r, 'd, 'g) answer" where
  "getNodes now rq s =
     (case GetNodes now (sv_storage s) of
        ((nodes, Some err), st) \<Rightarrow> Returns (respond_error 500 (Error err), s\<lparr>sv_storage := st\<rparr>)
      | ((nodes, None), st) \<Rightarrow> Returns (\<lparr>rs_Status = 200, rs_Body = slice_json node_json nodes\<rparr>, s\<lparr>sv_storage := st\<rparr>))"

text \<open>The entries of the map literal are evaluated in order.\<close>

definition getLeader :: "gtime \<Rightarrow> Request \<Rightarrow> ('r, 'd, 'g) Server \<Rightarrow> ('r, 'd, 'g) answer" where
  "getLeader now rq s =
     obind (ask (Election_GetLeader now) s) (\<lambda>(leader, s1).
     obind (ask Election_IsLeader s1) (\<lambda>(isLeader, s2).
       Returns (\<lparr>rs_Status = 200, rs_Body = gin_H [(''leader_id'', JStr leader), (''is_leader'', JBool isLeader)]\<rparr>, s2)))"

definition healthCheck :: "gtime \<Rightarrow> Request \<Rightarrow> ('r, 'd, 'g) Server \<Rightarrow> ('r, 'd, 'g) answer" where
  "healthCheck now rq s = Returns (\<lparr>rs_Status = 200, rs_Body = gin_H
     [(''status'', JStr ''healthy''), (''node_id'', JStr (sc_NodeID (cf_Server (sv_config s)))), (''time'', JTime now)]\<rparr>, s)"

definition getElectionInfo :: "gtime \<Rightarrow> Request \<Rightarrow> ('r, 'd, 'g) Server \<Rightarrow> ('r, 'd, 'g) answer" where
  "getElectionInfo now rq s =
     obind (ask Election_IsLeader s) (\<lambda>(isLeader, s1).
     obind (ask (Election_GetLeader now) s1) (\<lambda>(leader, s2).
       Returns (\<lparr>rs_Status = 200, rs_Body = gin_H
         [(''current_algorithm'', JStr (ec_Algorithm (cf_Election (sv_config s2)))), (''is_leader'', JBool isLeader),
          (''leader_id'', JStr leader), (''node_id'', JStr (sc_NodeID (cf_Server (sv_config s2)))),
          (''supported_algorithms'', JArr (map JStr GetSupportedAlgorithms))]\<rparr>, s2)))"

definition getAlgorithmInfo :: "Request \<Rightarrow> ('r, 'd, 'g) Server \<Rightarrow> ('r, 'd, 'g) answer" where
  "getAlgorithmInfo rq s =
     (let algorithm = rq_Param rq ''algorithm''; description = GetAlgorithmDescription algorithm
      in Returns (if description = ''Unknown algorithm'' then respond_error 404 ''Algorithm not found''
           else \<lparr>rs_Status = 200, rs_Body = gin_H [(''algorithm'', JStr algorithm), (''description'', JStr description),
             (''configuration'', gin_H (GetRecommendedConfiguration algorithm 5))]\<rparr>, s))"

text \<open>The loop keeps the last leader it meets.\<close>

fun last_leader :: "NodeInfo list \<Rightarrow> NodeInfo option \<Rightarrow> NodeInfo option" where
  "last_leader [] l = l"
| "last_leader (n # ns) l = last_leader ns (if ni_IsLeader n then Some n else l)"

definition getClusterStatus :: "gtime \<Rightarrow> Request \<Rightarrow> ('r, 'd, 'g) Server \<Rightarrow> ('r, 'd, 'g) answer" where
  "getClusterStatus now rq s =
     (case GetNodes now (sv_storage s) of
        ((nodes, Some err), st) \<Rightarrow> Returns (respond_error 500 (Error err), s\<lparr>sv_storage := st\<rparr>)
      | ((nodes, None), st) \<Rightarrow> Returns (\<lparr>rs_Status = 200, rs_Body = gin_H
          [(''cluster_size'', JInt (int (length nodes))),
           (''leader'', case last_leader nodes None of None \<Rightarrow> JNull | Some n \<Rightarrow> node_json n),
           (''election_algorithm'', JStr (ec_Algorithm (cf_Election (sv_config s)))),
           (''nodes'', slice_json node_json nodes)]\<rparr>, s\<lparr>sv_storage := st\<rparr>))"

section \<open>Serving a request\<close>

fun handle :: "jwt_lib \<Rightarrow> ObjectID \<Rightarrow> (nat \<Rightarrow> gtime) \<Rightarrow> endpoint \<Rightarrow> Request \<Rightarrow> ('r, 'd, 'g) Server
    \<Rightarrow> ('r, 'd, 'g) answer" where
  "handle lib oid clk login rq s = Returns (LoginHandler lib (clk 0) (clk 1) (sv_authManager s) (rq_Login rq), s)"
| "handle lib oid clk create_job rq s = createJob oid clk rq s"
| "handle lib oid clk get_job rq s = getJob rq s"
| "handle lib oid clk list_jobs rq s = listJobs rq s"
| "handle lib oid clk delete_job rq s = deleteJob rq s"
| "handle lib oid clk get_stats rq s = getStats rq s"
| "handle lib oid clk get_workers rq s = getWorkers rq s"
| "handle lib oid clk get_nodes rq s = getNodes (clk 0) rq s"
| "handle lib oid clk get_leader rq s = getLeader (clk 0) rq s"
| "handle lib oid clk get_election_info rq s = getElectionInfo (clk 0) rq s"
| "handle lib oid clk get_algorithm_info rq s = getAlgorithmInfo rq s"
| "handle lib oid clk get_cluster_status rq s = getClusterStatus (clk 0) rq s"
| "handle lib oid clk health_check rq s = healthCheck (clk 0) rq s"

text \<open>The handlers of a route in order; one that aborts ends the chain.\<close>

definition serve :: "jwt_lib \<Rightarrow> ObjectID \<Rightarrow> (nat \<Rightarrow> gtime) \<Rightarrow> route \<Rightarrow> Request \<Rightarrow> ('r, 'd, 'g) Server
    \<Rightarrow> ('r, 'd, 'g) answer" where
  "serve lib oid clk ro rq s =
     (case then_handle
         (if ro_Auth ro then AuthMiddleware lib (clk 0) (sv_authManager s) rq else Next rq)
         (case ro_Role ro of None \<Rightarrow> Next | Some q \<Rightarrow> RequireRole (sv_authManager s) q)
      of Abort r \<Rightarrow> Returns (r, s)
       | Next rq' \<Rightarrow> handle lib oid (shift 1 clk) (ro_Endpoint ro) rq' s)"

section \<open>Making, starting, shutting down\<close>

text \<open>What a server is when it is made from a configuration.\<close>

definition made_from :: "Config \<Rightarrow> Election \<Rightarrow> ('r, 'd, 'g) Server \<Rightarrow> bool" where
  "made_from cfg e s \<longleftrightarrow> sv_config s = cfg \<and> sv_election s = e \<and> storage_up (sv_storage s) \<and> queue_up (sv_queue s)
     \<and> int (length (sv_workers s)) = sc_WorkerCount (cf_Server cfg) \<and> sv_httpServer s = None \<and> sv_metrics s = []
     \<and> ac_Enabled (sv_authManager s) = se_AuthEnabled (cf_Security cfg)"

lemma new_server:
  assumes "services_up x"
  shows "case New x fe rs now draw g cfg of
     Blocks \<Rightarrow> False
   | Panics \<Rightarrow> sc_WorkerCount (cf_Server cfg) < 0 \<or> CreateElection now draw (ec_Algorithm (cf_Election cfg))
       (sc_NodeID (cf_Server cfg)) (ec_Timeout (cf_Election cfg)) (ec_Interval (cf_Election cfg)) = Panics
   | Returns (Inl err) \<Rightarrow> 0 \<le> sc_WorkerCount (cf_Server cfg) \<and> (\<exists>err'. CreateElection now draw (ec_Algorithm (cf_Election cfg))
       (sc_NodeID (cf_Server cfg)) (ec_Timeout (cf_Election cfg)) (ec_Interval (cf_Election cfg)) = Returns (Inl err'))
   | Returns (Inr s) \<Rightarrow> 0 \<le> sc_WorkerCount (cf_Server cfg) \<and> made_from cfg (sv_election s) s
       \<and> CreateElection now draw (ec_Algorithm (cf_Election cfg)) (sc_NodeID (cf_Server cfg))
           (ec_Timeout (cf_Election cfg)) (ec_Interval (cf_Election cfg)) = Returns (Inr (sv_election s))"
proof -
  from storage_made [OF assms, of "mc_URI (cf_MongoDB cfg)" "mc_Timeout (cf_MongoDB cfg)" "mc_Database (cf_MongoDB cfg)"]
  obtain st where st: "NewMongoStorage x (mc_URI (cf_MongoDB cfg)) (mc_Database (cf_MongoDB cfg)) (mc_Timeout (cf_MongoDB cfg)) = Inr st"
    "storage_up st" by blast
  have "CreateElection now draw (ec_Algorithm (cf_Election cfg)) (sc_NodeID (cf_Server cfg))
      (ec_Timeout (cf_Election cfg)) (ec_Interval (cf_Election cfg)) \<noteq> Blocks"
    by (simp add: created_cases)
  with st queue_made [OF assms] show ?thesis
    by (cases "CreateElection now draw (ec_Algorithm (cf_Election cfg)) (sc_NodeID (cf_Server cfg))
      (ec_Timeout (cf_Election cfg)) (ec_Interval (cf_Election cfg))")
      (auto simp: New_def NewPool_def new_workers_def Let_def made_from_def split: sum.splits)
qed

text \<open>C34: A server is made of every configuration with a worker count that is not negative, a known
  algorithm and, for the bully election, a node name of five bytes; it leads nothing yet. Started, it
  listens with its routes and its callback in place, unless the timers of the election do not allow it:
  Raft with a timeout below a millisecond, bully with an interval below two nanoseconds.\<close>

theorem server_made_and_started:
  assumes "services_up x"
  shows "case New x fe draws now draw g cfg of
     Blocks \<Rightarrow> False
   | Panics \<Rightarrow> sc_WorkerCount (cf_Server cfg) < 0
       \<or> ec_Algorithm (cf_Election cfg) = ''bully'' \<and> length (sc_NodeID (cf_Server cfg)) < 5
   | Returns (Inl err) \<Rightarrow> ec_Algorithm (cf_Election cfg) \<notin> set GetSupportedAlgorithms
   | Returns (Inr s) \<Rightarrow> made_from cfg (sv_election s) s \<and> election_ok (sv_election s) \<and> \<not> election_leads (sv_election s)
       \<and> (start_panics later ks rs n (sv_election s) (sv_storage s) \<longleftrightarrow>
            ec_Algorithm (cf_Election cfg) = ''bully'' \<and> ec_Interval (cf_Election cfg) < 2
            \<or> ec_Algorithm (cf_Election cfg) = ''raft'' \<and> ec_Timeout (cf_Election cfg) < millis 1)
       \<and> (\<not> start_panics later ks rs n (sv_election s) (sv_storage s) \<longrightarrow>
            (\<exists>l s'. Start later rs n s = Returns (l, s') \<and> (l = ListenAndServe \<longleftrightarrow> \<not> se_TLSEnabled (cf_Security cfg))
              \<and> Router s' = Returns (routes (se_AuthEnabled (cf_Security cfg))) \<and> sv_running s' \<and> length (sv_callbacks s') = Suc (length (sv_callbacks s))))"
proof -
  let ?a = "ec_Algorithm (cf_Election cfg)" and ?n = "sc_NodeID (cf_Server cfg)"
  note ce = created_elections_start [where now = now and draw = draw and algorithm = ?a and nodeID = ?n
      and timeout = "ec_Timeout (cf_Election cfg)" and interval = "ec_Interval (cf_Election cfg)"
      and later = later and rs = rs and n = n and ks = ks]
  show ?thesis
  proof (cases "New x fe draws now draw g cfg")
    case (Returns r)
    show ?thesis
    proof (cases r)
      case (Inr s)
      with Returns new_server [OF assms, where fe = fe and rs = draws and now = now and draw = draw and g = g and cfg = cfg]
      have s: "made_from cfg (sv_election s) s"
        "CreateElection now draw ?a ?n (ec_Timeout (cf_Election cfg)) (ec_Interval (cf_Election cfg)) = Returns (Inr (sv_election s))"
        by simp_all
      have e: "election_ok (sv_election s)" "\<not> election_leads (sv_election s)"
        "Election_Start later rs n (sv_election s) (sv_storage s) \<noteq> Blocks"
        "start_panics later ks rs n (sv_election s) (sv_storage s) \<longleftrightarrow>
            ?a = ''bully'' \<and> ec_Interval (cf_Election cfg) < 2 \<or> ?a = ''raft'' \<and> ec_Timeout (cf_Election cfg) < millis 1"
        using ce [where s = "sv_storage s"] unfolding s(2) by simp_all
      have "\<exists>u e' st. Election_Start later rs n (sv_election s) (sv_storage s) = Returns (u, e', st)"
        if "\<not> start_panics later ks rs n (sv_election s) (sv_storage s)"
        using that e(3) by (cases "sv_election s"; cases "Election_Start later rs n (sv_election s) (sv_storage s)") auto
      then have "\<exists>l s'. Start later rs n s = Returns (l, s') \<and> (l = ListenAndServe \<longleftrightarrow> \<not> se_TLSEnabled (cf_Security cfg))
              \<and> Router s' = Returns (routes (se_AuthEnabled (cf_Security cfg))) \<and> sv_running s' \<and> length (sv_callbacks s') = Suc (length (sv_callbacks s))"
        if "\<not> start_panics later ks rs n (sv_election s) (sv_storage s)"
        using that s(1) by (fastforce simp: Start_def setupHTTPServer_def Router_def made_from_def Let_def)
      with s(1) e Returns Inr show ?thesis by simp
    qed (use Returns new_server [OF assms, where fe = fe and rs = draws and now = now and draw = draw and g = g and cfg = cfg] ce in auto)
  qed (use new_server [OF assms, where fe = fe and rs = draws and now = now and draw = draw and g = g and cfg = cfg] ce in auto)
qed


section \<open>Who is served\<close>

definition bearer_claims :: "jwt_lib \<Rightarrow> gtime \<Rightarrow> AuthConfig \<Rightarrow> 'x Context_scheme \<Rightarrow> Claims \<Rightarrow> bool" where
  "bearer_claims lib now a c claims \<longleftrightarrow>
     (\<exists>t alg. cx_Header c ''Authorization'' = ''Bearer '' @ t \<and> jwt_decode lib t = Some (alg, claims)
        \<and> is_hmac alg \<and> jwt_verifies lib alg (ac_JWTSecret a) t \<and> claims_live now claims)"

definition may_use :: "Role \<Rightarrow> endpoint \<Rightarrow> bool" where
  "may_use role e \<longleftrightarrow> role = RoleAdmin
     \<or> role = RoleUser \<and> e \<notin> {delete_job, get_workers, get_nodes, get_cluster_status}"

lemma guard_iff:
  assumes "jwt_contract lib" and "ac_Enabled a"
  shows "guard lib now a q c = Next c' \<longleftrightarrow>
      (\<exists>claims. bearer_claims lib now a c claims \<and> hasPermission (cl_Role claims) q \<and> c' = with_claims claims c)"
    and "guard lib now a q c = Abort r \<Longrightarrow> rs_Status r \<in> {401, 403}"
  using admitted_exactly [OF assms] unfolding bearer_claims_def by blast+

lemma api_route_roles:
  assumes "ro \<in> set (routes True)" and "ro_Endpoint ro \<notin> {login, health_check}"
  shows "ro_Auth ro \<and> (\<exists>q. ro_Role ro = Some q \<and> (\<forall>r. hasPermission r q \<longleftrightarrow> may_use r (ro_Endpoint ro)))"
proof -
  have "RoleAdmin \<noteq> RoleUser" "RoleAdmin \<noteq> RoleWorker" "RoleUser \<noteq> RoleWorker" by (simp_all add: status_simps)
  with assms show ?thesis
    unfolding routes_def api_routes_def by (auto simp: hasPermission_iff may_use_def)
qed

lemma serve_guarded:
  assumes "ro_Auth ro" and "ro_Role ro = Some q"
  shows "serve lib oid clk ro rq s = (case guard lib (clk 0) (sv_authManager s) q rq of
      Abort r \<Rightarrow> Returns (r, s) | Next rq' \<Rightarrow> handle lib oid (shift 1 clk) (ro_Endpoint ro) rq' s)"
  using assms by (simp add: serve_def guard_def)

text \<open>C4: With authentication on, a request to any route but login and health is handled exactly when it
  carries a live bearer token of the configured secret whose role may use the route: an administrator
  any, a user those that neither delete nor show workers, nodes and the cluster, a worker none. Any
  other request is answered 401 or 403 and leaves the server as it was.\<close>

theorem api_is_guarded:
  assumes "jwt_contract lib" and "ac_Enabled (sv_authManager s)" and "ro \<in> set (routes True)"
    and "ro_Endpoint ro \<notin> {login, health_check}"
  shows "if \<exists>claims. bearer_claims lib (clk 0) (sv_authManager s) rq claims \<and> may_use (cl_Role claims) (ro_Endpoint ro)
    then \<exists>claims. bearer_claims lib (clk 0) (sv_authManager s) rq claims \<and> may_use (cl_Role claims) (ro_Endpoint ro)
      \<and> serve lib oid clk ro rq s = handle lib oid (shift 1 clk) (ro_Endpoint ro) (with_claims claims rq) s
    else \<exists>r. serve lib oid clk ro rq s = Returns (r, s) \<and> rs_Status r \<in> {401, 403}"
proof -
  from api_route_roles [OF assms(3,4)] obtain q where q: "ro_Auth ro" "ro_Role ro = Some q"
    "\<And>r. hasPermission r q \<longleftrightarrow> may_use r (ro_Endpoint ro)" by blast
  note g = guard_iff [OF assms(1,2), of "clk 0" q rq]
  show ?thesis
  proof (cases "guard lib (clk 0) (sv_authManager s) q rq")
    case (Next rq')
    with g(1) [of rq'] obtain claims where c: "bearer_claims lib (clk 0) (sv_authManager s) rq claims"
      "may_use (cl_Role claims) (ro_Endpoint ro)" "rq' = with_claims claims rq" unfolding q(3) by auto
    with Next have "serve lib oid clk ro rq s = handle lib oid (shift 1 clk) (ro_Endpoint ro) (with_claims claims rq) s"
      by (simp add: serve_guarded [OF q(1,2)])
    with c show ?thesis by auto
  next
    case (Abort r)
    with g(1) have "\<not> (\<exists>claims. bearer_claims lib (clk 0) (sv_authManager s) rq claims \<and> may_use (cl_Role claims) (ro_Endpoint ro))"
      unfolding q(3) by auto
    with Abort g(2) show ?thesis by (auto simp: serve_guarded [OF q(1,2)])
  qed
qed

text \<open>With authentication off, every request is handled, whoever sends it.\<close>

theorem open_without_authentication:
  assumes "\<not> ac_Enabled (sv_authManager s)" and "ro \<in> set (routes False)"
  shows "serve lib oid clk ro rq s = handle lib oid (shift 1 clk) (ro_Endpoint ro) rq s \<and> ro_Endpoint ro \<noteq> login"
proof -
  have "\<not> ro_Auth ro" "ro_Endpoint ro \<noteq> login" using assms(2) by (auto simp: routes_def api_routes_def)
  with assms(1) show ?thesis by (simp add: serve_def RequireRole_def split: option.splits)
qed

section \<open>What the handlers do\<close>


text \<open>Both databases answer.\<close>

definition server_up :: "('r, 'd, 'g) Server \<Rightarrow> bool" where
  "server_up s \<longleftrightarrow> storage_up (sv_storage s) \<and> queue_up (sv_queue s)"

text \<open>The job that a request submits, and the document of it that is stored and queued.\<close>

definition submitted :: "ObjectID \<Rightarrow> gtime \<Rightarrow> ('r, 'd, 'g) Server \<Rightarrow> job \<Rightarrow> job" where
  "submitted oid now s j0 = job_defaults oid now (default_retries (rt_MaxRetries (cf_Retry (sv_config s))) j0)"

lemma submitted_wf:
  assumes "bind_job rq = Inr j0" and "in_int64 (rt_MaxRetries (cf_Retry (sv_config s)))"
  shows "wf_job (submitted oid now s j0)"
proof -
  from assms(1) have "wf_job j0" by (auto simp: bind_job_def split: sum.splits dest: unmarshal_job_wf)
  with assms(2) show ?thesis
    by (simp add: submitted_def job_defaults_def default_retries_def wf_job_def Let_def PriorityNormal_def in_int64_def)
qed

lemma createJob_spec:
  assumes "storage_up (sv_storage s)" and "bind_job rq = Inr j0" and "j = submitted oid (clk 0) s j0"
    and "ms_jobs (sv_storage s) (j_ID j) = None"
  shows "\<exists>st. storage_up st \<and> ms_client st = ms_client (sv_storage s)
    \<and> ms_jobs st = (ms_jobs (sv_storage s))(j_ID j \<mapsto> bson_job j)
    \<and> createJob oid clk rq s = (case Push (clk 1) j (sv_queue s) of
        (Some err, q) \<Rightarrow> Returns (respond_error 500 (Error err), s\<lparr>sv_storage := st, sv_queue := q\<rparr>)
      | (None, q) \<Rightarrow> Returns (\<lparr>rs_Status = 201, rs_Body = job_json j\<rparr>,
          s\<lparr>sv_storage := st, sv_queue := q, sv_metrics := sv_metrics s @ RecordJobStart (j_Type j)\<rparr>))"
  using CreateJob_spec [OF assms(1) assms(3) [unfolded submitted_def] assms(4)] assms(2)
  by (auto simp: createJob_def)

lemma getJob_spec:
  assumes "storage_up (sv_storage s)" and "rq_Param rq ''id'' = oid_Hex (ms_client (sv_storage s)) i"
  shows "\<exists>st. getJob rq s = Returns (case ms_jobs (sv_storage s) i of
        Some j \<Rightarrow> \<lparr>rs_Status = 200, rs_Body = job_json j\<rparr>
      | None \<Rightarrow> respond_error 404 (Error (not_found (sv_storage s) i)), s\<lparr>sv_storage := st\<rparr>)
    \<and> storage_up st \<and> ms_client st = ms_client (sv_storage s) \<and> ms_jobs st = ms_jobs (sv_storage s)"
proof -
  have "oid_FromHex (ms_client (sv_storage s)) (rq_Param rq ''id'') = Inr i"
    using assms by (simp add: storage_up_def mongo_contract_def law_Hex_def)
  then show ?thesis using GetJob_spec [OF assms(1), of i]
    by (auto simp: getJob_def split: option.splits)
qed

lemma deleteJob_spec:
  assumes "storage_up (sv_storage s)" and "rq_Param rq ''id'' = oid_Hex (ms_client (sv_storage s)) i"
  shows "\<exists>st. deleteJob rq s = Returns (case ms_jobs (sv_storage s) i of
        Some j \<Rightarrow> \<lparr>rs_Status = 200, rs_Body = gin_H [(''message'', JStr ''Job deleted successfully'')]\<rparr>
      | None \<Rightarrow> respond_error 404 (Error (not_found (sv_storage s) i)), s\<lparr>sv_storage := st\<rparr>)
    \<and> storage_up st \<and> ms_client st = ms_client (sv_storage s) \<and> ms_jobs st = (ms_jobs (sv_storage s))(i := None)"
proof -
  have "oid_FromHex (ms_client (sv_storage s)) (rq_Param rq ''id'') = Inr i"
    using assms by (simp add: storage_up_def mongo_contract_def law_Hex_def)
  then show ?thesis using DeleteJob_spec [OF assms(1), of i]
    by (auto simp: deleteJob_def split: option.splits)
qed

text \<open>The interface of the job endpoints, over the map of the jobs that are stored.\<close>

locale job_api =
  fixes submit :: "ObjectID \<Rightarrow> (nat \<Rightarrow> gtime) \<Rightarrow> Request \<Rightarrow> 's \<Rightarrow> (Response \<times> 's) outcome"
    and get :: "Request \<Rightarrow> 's \<Rightarrow> (Response \<times> 's) outcome"
    and delete :: "Request \<Rightarrow> 's \<Rightarrow> (Response \<times> 's) outcome"
    and up :: "'s \<Rightarrow> bool"
    and jobs :: "'s \<Rightarrow> (ObjectID \<rightharpoonup> job)"
    and names :: "'s \<Rightarrow> Request \<Rightarrow> ObjectID \<Rightarrow> bool"
    and made :: "ObjectID \<Rightarrow> gtime \<Rightarrow> 's \<Rightarrow> job \<Rightarrow> job"
  assumes submit_spec: "up s \<Longrightarrow> bind_job rq = Inr j0 \<Longrightarrow> j = made oid (clk 0) s j0 \<Longrightarrow> jobs s (j_ID j) = None
      \<Longrightarrow> \<exists>r s'. submit oid clk rq s = Returns (r, s') \<and> up s' \<and> names s' = names s
        \<and> jobs s' = (jobs s)(j_ID j \<mapsto> bson_job j) \<and> rs_Status r \<in> {201, 500} \<and> (rs_Status r = 201 \<longrightarrow> rs_Body r = job_json j)"
    and get_spec: "up s \<Longrightarrow> names s rq i \<Longrightarrow>
      \<exists>r s'. get rq s = Returns (r, s') \<and> up s' \<and> names s' = names s \<and> jobs s' = jobs s
        \<and> (case jobs s i of None \<Rightarrow> rs_Status r = 404 | Some j \<Rightarrow> r = \<lparr>rs_Status = 200, rs_Body = job_json j\<rparr>)"
    and delete_spec: "up s \<Longrightarrow> names s rq i \<Longrightarrow>
      \<exists>r s'. delete rq s = Returns (r, s') \<and> up s' \<and> names s' = names s \<and> jobs s' = (jobs s)(i := None)
        \<and> rs_Status r = (if jobs s i = None then 404 else 200)"
begin

lemma submit_then_get:
  assumes "up s" and "bind_job rq = Inr j0" and "j = made oid (clk 0) s j0" and "jobs s (j_ID j) = None"
    and "names s rq' (j_ID j)"
  shows "\<exists>r s' s''. submit oid clk rq s = Returns (r, s') \<and> rs_Status r \<in> {201, 500}
    \<and> get rq' s' = Returns (\<lparr>rs_Status = 200, rs_Body = job_json (bson_job j)\<rparr>, s'')"
proof -
  from submit_spec [where clk = clk, OF assms(1-4)] obtain r s' where s': "submit oid clk rq s = Returns (r, s')" "up s'"
    "names s' = names s" "jobs s' = (jobs s)(j_ID j \<mapsto> bson_job j)" "rs_Status r \<in> {201, 500}" by blast
  from get_spec [OF s'(2), of rq' "j_ID j"] s'(3,4) assms(5) obtain r' s''
    where "get rq' s' = Returns (r', s'')" "r' = \<lparr>rs_Status = 200, rs_Body = job_json (bson_job j)\<rparr>" by auto
  with s'(1,5) show ?thesis by blast
qed

lemma delete_then_get:
  assumes "up s" and "names s rq i" and "names s rq' i"
  shows "\<exists>r s' r' s''. delete rq s = Returns (r, s') \<and> rs_Status r = (if jobs s i = None then 404 else 200)
    \<and> get rq' s' = Returns (r', s'') \<and> rs_Status r' = 404"
proof -
  from delete_spec [OF assms(1,2)] obtain r s' where s': "delete rq s = Returns (r, s')" "up s'" "names s' = names s"
    "jobs s' = (jobs s)(i := None)" "rs_Status r = (if jobs s i = None then 404 else 200)" by blast
  from get_spec [OF s'(2), of rq' i] s'(3,4) assms(3) obtain r' s''
    where "get rq' s' = Returns (r', s'')" "rs_Status r' = 404" by auto
  with s'(1,5) show ?thesis by blast
qed

end

text \<open>A request that names a job in its path.\<close>

definition names_job :: "('r, 'd, 'g) Server \<Rightarrow> Request \<Rightarrow> ObjectID \<Rightarrow> bool" where
  "names_job s rq i \<longleftrightarrow> rq_Param rq ''id'' = oid_Hex (ms_client (sv_storage s)) i"

interpretation api: job_api createJob getJob deleteJob "\<lambda>s. storage_up (sv_storage s)" "\<lambda>s. ms_jobs (sv_storage s)"
  names_job submitted
proof (unfold_locales, goal_cases)
  case (1 s rq j0 j oid clk)
  from createJob_spec [where clk = clk, OF 1] show ?case
    by (cases "Push (clk 1) j (sv_queue s)"; cases "fst (Push (clk 1) j (sv_queue s))")
      (auto simp: names_job_def fun_eq_iff)
next
  case (2 s rq i)
  from getJob_spec [OF 2(1), of rq i] 2(2) show ?case by (auto simp: names_job_def fun_eq_iff split: option.splits)
next
  case (3 s rq i)
  from deleteJob_spec [OF 3(1), of rq i] 3(2) show ?case by (auto simp: names_job_def fun_eq_iff split: option.splits)
qed

lemma submitted_spec:
  assumes "server_up s" and "bind_job rq = Inr j0" and "j = submitted oid (clk 0) s j0"
    and "ms_jobs (sv_storage s) (j_ID j) = None" and "times_ok j"
  shows "\<exists>st q. createJob oid clk rq s = Returns (\<lparr>rs_Status = 201, rs_Body = job_json j\<rparr>,
        s\<lparr>sv_storage := st, sv_queue := q, sv_metrics := sv_metrics s @ RecordJobStart (j_Type j)\<rparr>)
    \<and> storage_up st \<and> ms_client st = ms_client (sv_storage s) \<and> queue_up q \<and> ms_jobs st = (ms_jobs (sv_storage s))(j_ID j \<mapsto> bson_job j)
    \<and> abs_q q = abs_push (clk 1) (j_ScheduledAt j) (doc j) (abs_q (sv_queue s))"
proof -
  have up: "storage_up (sv_storage s)" "queue_up (sv_queue s)" using assms(1) by (simp_all add: server_up_def)
  from Push_refines [OF up(2) marshal_doc [OF assms(5)], of "clk 1"] obtain q
    where "Push (clk 1) j (sv_queue s) = (None, q)" "queue_up q"
      "abs_q q = abs_push (clk 1) (j_ScheduledAt j) (doc j) (abs_q (sv_queue s))" by blast
  with createJob_spec [where clk = clk, OF up(1) assms(2-4)] show ?thesis by auto
qed

text \<open>C33: A job that is submitted while both databases answer is answered 201 and with the job as it is
  stored; it is stored under its identifier, and waits at the end of the queue, or is held back when
  it is scheduled for later; one job is counted as started and nothing else changes.\<close>

theorem submitted_job_waits:
  assumes "server_up s" and "bind_job rq = Inr j0" and "j = submitted oid (clk 0) s j0"
    and "ms_jobs (sv_storage s) (j_ID j) = None" and "times_ok j"
  shows "\<exists>st q. createJob oid clk rq s = Returns (\<lparr>rs_Status = 201, rs_Body = job_json j\<rparr>,
        s\<lparr>sv_storage := st, sv_queue := q, sv_metrics := sv_metrics s @ [Inc JobsTotal [''started'', j_Type j]]\<rparr>)
    \<and> storage_up st \<and> queue_up q \<and> ms_jobs st = (ms_jobs (sv_storage s))(j_ID j \<mapsto> bson_job j)
    \<and> abs_q q = abs_push (clk 1) (j_ScheduledAt j) (doc j) (abs_q (sv_queue s))"
  using submitted_spec [where clk = clk, OF assms] by (auto simp: RecordJobStart_def)



lemma ask_queries:
  assumes "election_ok (sv_election s)"
  shows "ask Election_IsLeader s = Returns (election_leads (sv_election s), s)"
    and "\<exists>l st. ask (Election_GetLeader now) s = Returns (l, s\<lparr>sv_storage := st\<rparr>)
      \<and> (election_leads (sv_election s) \<longrightarrow> l = election_node (sv_election s) \<and> st = sv_storage s)"
proof -
  show "ask Election_IsLeader s = Returns (election_leads (sv_election s), s)"
    by (simp add: ask_def any.is_leader [OF assms])
  from any.queries_return [OF assms, of now "sv_storage s"] obtain l st
    where "Election_GetLeader now (sv_election s) (sv_storage s) = Returns (l, sv_election s, st)"
      "election_leads (sv_election s) \<longrightarrow> l = election_node (sv_election s) \<and> st = sv_storage s" by blast
  then show "\<exists>l st. ask (Election_GetLeader now) s = Returns (l, s\<lparr>sv_storage := st\<rparr>)
      \<and> (election_leads (sv_election s) \<longrightarrow> l = election_node (sv_election s) \<and> st = sv_storage s)"
    by (intro exI [of _ l] exI [of _ st]) (simp add: ask_def)
qed

text \<open>The two endpoints that tell the leader always answer, change nothing but what the storage makes of
  a query, and agree: a node is told to be leader exactly when its election leads, and the leader's
  name is then its own.\<close>

theorem leader_answers_agree:
  assumes "election_ok (sv_election s)"
  shows "\<exists>l st l' st'. getLeader now rq s = Returns (\<lparr>rs_Status = 200, rs_Body =
        gin_H [(''leader_id'', JStr l), (''is_leader'', JBool (election_leads (sv_election s)))]\<rparr>, s\<lparr>sv_storage := st\<rparr>)
    \<and> getElectionInfo now rq s = Returns (\<lparr>rs_Status = 200, rs_Body = gin_H
        [(''current_algorithm'', JStr (ec_Algorithm (cf_Election (sv_config s)))), (''is_leader'', JBool (election_leads (sv_election s))),
         (''leader_id'', JStr l'), (''node_id'', JStr (sc_NodeID (cf_Server (sv_config s)))),
         (''supported_algorithms'', JArr [JStr ''bully'', JStr ''raft'', JStr ''gossip''])]\<rparr>, s\<lparr>sv_storage := st'\<rparr>)
    \<and> (election_leads (sv_election s) \<longrightarrow> l = election_node (sv_election s) \<and> l' = l)"
proof -
  from ask_queries(2) [OF assms, of now] obtain l st where l: "ask (Election_GetLeader now) s = Returns (l, s\<lparr>sv_storage := st\<rparr>)"
    "election_leads (sv_election s) \<longrightarrow> l = election_node (sv_election s)" by blast
  have "ask Election_IsLeader (s\<lparr>sv_storage := st\<rparr>) = Returns (election_leads (sv_election s), s\<lparr>sv_storage := st\<rparr>)"
    using ask_queries(1) [of "s\<lparr>sv_storage := st\<rparr>"] assms by simp
  with l ask_queries(1) [OF assms] show ?thesis
    by (intro exI [of _ l] exI [of _ st]) (simp add: getLeader_def getElectionInfo_def GetSupportedAlgorithms_def)
qed

text \<open>No handler panics, and none waits for ever unless the lock of the election is held.\<close>

lemma handlers_return:
  assumes "election_ok (sv_election s)"
  shows "\<exists>r s'. handle lib oid clk e rq s = Returns (r, s')"
proof (cases e)
  case get_stats
  have "ask Election_IsLeader (s\<lparr>sv_storage := st, sv_queue := q\<rparr>) =
      Returns (election_leads (sv_election s), s\<lparr>sv_storage := st, sv_queue := q\<rparr>)" for st q
    using ask_queries(1) [of "s\<lparr>sv_storage := st, sv_queue := q\<rparr>"] assms by simp
  then show ?thesis unfolding get_stats by (simp add: getStats_def split: prod.splits sum.splits)
next
  case get_leader
  with leader_answers_agree [OF assms, of "clk 0" rq] show ?thesis by auto
next
  case get_election_info
  with leader_answers_agree [OF assms, of "clk 0" rq] show ?thesis by auto
qed (auto simp: createJob_def getJob_def listJobs_def deleteJob_def getWorkers_def getNodes_def healthCheck_def
    getAlgorithmInfo_def getClusterStatus_def Let_def split: sum.splits prod.splits option.splits)

section \<open>The workers of a server\<close>

text \<open>One round of the \<open>i\<close>-th worker on the queue and the storage that the server shares with it.\<close>

definition work :: "(nat \<Rightarrow> gtime) \<Rightarrow> nat \<Rightarrow> ('r, 'd, 'g) Server \<Rightarrow> ('r, 'd, 'g) Server outcome" where
  "work clk i s = obind (processJob (sv_pool s) clk (sv_workers s ! i) \<lparr>po_queue = sv_queue s, po_storage = sv_storage s\<rparr>)
     (\<lambda>(w, st). Returns (s\<lparr>sv_workers := (sv_workers s)[i := w], sv_queue := po_queue st, sv_storage := po_storage st\<rparr>))"

lemma work_spec:
  assumes "server_up s" and "due_entries (clk 0) (abs_q (sv_queue s)) = {}"
    and "a_waiting (abs_q (sv_queue s)) = doc j # rest" and "wf_job j" and "times_ok j"
    and "w = sv_workers s ! i" and "f = fate_of (sv_pool s) (shift 3 clk) (running clk w j)" and "fate_ok f"
  shows "\<exists>st q. work clk i s = Returns (s\<lparr>sv_workers := (sv_workers s)[i := w\<lparr>w_isActive := False,
        w_jobCount := int64 (w_jobCount w + 1)\<rparr>], sv_queue := q, sv_storage := st\<rparr>) \<and> storage_up st \<and> queue_up q \<and> ms_client st = ms_client (sv_storage s)
    \<and> ms_jobs st = abs_update (written f) (abs_update (running clk w j) (ms_jobs (sv_storage s)))
    \<and> abs_q q = fate_queue f ((abs_q (sv_queue s))\<lparr>a_waiting := rest\<rparr>)"
proof -
  let ?st = "\<lparr>po_queue = sv_queue s, po_storage = sv_storage s\<rparr>"
  have "pool_up ?st" using assms(1) by (simp add: server_up_def pool_up_def)
  from processJob_spec [where c = "sv_pool s" and w = w, OF this, of clk j rest f] assms(2-8) obtain st'
    where "processJob (sv_pool s) clk w ?st = Returns (w\<lparr>w_isActive := False, w_jobCount := int64 (w_jobCount w + 1)\<rparr>, st')"
      "pool_up st'" "stored st' = abs_update (written f) (abs_update (running clk w j) (ms_jobs (sv_storage s)))"
      "abs_q (po_queue st') = fate_queue f ((abs_q (sv_queue s))\<lparr>a_waiting := rest\<rparr>)" by auto
  moreover from this(1) have "ms_client (po_storage st') = ms_client (sv_storage s)" by (auto dest: processJob_client)
  ultimately show ?thesis using assms(6) by (auto simp: work_def pool_up_def)
qed

section \<open>Witnesses\<close>

definition sample_services :: "(mem_redis, mem_mongo, unit) services" where
  "sample_services = \<lparr>xs_Connect = (\<lambda>uri t. Inr ()), xs_Ping = (\<lambda>c. None),
     xs_Database = (\<lambda>c n. (mem_mongo_client, mem_db_empty)), xs_CreateMany = (\<lambda>ix d. (None, d)),
     xs_NewClient = (\<lambda>a p n. (mem_client, mem_empty))\<rparr>"

lemma sample_services_up: "services_up sample_services"
  by (simp add: services_up_def sample_services_def mem_mongo_contract mem_mongo_reliable mem_contract mem_reliable)

lemma default_config_simps:
  "sc_WorkerCount (cf_Server default_config) = 10" "sc_NodeID (cf_Server default_config) = ''node-1''"
  "ec_Algorithm (cf_Election default_config) = ''bully''" "ec_Interval (cf_Election default_config) = seconds 30"
  "ec_Timeout (cf_Election default_config) = seconds 10" "rt_MaxRetries (cf_Retry default_config) = 3"
  "\<not> se_TLSEnabled (cf_Security default_config)" "\<not> se_AuthEnabled (cf_Security default_config)"
  by (simp_all add: default_config_def Load_def getEnv_def getEnvInt_def getEnvBool_def getEnvDuration_def)

theorem server_made_and_started_witness:
  "\<exists>s :: (mem_redis, mem_mongo, unit) Server. New sample_services exact_env (\<lambda>_. 0) 0 0 () default_config = Returns (Inr s)
     \<and> length (sv_workers s) = 10 \<and> (\<exists>s'. Start 0 (0, 0) 0 s = Returns (ListenAndServe, s') \<and> Router s' = Returns (routes False))"
proof -
  let ?new = "New sample_services exact_env (\<lambda>_. 0) 0 0 () default_config :: (mem_redis, mem_mongo, unit) Server res outcome"
  note p = server_made_and_started [OF sample_services_up, where fe = exact_env and draws = "\<lambda>_. 0" and now = 0 and draw = 0
      and g = "()" and cfg = default_config and later = 0 and ks = "[]" and rs = "(0, 0)" and n = 0,
      unfolded default_config_simps GetSupportedAlgorithms_def]
  show ?thesis
  proof (cases ?new)
    case (Returns r)
    with p obtain s where s: "r = Inr s" "made_from default_config (sv_election s) s"
      and "\<not> start_panics 0 [] (0, 0) 0 (sv_election s) (sv_storage s)" by (cases r) auto
    with p Returns have "\<exists>s'. Start 0 (0, 0) 0 s = Returns (ListenAndServe, s') \<and> Router s' = Returns (routes False)"
      by (auto simp: default_config_simps)
    with Returns s show ?thesis by (auto simp: made_from_def default_config_simps)
  qed (use p in auto)
qed

definition sample_server :: "bool \<Rightarrow> Election \<Rightarrow> (mem_redis, mem_mongo, unit) Server" where
  "sample_server auth e = \<lparr>sv_config = default_config, sv_storage = new_storage, sv_queue = new_queue,
     sv_workers = [\<lparr>w_id = ''node-1-worker-0'', w_nodeID = ''node-1'', w_isActive = False, w_jobCount = 0\<rparr>],
     sv_pool = sample_config None, sv_election = e, sv_callbacks = [], sv_loadBalancer = RoundRobinBalancer 0,
     sv_httpServer = None, sv_registry = Map.empty, sv_authManager = sample_auth\<lparr>ac_Enabled := auth\<rparr>,
     sv_tlsConfig = NewTLSConfig (cf_Security default_config), sv_metrics = [], sv_metricsServer = None, sv_listening = False, sv_running = True,
     sv_queueOpen = True, sv_storageOpen = True\<rparr>"

lemma sample_server_simps [simp]:
  "sv_config (sample_server auth e) = default_config" "sv_storage (sample_server auth e) = new_storage"
  "sv_queue (sample_server auth e) = new_queue" "sv_election (sample_server auth e) = e"
  "sv_authManager (sample_server auth e) = sample_auth\<lparr>ac_Enabled := auth\<rparr>" "sv_pool (sample_server auth e) = sample_config None"
  "length (sv_workers (sample_server auth e)) = 1" "sv_metrics (sample_server auth e) = []"
  by (simp_all add: sample_server_def)

definition sample_election :: "bool \<Rightarrow> Election" where
  "sample_election leads = BullyE \<lparr>be_nodeID = ''node-1'', be_nodeAddr = ''job-processor-1:8080'', be_nodes = Map.empty,
     be_isLeader = leads, be_timeout = seconds 10, be_interval = seconds 30\<rparr>"


definition sample_request :: "string \<Rightarrow> Request" where
  "sample_request t = \<lparr>cx_Header = (\<lambda>_. '''')(''Authorization'' := ''Bearer '' @ t), cx_keys = Map.empty,
     rq_Param = (\<lambda>_. show_nat 9), rq_Query = (\<lambda>_. ''''), rq_Body = Inr (JObj [(''type'', JStr ''email'')]),
     rq_Login = Inl (DriverErr ''EOF'')\<rparr>"

definition sample_route :: route where
  "sample_route = \<lparr>ro_Method = ''GET'', ro_Path = ''/api/v1/workers'', ro_Auth = True, ro_Role = Some RoleAdmin,
     ro_Endpoint = get_workers\<rparr>"

lemma sample_claims_bearer:
  "bearer_claims toy_jwt 0 (sample_auth\<lparr>ac_Enabled := True\<rparr>) (sample_request (toy_token ''HS256'' ''secret'' (sample_claims role))) claims
     \<longleftrightarrow> claims = sample_claims role"
  by (auto simp: bearer_claims_def sample_request_def toy_jwt_def is_hmac_def claims_live_def sample_claims_def system_claims_def)

theorem api_is_guarded_witness:
  "serve toy_jwt 0 (\<lambda>_. 0) sample_route (sample_request (toy_token ''HS256'' ''secret'' (sample_claims RoleAdmin)))
       (sample_server True (sample_election False))
     = handle toy_jwt 0 (\<lambda>_. 0) get_workers (with_claims (sample_claims RoleAdmin)
         (sample_request (toy_token ''HS256'' ''secret'' (sample_claims RoleAdmin)))) (sample_server True (sample_election False))
   \<and> (\<exists>r. serve toy_jwt 0 (\<lambda>_. 0) sample_route (sample_request (toy_token ''HS256'' ''secret'' (sample_claims RoleUser)))
       (sample_server True (sample_election False)) = Returns (r, sample_server True (sample_election False)) \<and> rs_Status r \<in> {401, 403})"
proof -
  have r: "sample_route \<in> set (routes True)" "ro_Endpoint sample_route = get_workers"
    by (simp_all add: sample_route_def routes_def api_routes_def)
  have m: "may_use (cl_Role (sample_claims RoleAdmin)) get_workers" "\<not> may_use (cl_Role (sample_claims RoleUser)) get_workers"
    by (simp_all add: may_use_def sample_claims_def status_simps)
  note p = api_is_guarded [OF toy_contract, of "sample_server True (sample_election False)" sample_route]
  show ?thesis
    using p [of "\<lambda>_. 0" "sample_request (toy_token ''HS256'' ''secret'' (sample_claims RoleAdmin))" 0]
      p [of "\<lambda>_. 0" "sample_request (toy_token ''HS256'' ''secret'' (sample_claims RoleUser))" 0] r m
    by (simp add: sample_claims_bearer shift_const)
qed

theorem open_without_authentication_witness:
  "serve toy_jwt 0 (\<lambda>_. 0) (sample_route\<lparr>ro_Auth := False\<rparr>) (sample_request '''') (sample_server False (sample_election False))
     = handle toy_jwt 0 (\<lambda>_. 0) get_workers (sample_request '''') (sample_server False (sample_election False))"
proof -
  have "sample_route\<lparr>ro_Auth := False\<rparr> \<in> set (routes False)" by (simp add: sample_route_def routes_def api_routes_def)
  with open_without_authentication [of "sample_server False (sample_election False)" "sample_route\<lparr>ro_Auth := False\<rparr>"]
  show ?thesis by (simp add: shift_const sample_route_def)
qed

definition sample_job0 :: job where
  "sample_job0 = zero_job\<lparr>j_Type := ''email''\<rparr>"

definition sample_submitted :: job where
  "sample_submitted = sample_job0\<lparr>j_ID := 9, j_CreatedAt := 0, j_UpdatedAt := 0, j_ScheduledAt := 0,
     j_Status := StatusPending, j_Priority := PriorityNormal, j_MaxRetries := 3\<rparr>"

lemma sample_request_simps:
  "bind_job (sample_request t) = Inr sample_job0"
  "submitted 9 0 (sample_server auth e) sample_job0 = sample_submitted" "j_ID sample_submitted = 9"
  "j_ScheduledAt sample_submitted = 0" "j_Type sample_submitted = ''email''" "times_ok sample_submitted" "wf_job sample_submitted"
  "names_job (sample_server auth e) (sample_request t) 9"
proof -
  show "bind_job (sample_request t) = Inr sample_job0"
    by (simp add: bind_job_def sample_request_def sample_job0_def unmarshal_field_simps)
  show "submitted 9 0 (sample_server auth e) sample_job0 = sample_submitted"
    by (simp add: submitted_def job_defaults_def default_retries_def default_config_simps sample_job0_def sample_submitted_def
        zero_job_def NilObjectID_def Let_def IsZero_time_def)
  show "names_job (sample_server auth e) (sample_request t) 9"
    by (simp add: names_job_def sample_request_def new_storage_def mem_mongo_client_def)
qed (simp_all add: sample_submitted_def sample_job0_def zero_job_def times_ok_def job_times_def json_time_ok_def
    wf_job_def in_int64_def PriorityNormal_def)

lemma sample_server_up: "server_up (sample_server auth e)"
  by (simp add: server_up_def new_queue_def queue_up_def mem_contract mem_reliable)

theorem submitted_job_waits_witness:
  "\<exists>st q. createJob 9 (\<lambda>_. 0) (sample_request '''') (sample_server False (sample_election False))
      = Returns (\<lparr>rs_Status = 201, rs_Body = job_json sample_submitted\<rparr>, (sample_server False (sample_election False))
        \<lparr>sv_storage := st, sv_queue := q, sv_metrics := [Inc JobsTotal [''started'', ''email'']]\<rparr>)
    \<and> ms_jobs st 9 = Some (bson_job sample_submitted) \<and> a_waiting (abs_q q) = [doc sample_submitted]"
proof -
  have empty: "a_waiting (abs_q new_queue) = []"
    by (simp add: abs_q_def new_queue_def q_view_def mem_view_def mem_client_def mem_empty_def)
  let ?s = "sample_server False (sample_election False)"
  have "\<exists>st q. createJob 9 (\<lambda>_. 0) (sample_request '''') ?s = Returns (\<lparr>rs_Status = 201, rs_Body = job_json sample_submitted\<rparr>,
        ?s\<lparr>sv_storage := st, sv_queue := q, sv_metrics := sv_metrics ?s @ [Inc JobsTotal [''started'', j_Type sample_submitted]]\<rparr>)
      \<and> storage_up st \<and> queue_up q \<and> ms_jobs st = (ms_jobs (sv_storage ?s))(j_ID sample_submitted \<mapsto> bson_job sample_submitted)
      \<and> abs_q q = abs_push 0 (j_ScheduledAt sample_submitted) (doc sample_submitted) (abs_q (sv_queue ?s))"
    by (rule submitted_job_waits [OF sample_server_up sample_request_simps(1)]) (simp_all add: sample_request_simps)
  then obtain st q where "createJob 9 (\<lambda>_. 0) (sample_request '''') ?s = Returns (\<lparr>rs_Status = 201, rs_Body = job_json sample_submitted\<rparr>,
        ?s\<lparr>sv_storage := st, sv_queue := q, sv_metrics := [Inc JobsTotal [''started'', ''email'']]\<rparr>)"
    "ms_jobs st = [9 \<mapsto> bson_job sample_submitted]" "abs_q q = abs_push 0 0 (doc sample_submitted) (abs_q new_queue)"
    by (auto simp: sample_request_simps)
  with empty show ?thesis by (intro exI [of _ st] exI [of _ q]) (simp add: abs_push_def)
qed



theorem leader_answers_agree_witness:
  "\<exists>st. getLeader 0 (sample_request '''') (sample_server False (sample_election True)) = Returns (\<lparr>rs_Status = 200, rs_Body =
     gin_H [(''leader_id'', JStr ''node-1''), (''is_leader'', JBool True)]\<rparr>, (sample_server False (sample_election True))\<lparr>sv_storage := st\<rparr>)"
  using leader_answers_agree [of "sample_server False (sample_election True)" 0 "sample_request ''''"]
  by (auto simp: sample_election_def)

end
