(* ===== verification/Examples.thy ===== *)
theory Examples
  imports Server
begin

text \<open>
  The programs of \<open>examples/\<close>: the two processors of \<open>simple_processor.go\<close> and the client
  of \<open>client_example.go\<close> with its \<open>main\<close>. What the processors print, and their pauses, are left out.
  The HTTP client is a
  parameter, the record \<open>http_transport\<close> over a state of any type; the transport to the server of
  this development is an instance of it.
\<close>

section \<open>The processors\<close>

text \<open>\<open>j.Payload[k].(string)\<close> holds when the value is a string, whatever it reads like; of a key
  that is written twice, the last value counts.\<close>

definition payload_get :: "json \<Rightarrow> string \<Rightarrow> json option" where
  "payload_get p k = (case p of JObj kvs \<Rightarrow> map_of (rev kvs) k | _ \<Rightarrow> None)"

fun is_json_string :: "json \<Rightarrow> bool" where
  "is_json_string (JStr s) = True"
| "is_json_string (JTime t) = True"
| "is_json_string (JOid i) = True"
| "is_json_string _ = False"

definition has_string :: "job \<Rightarrow> string \<Rightarrow> bool" where
  "has_string j k = (case payload_get (j_Payload j) k of None \<Rightarrow> False | Some v \<Rightarrow> is_json_string v)"

definition EmailProcessor :: processor where
  "EmailProcessor = \<lparr>p_Type = ''email'', p_Process = (\<lambda>j.
     if \<not> has_string j ''recipient'' then (Some (Errorf ''recipient not found in job payload''), j)
     else if \<not> has_string j ''subject'' then (Some (Errorf ''subject not found in job payload''), j)
     else if \<not> has_string j ''body'' then (Some (Errorf ''body not found in job payload''), j)
     else (None, j))\<rparr>"

definition ImageProcessor :: processor where
  "ImageProcessor = \<lparr>p_Type = ''image_processing'', p_Process = (\<lambda>j.
     if \<not> has_string j ''image_url'' then (Some (Errorf ''image_url not found in job payload''), j) else (None, j))\<rparr>"

definition register_examples :: "('r, 'd, 'g) Server \<Rightarrow> ('r, 'd, 'g) Server" where
  "register_examples srv = Server_RegisterProcessor ImageProcessor (Server_RegisterProcessor EmailProcessor srv)"

lemma registered_examples:
  "pc_registry (sv_pool (register_examples srv)) ''email'' = Some EmailProcessor"
  "pc_registry (sv_pool (register_examples srv)) ''image_processing'' = Some ImageProcessor"
  "sv_registry (register_examples srv) ''email'' = Some EmailProcessor"
  "sv_registry (register_examples srv) ''image_processing'' = Some ImageProcessor"
  by (simp_all add: register_examples_def Server_RegisterProcessor_def RegisterProcessor_def registry_Register_def
      EmailProcessor_def ImageProcessor_def)

text \<open>An e-mail job completes exactly when its payload has the three strings; otherwise the same error
  comes back at every attempt, until the job is given up.\<close>

lemma email_fate:
  assumes "j_Type j = ''email''"
  shows "(\<exists>jf. fate_of (sv_pool (register_examples srv)) clk j = Completed jf)
    \<longleftrightarrow> has_string j ''recipient'' \<and> has_string j ''subject'' \<and> has_string j ''body''"
  unfolding fate_of_def registry_Get_def assms registered_examples
  by (auto simp: EmailProcessor_def error_fate_def Let_def)

section \<open>The client\<close>

record 's http_transport =
  ht_Post :: "string \<Rightarrow> json \<Rightarrow> 's \<Rightarrow> Response res \<times> 's"
  ht_Get :: "string \<Rightarrow> 's \<Rightarrow> Response res \<times> 's"
  ht_text :: "json \<Rightarrow> string"

definition BaseURL :: string where
  "BaseURL = ''http://localhost:8080/api/v1''"

record 's Client =
  cl_httpClient :: "'s http_transport"
  cl_baseURL :: string

text \<open>\<open>http\<close> makes a client of the HTTP library with a timeout.\<close>

definition NewClient :: "(duration \<Rightarrow> 's http_transport) \<Rightarrow> string \<Rightarrow> 's Client" where
  "NewClient http baseURL = \<lparr>cl_httpClient = http (seconds 30), cl_baseURL = baseURL\<rparr>"

definition Client_CreateJob :: "'s Client \<Rightarrow> job \<Rightarrow> 's \<Rightarrow> job res \<times> 's" where
  "Client_CreateJob c j s =
     (case marshal_job j of
        Inl err \<Rightarrow> (Inl err, s)
      | Inr data \<Rightarrow>
          (case ht_Post (cl_httpClient c) (cl_baseURL c @ ''/jobs'') data s of
             (Inl err, s') \<Rightarrow> (Inl err, s')
           | (Inr resp, s') \<Rightarrow>
               if rs_Status resp \<noteq> 201
               then (Inl (Errorf (''failed to create job: '' @ ht_text (cl_httpClient c) (rs_Body resp))), s')
               else (unmarshal_job (rs_Body resp), s')))"

definition Client_GetJob :: "'s Client \<Rightarrow> string \<Rightarrow> 's \<Rightarrow> job res \<times> 's" where
  "Client_GetJob c i s =
     (case ht_Get (cl_httpClient c) (cl_baseURL c @ ''/jobs/'' @ i) s of
        (Inl err, s') \<Rightarrow> (Inl err, s')
      | (Inr resp, s') \<Rightarrow>
          if rs_Status resp \<noteq> 200 then (Inl (Errorf ''job not found''), s') else (unmarshal_job (rs_Body resp), s'))"

definition Client_GetStats :: "'s Client \<Rightarrow> 's \<Rightarrow> json res \<times> 's" where
  "Client_GetStats c s =
     (case ht_Get (cl_httpClient c) (cl_baseURL c @ ''/stats'') s of
        (Inl err, s') \<Rightarrow> (Inl err, s')
      | (Inr resp, s') \<Rightarrow> (get_map ''stats'' (rs_Body resp), s'))"

section \<open>The program of the client\<close>

definition emailJob :: job where
  "emailJob = zero_job\<lparr>j_Type := ''email'', j_Priority := PriorityNormal,
     j_Payload := JObj [(''body'', JStr ''This email was sent using the Go client!''),
       (''recipient'', JStr ''client@example.com''), (''subject'', JStr ''Test from Go Client'')],
     j_MaxRetries := 3\<rparr>"

definition imageJob :: job where
  "imageJob = zero_job\<lparr>j_Type := ''image_processing'', j_Priority := PriorityHigh,
     j_Payload := JObj [(''image_url'', JStr ''https://example.com/test-image.png''),
       (''operation'', JStr ''thumbnail''), (''size'', JStr ''200x200'')],
     j_MaxRetries := 2\<rparr>"

text \<open>What is printed, in the order of the lines; an empty line is printed where a text begins with
  a line break.\<close>

datatype printed = Line string | Line_error string goerr | Line_json string json

text \<open>\<open>hex\<close> writes an object id, and \<open>pause\<close> is what happens to the other side while the client
  sleeps for two seconds.\<close>

definition client_main :: "(duration \<Rightarrow> 's http_transport) \<Rightarrow> (ObjectID \<Rightarrow> string) \<Rightarrow> ('s \<Rightarrow> 's) \<Rightarrow> 's \<Rightarrow> printed list \<times> 's" where
  "client_main http hex pause s =
     (let client = NewClient http BaseURL;
          out = [Line ''Creating jobs...'']
      in case Client_CreateJob client emailJob s of
           (Inl err, s1) \<Rightarrow> (out @ [Line_error ''Failed to create email job: '' err], s1)
         | (Inr createdJob, s1) \<Rightarrow>
             (let out = out @ [Line (''Created email job: '' @ hex (j_ID createdJob))]
              in case Client_CreateJob client imageJob s1 of
                   (Inl err, s2) \<Rightarrow> (out @ [Line_error ''Failed to create image job: '' err], s2)
                 | (Inr createdImageJob, s2) \<Rightarrow>
                     (let out = out @ [Line (''Created image processing job: '' @ hex (j_ID createdImageJob))];
                          s3 = pause s2;
                          out = out @ [Line '''', Line ''Checking job status...''];
                          (updatedJob, s4) = Client_GetJob client (hex (j_ID createdJob)) s3;
                          out = out @ [case updatedJob of
                              Inl err \<Rightarrow> Line_error ''Failed to get job: '' err
                            | Inr j \<Rightarrow> Line (''Email job status: '' @ j_Status j)];
                          out = out @ [Line '''', Line ''Getting system stats...''];
                          (stats, s5) = Client_GetStats client s4
                      in (out @ [case stats of
                              Inl err \<Rightarrow> Line_error ''Failed to get stats: '' err
                            | Inr m \<Rightarrow> Line_json ''System stats: '' m], s5))))"

section \<open>The client with the server\<close>

text \<open>The transport to a server: the job routes, by the path that follows the base URL. The \<open>n\<close>th job
  that is created gets the identifier \<open>oids n\<close> at the times of \<open>clks n\<close>.\<close>

definition plain_request :: "json res \<Rightarrow> string \<Rightarrow> Request" where
  "plain_request body i = \<lparr>cx_Header = (\<lambda>_. ''''), cx_keys = Map.empty, rq_Param = (\<lambda>k. if k = ''id'' then i else ''''),
     rq_Query = (\<lambda>_. ''''), rq_Body = body, rq_Login = Inl (DriverErr ''EOF'')\<rparr>"

definition respond :: "('r, 'd, 'g) answer \<Rightarrow> nat \<Rightarrow> ('r, 'd, 'g) Server \<Rightarrow> Response res \<times> nat \<times> ('r, 'd, 'g) Server" where
  "respond a n s = (case a of Returns (r, s') \<Rightarrow> (Inr r, n, s') | _ \<Rightarrow> (Inl (DriverErr ''timeout''), n, s))"

definition to_server ::
  "(nat \<Rightarrow> ObjectID) \<Rightarrow> (nat \<Rightarrow> nat \<Rightarrow> gtime) \<Rightarrow> string \<Rightarrow> (json \<Rightarrow> string) \<Rightarrow> (nat \<times> ('r, 'd, 'g) Server) http_transport" where
  "to_server oids clks baseURL render =
     \<lparr>ht_Post = (\<lambda>url body (n, s). respond (createJob (oids n) (clks n) (plain_request (Inr body) '''') s) (Suc n) s),
      ht_Get = (\<lambda>url (n, s). if take (length baseURL + 6) url = baseURL @ ''/jobs/''
         then respond (getJob (plain_request (Inl (DriverErr ''EOF'')) (drop (length baseURL + 6) url)) s) n s
         else respond (getStats (plain_request (Inl (DriverErr ''EOF'')) '''') s) n s),
      ht_text = render\<rparr>"

definition client_of ::
  "(nat \<Rightarrow> ObjectID) \<Rightarrow> (nat \<Rightarrow> nat \<Rightarrow> gtime) \<Rightarrow> string \<Rightarrow> (json \<Rightarrow> string) \<Rightarrow> (nat \<times> ('r, 'd, 'g) Server) Client" where
  "client_of oids clks url render = NewClient (\<lambda>timeout. to_server oids clks url render) url"

lemma client_of_simps:
  "cl_httpClient (client_of oids clks url render) = to_server oids clks url render" "cl_baseURL (client_of oids clks url render) = url"
  by (simp_all add: client_of_def NewClient_def)

text \<open>What the client is told of a job it creates is the job as the server completed it, and asking for
  a job by its identifier gives what is stored.\<close>

lemma client_creates:
  assumes "server_up s" and "wf_job j0" and "times_ok j0" and "in_int64 (rt_MaxRetries (cf_Retry (sv_config s)))"
    and "j = submitted (oids n) (clks n 0) s j0" and "ms_jobs (sv_storage s) (j_ID j) = None" and "times_ok j"
  shows "\<exists>s'. Client_CreateJob (client_of oids clks url render) j0 (n, s) = (Inr j, Suc n, s')
    \<and> server_up s' \<and> sv_config s' = sv_config s \<and> ms_client (sv_storage s') = ms_client (sv_storage s)
    \<and> ms_jobs (sv_storage s') = (ms_jobs (sv_storage s))(j_ID j \<mapsto> bson_job j)"
proof -
  let ?rq = "plain_request (Inr (doc j0)) ''''"
  have bind: "bind_job ?rq = Inr j0"
    using assms(2) by (simp add: bind_job_def plain_request_def doc_def unmarshal_job_fields)
  have wf: "wf_job j" using submitted_wf [OF bind assms(4)] assms(5) by simp
  from submitted_spec [where clk = "clks n", OF assms(1) bind assms(5-7)] obtain s'
    where c: "createJob (oids n) (clks n) ?rq s = Returns (\<lparr>rs_Status = 201, rs_Body = job_json j\<rparr>, s')"
      and s': "server_up s'" "sv_config s' = sv_config s" "ms_client (sv_storage s') = ms_client (sv_storage s)"
        "ms_jobs (sv_storage s') = (ms_jobs (sv_storage s))(j_ID j \<mapsto> bson_job j)" by (force simp: server_up_def)
  have "Client_CreateJob (client_of oids clks url render) j0 (n, s) = (Inr j, Suc n, s')"
    using c wf by (simp add: Client_CreateJob_def client_of_simps marshal_doc [OF assms(3)] to_server_def respond_def
        job_json_def unmarshal_job_fields)
  with s' show ?thesis by blast
qed

lemma client_gets:
  assumes "storage_up (sv_storage s)" and "ms_jobs (sv_storage s) i = Some k" and "wf_job k"
  shows "\<exists>s'. Client_GetJob (client_of oids clks url render) (oid_Hex (ms_client (sv_storage s)) i) (n, s) = (Inr k, n, s')"
proof -
  let ?rq = "plain_request (Inl (DriverErr ''EOF'')) (oid_Hex (ms_client (sv_storage s)) i)"
  have "rq_Param ?rq ''id'' = oid_Hex (ms_client (sv_storage s)) i" by (simp add: plain_request_def)
  from getJob_spec [OF assms(1) this] assms(2) obtain s2
    where "getJob ?rq s = Returns (\<lparr>rs_Status = 200, rs_Body = job_json k\<rparr>, s2)" by auto
  with assms(3) show ?thesis
    by (simp add: Client_GetJob_def client_of_simps to_server_def respond_def job_json_def unmarshal_job_fields)
qed

lemma client_create_then_get:
  assumes "server_up s" and "wf_job j0" and "times_ok j0" and "in_int64 (rt_MaxRetries (cf_Retry (sv_config s)))"
    and "j = submitted (oids n) (clks n 0) s j0" and "ms_jobs (sv_storage s) (j_ID j) = None" and "times_ok j"
  shows "\<exists>s'. Client_CreateJob (client_of oids clks url render) j0 (n, s) = (Inr j, Suc n, s')
    \<and> fst (Client_GetJob (client_of oids clks url render) (oid_Hex (ms_client (sv_storage s)) (j_ID j)) (Suc n, s')) = Inr (bson_job j)"
proof -
  have bind: "bind_job (plain_request (Inr (doc j0)) '''') = Inr j0"
    using assms(2) by (simp add: bind_job_def plain_request_def doc_def unmarshal_job_fields)
  have wf: "wf_job (bson_job j)"
    using submitted_wf [OF bind assms(4)] assms(5) by (simp add: wf_job_def bson_job_def)
  from client_creates [where oids = oids and clks = clks and n = n and url = url and render = render, OF assms] obtain s'
    where s': "Client_CreateJob (client_of oids clks url render) j0 (n, s) = (Inr j, Suc n, s')" "server_up s'"
      "ms_client (sv_storage s') = ms_client (sv_storage s)" "ms_jobs (sv_storage s') (j_ID j) = Some (bson_job j)" by auto
  from s'(2) have "storage_up (sv_storage s')" by (simp add: server_up_def)
  from client_gets [where oids = oids and clks = clks and url = url and render = render and n = "Suc n", OF this s'(4) wf] s'(1,3)
  show ?thesis by auto
qed

lemma example_jobs:
  "wf_job emailJob" "times_ok emailJob" "wf_job imageJob" "times_ok imageJob"
  by (simp_all add: emailJob_def imageJob_def zero_job_def wf_job_def times_ok_def job_times_def json_time_ok_def in_int64_def
      status_simps zero_time_def)

text \<open>What the program of the client prints: the identifiers of its two jobs, and then the status that
  the first has come to in the pause, whatever it is.\<close>

lemma client_main_prints:
  assumes "server_up s" and "in_int64 (rt_MaxRetries (cf_Retry (sv_config s)))"
    and "oids n \<noteq> oids (Suc n)" and "ms_jobs (sv_storage s) (oids n) = None" and "ms_jobs (sv_storage s) (oids (Suc n)) = None"
    and "json_time_ok (clks n 0)" and "json_time_ok (clks (Suc n) 0)"
    and "\<And>s'. server_up s' \<Longrightarrow> ms_client (sv_storage s') = ms_client (sv_storage s)
      \<Longrightarrow> ms_jobs (sv_storage s') (oids n) = Some (bson_job (submitted (oids n) (clks n 0) s emailJob))
      \<Longrightarrow> \<exists>s''. pause (Suc (Suc n), s') = (Suc (Suc n), s'') \<and> storage_up (sv_storage s'')
        \<and> ms_client (sv_storage s'') = ms_client (sv_storage s) \<and> ms_jobs (sv_storage s'') (oids n) = Some k"
    and "wf_job k"
  shows "take 8 (fst (client_main (\<lambda>timeout. to_server oids clks BaseURL render) (oid_Hex (ms_client (sv_storage s))) pause (n, s)))
    = [Line ''Creating jobs...'',
       Line (''Created email job: '' @ oid_Hex (ms_client (sv_storage s)) (oids n)),
       Line (''Created image processing job: '' @ oid_Hex (ms_client (sv_storage s)) (oids (Suc n))),
       Line '''', Line ''Checking job status...'', Line (''Email job status: '' @ j_Status k),
       Line '''', Line ''Getting system stats...'']"
proof -
  let ?c = "client_of oids clks BaseURL render"
  define j1 where "j1 = submitted (oids n) (clks n 0) s emailJob"
  have zero: "IsZero_time zero_time" by (simp add: IsZero_time_def)
  have sub: "j_ID (submitted i now x emailJob) = i" "j_ID (submitted i now x imageJob) = i"
    "json_time_ok now \<Longrightarrow> times_ok (submitted i now x emailJob)" "json_time_ok now \<Longrightarrow> times_ok (submitted i now x imageJob)"
    for i now and x :: "('a, 'b, 'c) Server"
    by (simp_all add: submitted_def job_defaults_def default_retries_def emailJob_def imageJob_def zero_job_def Let_def zero
        times_ok_def job_times_def status_simps)
  from client_creates [where oids = oids and clks = clks and n = n and url = BaseURL and render = render, OF assms(1) example_jobs(1,2) assms(2) j1_def]
    assms(4,6) obtain s1
    where s1: "Client_CreateJob ?c emailJob (n, s) = (Inr j1, Suc n, s1)" "server_up s1" "sv_config s1 = sv_config s"
      "ms_client (sv_storage s1) = ms_client (sv_storage s)" "ms_jobs (sv_storage s1) = (ms_jobs (sv_storage s))(oids n \<mapsto> bson_job j1)"
    by (auto simp: j1_def sub)
  define j2 where "j2 = submitted (oids (Suc n)) (clks (Suc n) 0) s1 imageJob"
  from client_creates [where oids = oids and clks = clks and n = "Suc n" and url = BaseURL and render = render, OF s1(2) example_jobs(3,4) _ j2_def]
    s1(3,5) assms(2,3,5,7) obtain s2
    where s2: "Client_CreateJob ?c imageJob (Suc n, s1) = (Inr j2, Suc (Suc n), s2)" "server_up s2"
      "ms_client (sv_storage s2) = ms_client (sv_storage s)" "ms_jobs (sv_storage s2) (oids n) = Some (bson_job j1)"
    using s1(4) by (auto simp: j2_def sub)
  from assms(8) [OF s2(2,3)] s2(4) obtain s3
    where s3: "pause (Suc (Suc n), s2) = (Suc (Suc n), s3)" "storage_up (sv_storage s3)"
      "ms_client (sv_storage s3) = ms_client (sv_storage s)" "ms_jobs (sv_storage s3) (oids n) = Some k" by (auto simp: j1_def)
  from client_gets [where oids = oids and clks = clks and url = BaseURL and render = render and n = "Suc (Suc n)", OF s3(2,4) assms(9)] s3(3)
  obtain s4 where s4: "Client_GetJob ?c (oid_Hex (ms_client (sv_storage s)) (oids n)) (Suc (Suc n), s3) = (Inr k, Suc (Suc n), s4)" by auto
  have ids: "j_ID j1 = oids n" "j_ID j2 = oids (Suc n)" by (simp_all add: j1_def j2_def sub)
  show ?thesis
    by (simp add: client_main_def client_of_def [symmetric] s1(1) s2(1) s3(1) s4 ids Let_def split: prod.split)
qed

text \<open>When the first job cannot be created, the program prints that and asks for nothing more.\<close>

lemma client_main_gives_up:
  assumes "Client_CreateJob (NewClient http BaseURL) emailJob s = (Inl err, s1)"
  shows "client_main http hex pause s = ([Line ''Creating jobs...'', Line_error ''Failed to create email job: '' err], s1)"
  using assms by (simp add: client_main_def)

end
