(* ===== verification/Cluster.thy ===== *)
theory Cluster
  imports Bully
begin

text \<open>
  Several nodes of the bully election over one storage. A turn of a node is a round of its election
  loop followed by a heartbeat; turns of different nodes come in any order. The theorem is the
  liveness of the election: once every lower node and then the highest one have had a turn, the highest
  node leads, no other does, and every node names it.
\<close>

section \<open>Turns\<close>

type_synonym 'd cluster = "(string \<rightharpoonup> BullyElection) \<times> 'd MongoStorage"

text \<open>\<open>ks\<close> is the order in which the refreshed cache is traversed.\<close>

inductive bully_turn :: "'d cluster \<Rightarrow> string \<times> gtime \<Rightarrow> 'd cluster \<Rightarrow> bool" where
  turn: "bs i = Some b \<Longrightarrow> set ks = dom (be_nodes (fst (updateNodes now b s)))
    \<Longrightarrow> election_round now ks b s = (b', s', msg)
    \<Longrightarrow> bully_turn (bs, s) (i, now) (bs(i \<mapsto> b'), sendHeartbeat now b' s')"

inductive bully_turns :: "'d cluster \<Rightarrow> (string \<times> gtime) list \<Rightarrow> 'd cluster \<Rightarrow> bool" where
  none: "bully_turns c [] c"
| more: "bully_turn c t c' \<Longrightarrow> bully_turns c' ts c'' \<Longrightarrow> bully_turns c (t # ts) c''"

inductive_cases bully_turnE: "bully_turn (bs, s) (i, now) c'"
inductive_simps bully_turns_Nil [simp]: "bully_turns c [] c'"
inductive_simps bully_turns_Cons: "bully_turns c (t # ts) c''"

section \<open>One turn\<close>

lemma foldl_map_upd:
  "distinct (map f ns) \<Longrightarrow> foldl (\<lambda>m n. m(f n \<mapsto> g n)) m0 ns k =
     (case List.find (\<lambda>n. f n = k) ns of Some n \<Rightarrow> Some (g n) | None \<Rightarrow> m0 k)"
proof (induction ns arbitrary: m0)
  case (Cons n ns)
  have "f n \<notin> f ` set ns" using Cons.prems by simp
  then have "\<forall>x\<in>set ns. f x \<noteq> f n" by (metis imageI)
  then have "List.find (\<lambda>x. f x = f n) ns = None" by (auto simp: find_None_iff)
  with Cons show ?case by (auto split: option.splits)
qed simp

text \<open>The cache after a refresh: the documents seen in the last five minutes.\<close>

definition recent :: "gtime \<Rightarrow> NodeInfo \<Rightarrow> bool" where
  "recent now n \<longleftrightarrow> (now - seconds 300) div 1000000 \<le> ni_LastSeen n div 1000000"

lemma updateNodes_spec:
  assumes "storage_up s"
  shows "\<exists>s'. updateNodes now b s = (b\<lparr>be_nodes := \<lambda>k. case ms_nodes s k of
        Some n \<Rightarrow> if recent now n then Some (cached_node n) else None | None \<Rightarrow> None\<rparr>, s')
    \<and> storage_up s' \<and> ms_nodes s' = ms_nodes s"
proof -
  from GetNodes_spec [OF assms, of now] obtain ns s' where ns: "GetNodes now s = ((ns, None), s')"
    "distinct (map ni_ID ns)" "ms_nodes s' = ms_nodes s" "storage_up s'"
    "\<And>n. n \<in> set ns \<longleftrightarrow> ms_nodes s (ni_ID n) = Some n \<and> recent now n" unfolding recent_def by blast
  have "foldl (\<lambda>m n. m(ni_ID n \<mapsto> cached_node n)) Map.empty ns k = (case ms_nodes s k of
      Some n \<Rightarrow> if recent now n then Some (cached_node n) else None | None \<Rightarrow> None)" for k
  proof (cases "List.find (\<lambda>n. ni_ID n = k) ns")
    case None
    then have "\<forall>n\<in>set ns. ni_ID n \<noteq> k" by (auto simp: find_None_iff)
    then have "\<not> recent now n" if "ms_nodes s k = Some n" for n
      using that ns(5) nodes_key [OF storage_up_ok [OF assms] that] by auto
    with None show ?thesis by (auto simp: foldl_map_upd [OF ns(2)] split: option.splits)
  next
    case (Some n)
    with find_SomeD [OF Some] ns(5) [of n] show ?thesis by (auto simp: foldl_map_upd [OF ns(2)])
  qed
  then have "foldl (\<lambda>m n. m(ni_ID n \<mapsto> cached_node n)) Map.empty ns = (\<lambda>k. case ms_nodes s k of
      Some n \<Rightarrow> if recent now n then Some (cached_node n) else None | None \<Rightarrow> None)" by (rule ext)
  with ns(1,3,4) show ?thesis by (simp add: updateNodes_def)
qed

text \<open>Whoever is found as current leader is a live leader in the storage.\<close>

lemma current_leader_live:
  "storage_up s \<Longrightarrow> getCurrentLeaderUnsafe now b ks s = (cur, s') \<Longrightarrow> cur \<noteq> '''' \<Longrightarrow>
   \<exists>n. ms_nodes s cur = Some n \<and> live_leader now (be_timeout b) n"
proof (induction ks arbitrary: s)
  case (Cons k ks)
  obtain ns s1 where g: "GetNodes now s = ((ns, None), s1)" "ms_nodes s1 = ms_nodes s" "storage_up s1"
    and mem: "\<And>n. n \<in> set ns \<Longrightarrow> ms_nodes s (ni_ID n) = Some n" using GetNodes_spec [OF Cons.prems(1), of now] by blast
  show ?case
    using Cons.prems(2,3) g Cons.IH [OF Cons.prems(1)] Cons.IH [OF g(3)] mem
    by (auto split: option.splits if_splits dest!: find_SomeD)
qed simp

text \<open>What a check does to the documents: its own may be registered now, a lower leader may be cleared,
  and only when it comes to lead itself; every other stays.\<close>

definition touched :: "gtime \<Rightarrow> BullyElection \<Rightarrow> bool \<Rightarrow> (string \<rightharpoonup> NodeInfo) \<Rightarrow> (string \<rightharpoonup> NodeInfo) \<Rightarrow> bool" where
  "touched now b leads v v' \<longleftrightarrow> (\<forall>k. k \<noteq> be_nodeID b \<longrightarrow> v' k = v k
     \<or> (\<exists>n. leads \<and> v k = Some n \<and> to_clear b n \<and> v' k = Some (cleared now n)))"

lemma touched_refl: "touched now b leads v v"
  by (simp add: touched_def)

lemma check_spec:
  assumes "storage_up s" and "set ks = dom (be_nodes b)"
  shows "\<exists>b' s' msg. checkLeadership now ks b s = (b', s', msg) \<and> b' = b\<lparr>be_isLeader := be_isLeader b'\<rparr>
    \<and> storage_up s' \<and> touched now b (be_isLeader b') (ms_nodes s) (ms_nodes s')
    \<and> (be_isLeader b' \<longleftrightarrow> getHighestPriority now ks b = calculatePriority (be_nodeID b)
          \<and> fst (getCurrentLeaderUnsafe now b ks s) \<in> {'''', be_nodeID b})"
proof -
  obtain cur s1 where cur: "getCurrentLeaderUnsafe now b ks s = (cur, s1)" by fastforce
  have s1: "storage_up s1" "ms_nodes s1 = ms_nodes s" using getCurrentLeaderUnsafe_up [OF assms(1), of now b ks] cur by simp_all
  obtain s2 where s2: "becomeLeader now b s1 = (b\<lparr>be_isLeader := True\<rparr>, s2)" "storage_up s2"
    "ms_nodes s2 = (ms_nodes (clearExistingLeaders now b s1))(be_nodeID b \<mapsto>
         registered now (own_info b True) (ms_nodes (clearExistingLeaders now b s1) (be_nodeID b)))"
    using becomeLeader_spec [OF s1(1), of now b] by blast
  have t2: "touched now b True (ms_nodes s) (ms_nodes s2)"
    using clearExistingLeaders_spec [OF s1(1), of now b] s2(3) s1(2)
    by (auto simp: touched_def split: option.splits)
  have id: "ni_ID (own_info b False) = be_nodeID b" by (simp add: own_info_def)
  obtain s3 where s3: "stepDown now b s1 = (b\<lparr>be_isLeader := False\<rparr>, s3)" "storage_up s3"
    "touched now b False (ms_nodes s) (ms_nodes s3)"
    using RegisterNode_spec [OF s1(1), of now "own_info b False"] s1(2) by (auto simp: stepDown_def touched_def id)
  show ?thesis
    using cur s1 s2(1,2) t2 s3 should_lead_iff [OF assms(2), of now cur]
    by (auto simp: checkLeadership_def Let_def touched_refl)
qed

lemma fresh_recent:
  assumes "seen_within now timeout (ni_LastSeen n)" and "timeout \<le> seconds 300" and "- (2 ^ 63) < timeout"
  shows "recent now n"
proof -
  have "now - ni_LastSeen n < timeout"
    using assms by (simp add: seen_within_def time_Sub_less)
  with assms(2) show ?thesis by (simp add: recent_def zdiv_mono1)
qed

text \<open>A turn: who leads after it, and the documents.\<close>

lemma turn_spec:
  assumes "bully_turn (bs, s) (i, now) (bs', s')" and "storage_up s" and "bs i = Some b" and "be_nodeID b = i"
    and "be_timeout b \<le> seconds 300" and "- (2 ^ 63) < be_timeout b"
  shows "\<exists>b'. bs' = bs(i \<mapsto> b') \<and> be_nodeID b' = i \<and> be_timeout b' = be_timeout b \<and> storage_up s'
    \<and> touched now b (be_isLeader b') ((ms_nodes s)(i := None)) ((ms_nodes s')(i := None))
    \<and> (\<exists>n. ms_nodes s' i = Some n \<and> ni_IsLeader n = be_isLeader b' \<and> ni_LastSeen n = bson_ms now)
    \<and> (\<forall>k n. ms_nodes s k = Some n \<longrightarrow> seen_within now (be_timeout b) (ni_LastSeen n)
         \<longrightarrow> calculatePriority i < calculatePriority k \<longrightarrow> \<not> be_isLeader b')
    \<and> ((\<forall>k n. k \<noteq> i \<longrightarrow> ms_nodes s k = Some n \<longrightarrow> seen_within now (be_timeout b) (ni_LastSeen n)
         \<longrightarrow> calculatePriority k \<le> calculatePriority i \<and> \<not> ni_IsLeader n) \<longrightarrow> be_isLeader b')"
proof -
  from assms(1,3) obtain ks b' s1 msg where t: "set ks = dom (be_nodes (fst (updateNodes now b s)))"
    "election_round now ks b s = (b', s1, msg)" "bs' = bs(i \<mapsto> b')" "s' = sendHeartbeat now b' s1"
    by (auto elim!: bully_turnE)
  let ?nodes = "\<lambda>k. case ms_nodes s k of Some n \<Rightarrow> if recent now n then Some (cached_node n) else None | None \<Rightarrow> None"
  let ?b = "b\<lparr>be_nodes := ?nodes\<rparr>"
  from updateNodes_spec [OF assms(2), of now b] obtain s0
    where u: "updateNodes now b s = (?b, s0)" "storage_up s0" "ms_nodes s0 = ms_nodes s" by blast
  have ks: "set ks = dom (be_nodes ?b)" using t(1) u(1) by simp
  from check_spec [OF u(2) ks, of now] obtain b2 s2 m2 where check: "checkLeadership now ks ?b s0 = (b2, s2, m2)"
    "b2 = ?b\<lparr>be_isLeader := be_isLeader b2\<rparr>" "storage_up s2" "touched now ?b (be_isLeader b2) (ms_nodes s0) (ms_nodes s2)"
    "be_isLeader b2 \<longleftrightarrow> getHighestPriority now ks ?b = calculatePriority (be_nodeID ?b)
          \<and> fst (getCurrentLeaderUnsafe now ?b ks s0) \<in> {'''', be_nodeID ?b}" by blast
  have e: "b' = b2" "s1 = s2" "be_nodeID ?b = i" using t(2) u(1) check(1) assms(4) by (simp_all add: election_round_def)
  have c: "b' = ?b\<lparr>be_isLeader := be_isLeader b'\<rparr>" "storage_up s1" "touched now ?b (be_isLeader b') (ms_nodes s0) (ms_nodes s1)"
    unfolding e(1,2) by (rule check)+
  have lead: "be_isLeader b' \<longleftrightarrow> getHighestPriority now ks ?b = calculatePriority i
          \<and> fst (getCurrentLeaderUnsafe now ?b ks s0) \<in> {'''', i}"
    unfolding e(1) check(5) e(3) by (rule refl)
  obtain l where l: "b' = ?b\<lparr>be_isLeader := l\<rparr>" using c(1) by blast
  have b': "be_nodeID b' = i" "be_timeout b' = be_timeout b" "be_nodeID ?b = i" "be_timeout ?b = be_timeout b"
    using l assms(4) by simp_all
  have id: "ni_ID (own_info b' l) = i" "ni_IsLeader (own_info b' l) = l" for l using b'(1) by (simp_all add: own_info_def)
  from RegisterNode_spec [OF c(2), of now "own_info b' (be_isLeader b')"] t(4)
  have h: "storage_up s'" "ms_nodes s' = (ms_nodes s1)(i \<mapsto> registered now (own_info b' (be_isLeader b')) (ms_nodes s1 i))"
    by (auto simp: sendHeartbeat_def id)
  have touch: "touched now b (be_isLeader b') ((ms_nodes s)(i := None)) ((ms_nodes s')(i := None))"
    using c(3) h(2) u(3) assms(4) by (auto simp: touched_def to_clear_def)
  have own: "\<exists>n. ms_nodes s' i = Some n \<and> ni_IsLeader n = be_isLeader b' \<and> ni_LastSeen n = bson_ms now"
    using h(2) by (simp add: registered_def id)
  have prio: "calculatePriority k \<in> live_priorities now ?b"
    if "ms_nodes s k = Some n" "seen_within now (be_timeout b) (ni_LastSeen n)" for k n
  proof -
    have "be_nodes ?b k = Some (cached_node n)" using that fresh_recent [OF that(2) assms(5,6)] by simp
    moreover have "ni_ID n = k" by (rule nodes_key [OF storage_up_ok [OF assms(2)] that(1)])
    ultimately show ?thesis using that(2) by (force simp: live_priorities_def cached_node_def)
  qed
  have lower: "\<not> be_isLeader b'" if "ms_nodes s k = Some n" "seen_within now (be_timeout b) (ni_LastSeen n)"
    "calculatePriority i < calculatePriority k" for k n
    using getHighestPriority_spec(2) [OF ks, of now] prio [OF that(1,2)] that(3) lead by fastforce
  have "be_isLeader b'" if all: "\<forall>k n. k \<noteq> i \<longrightarrow> ms_nodes s k = Some n \<longrightarrow> seen_within now (be_timeout b) (ni_LastSeen n)
         \<longrightarrow> calculatePriority k \<le> calculatePriority i \<and> \<not> ni_IsLeader n"
  proof -
    obtain cur s2 where cur: "getCurrentLeaderUnsafe now ?b ks s0 = (cur, s2)" by fastforce
    have "cur \<in> {'''', i}"
      using current_leader_live [OF u(2) cur] all u(3) b'(4) by (auto simp: live_leader_def)
    moreover have "p \<le> calculatePriority i" if "p \<in> live_priorities now ?b" for p
    proof -
      from that obtain k n where k: "ms_nodes s k = Some n" "p = calculatePriority (ni_ID n)"
        "seen_within now (be_timeout b) (ni_LastSeen n)"
        by (auto simp: live_priorities_def cached_node_def split: option.splits if_splits)
      with nodes_key [OF storage_up_ok [OF assms(2)] k(1)] all show ?thesis by (cases "k = i") auto
    qed
    then have "getHighestPriority now ks ?b = calculatePriority i"
      using getHighestPriority_spec [OF ks, of now] b'(3) by force
    ultimately show ?thesis using lead cur by simp
  qed
  with t(3) b' h(1) touch own lower show ?thesis by blast
qed

section \<open>Turns until the highest leads\<close>

text \<open>Between the instants \<open>start\<close> and \<open>stop\<close>, which lie less than a timeout apart: every node
  of the cluster is registered and will be fresh until \<open>stop\<close>; every other fresh document is of
  lower priority than \<open>h\<close>; no document of a dead node shows a live leader; the nodes in \<open>S\<close> do
  not lead; and, once \<open>led\<close>, all lower nodes are in \<open>S\<close> and \<open>h\<close> leads.\<close>

definition cluster_inv ::
  "string \<Rightarrow> gtime \<Rightarrow> gtime \<Rightarrow> duration \<Rightarrow> string set \<Rightarrow> bool \<Rightarrow> 'd cluster \<Rightarrow> bool" where
  "cluster_inv h start stop timeout S led = (\<lambda>(bs, s). storage_up s
     \<and> (\<forall>i b. bs i = Some b \<longrightarrow> be_nodeID b = i \<and> be_timeout b = timeout
           \<and> (\<exists>n. ms_nodes s i = Some n \<and> stop - ni_LastSeen n < timeout))
     \<and> (\<forall>k n. ms_nodes s k = Some n \<longrightarrow> k \<noteq> h \<longrightarrow> start - ni_LastSeen n < timeout
           \<longrightarrow> calculatePriority k < calculatePriority h)
     \<and> (\<forall>k n. ms_nodes s k = Some n \<longrightarrow> bs k = None \<longrightarrow> ni_IsLeader n \<longrightarrow> timeout \<le> start - ni_LastSeen n)
     \<and> (\<forall>i\<in>S. i \<noteq> h \<and> (\<exists>b n. bs i = Some b \<and> ms_nodes s i = Some n \<and> \<not> be_isLeader b \<and> \<not> ni_IsLeader n))
     \<and> h \<in> dom bs
     \<and> (led \<longrightarrow> dom bs = insert h S \<and> (\<exists>b n. bs h = Some b \<and> ms_nodes s h = Some n \<and> be_isLeader b \<and> ni_IsLeader n)))"

definition window :: "gtime \<Rightarrow> gtime \<Rightarrow> duration \<Rightarrow> bool" where
  "window start stop timeout \<longleftrightarrow> stop \<le> start + timeout - millis 1 \<and> timeout \<le> seconds 300"

lemma window_fresh:
  assumes "window start stop timeout" and "start \<le> now" and "now \<le> stop"
  shows "seen_within now timeout ls \<longleftrightarrow> now - ls < timeout" and "stop - bson_ms now < timeout"
    and "timeout \<le> seconds 300" and "- (2 ^ 63) < timeout"
  using assms bson_ms_gt [of now] by (auto simp: window_def seen_within_def time_Sub_less)

lemma cluster_invI:
  assumes "storage_up s" and "h \<in> dom bs"
    and "\<And>i b. bs i = Some b \<Longrightarrow> be_nodeID b = i \<and> be_timeout b = timeout \<and> (\<exists>n. ms_nodes s i = Some n \<and> stop - ni_LastSeen n < timeout)"
    and "\<And>k n. ms_nodes s k = Some n \<Longrightarrow> k \<noteq> h \<Longrightarrow> start - ni_LastSeen n < timeout \<Longrightarrow> calculatePriority k < calculatePriority h"
    and "\<And>k n. ms_nodes s k = Some n \<Longrightarrow> bs k = None \<Longrightarrow> ni_IsLeader n \<Longrightarrow> timeout \<le> start - ni_LastSeen n"
    and "\<And>j. j \<in> S \<Longrightarrow> j \<noteq> h \<and> (\<exists>b n. bs j = Some b \<and> ms_nodes s j = Some n \<and> \<not> be_isLeader b \<and> \<not> ni_IsLeader n)"
    and "led \<Longrightarrow> dom bs = insert h S \<and> (\<exists>b n. bs h = Some b \<and> ms_nodes s h = Some n \<and> be_isLeader b \<and> ni_IsLeader n)"
  shows "cluster_inv h start stop timeout S led (bs, s)"
  using assms unfolding cluster_inv_def prod.case by (intro conjI allI impI ballI) simp_all

lemma cluster_invD:
  assumes "cluster_inv h start stop timeout S led (bs, s)"
  shows "storage_up s" and "h \<in> dom bs"
    and "bs i = Some b \<Longrightarrow> be_nodeID b = i \<and> be_timeout b = timeout \<and> (\<exists>n. ms_nodes s i = Some n \<and> stop - ni_LastSeen n < timeout)"
    and "ms_nodes s k = Some n \<Longrightarrow> k \<noteq> h \<Longrightarrow> start - ni_LastSeen n < timeout \<Longrightarrow> calculatePriority k < calculatePriority h"
    and "ms_nodes s k = Some n \<Longrightarrow> bs k = None \<Longrightarrow> ni_IsLeader n \<Longrightarrow> timeout \<le> start - ni_LastSeen n"
    and "j \<in> S \<Longrightarrow> j \<noteq> h \<and> (\<exists>b n. bs j = Some b \<and> ms_nodes s j = Some n \<and> \<not> be_isLeader b \<and> \<not> ni_IsLeader n)"
    and "led \<Longrightarrow> dom bs = insert h S \<and> (\<exists>b n. bs h = Some b \<and> ms_nodes s h = Some n \<and> be_isLeader b \<and> ni_IsLeader n)"
  using assms unfolding cluster_inv_def by auto

text \<open>Before \<open>stop\<close>, a lower node gives way to \<open>h\<close>, and \<open>h\<close> finds nobody in its way once the
  lower nodes have had their turn.\<close>

lemma lower_node_gives_way:
  assumes inv: "cluster_inv h start stop timeout S led (bs, s)" and "bs i = Some b" and "i \<noteq> h"
    and "start \<le> now" and "now \<le> stop"
  shows "\<exists>m. ms_nodes s h = Some m \<and> now - ni_LastSeen m < timeout \<and> calculatePriority i < calculatePriority h"
proof -
  from cluster_invD(3) [OF inv assms(2)] obtain n where "ms_nodes s i = Some n" "stop - ni_LastSeen n < timeout" by blast
  with cluster_invD(4) [OF inv, of i n] assms(3-5) have p: "calculatePriority i < calculatePriority h" by simp
  from cluster_invD(2) [OF inv] obtain c where "bs h = Some c" by blast
  from cluster_invD(3) [OF inv this] obtain m where "ms_nodes s h = Some m" "stop - ni_LastSeen m < timeout" by blast
  with p assms(5) show ?thesis by auto
qed

lemma highest_node_is_free:
  assumes inv: "cluster_inv h start stop timeout S led (bs, s)" and "dom bs = insert h S" and "start \<le> now"
    and "k \<noteq> h" and "ms_nodes s k = Some n" and "now - ni_LastSeen n < timeout"
  shows "calculatePriority k < calculatePriority h \<and> \<not> ni_IsLeader n"
proof
  show "calculatePriority k < calculatePriority h" using cluster_invD(4) [OF inv assms(5)] assms by simp
  show "\<not> ni_IsLeader n"
  proof (cases "bs k")
    case None
    with cluster_invD(5) [OF inv assms(5)] assms show ?thesis by auto
  next
    case (Some x)
    with assms(2,4) have "k \<in> S" by auto
    with cluster_invD(6) [OF inv, of k] assms(5) show ?thesis by auto
  qed
qed

lemma cluster_turn_effect:
  assumes inv: "cluster_inv h start stop timeout S led (bs, s)" and "bully_turn (bs, s) (i, now) (bs', s')"
    and "window start stop timeout" and "start \<le> now" and "now \<le> stop"
  shows "\<exists>b' n. bs' = bs(i \<mapsto> b') \<and> i \<in> dom bs \<and> be_nodeID b' = i \<and> be_timeout b' = timeout \<and> storage_up s'
    \<and> ms_nodes s' i = Some n \<and> ni_IsLeader n = be_isLeader b' \<and> ni_LastSeen n = bson_ms now
    \<and> (i \<noteq> h \<longrightarrow> \<not> be_isLeader b') \<and> (i = h \<longrightarrow> dom bs = insert h S \<longrightarrow> be_isLeader b')
    \<and> (\<forall>k. k \<noteq> i \<longrightarrow> ms_nodes s' k = ms_nodes s k \<or> (\<exists>n. i = h \<and> ms_nodes s k = Some n
          \<and> calculatePriority k < calculatePriority h \<and> ms_nodes s' k = Some (cleared now n)))"
proof -
  note w = window_fresh [OF assms(3-5)]
  note up = cluster_invD(1) [OF inv]
  from assms(2) obtain b where b: "bs i = Some b" by (auto elim: bully_turnE)
  have id: "be_nodeID b = i" "be_timeout b = timeout" using cluster_invD(3) [OF inv b] by simp_all
  from turn_spec [OF assms(2) up b id(1)] w(3,4) obtain b' n
    where t: "bs' = bs(i \<mapsto> b')" "be_nodeID b' = i" "be_timeout b' = timeout" "storage_up s'"
      "ms_nodes s' i = Some n" "ni_IsLeader n = be_isLeader b'" "ni_LastSeen n = bson_ms now"
    and touch: "touched now b (be_isLeader b') ((ms_nodes s)(i := None)) ((ms_nodes s')(i := None))"
    and gives_way: "\<forall>k n. ms_nodes s k = Some n \<longrightarrow> now - ni_LastSeen n < timeout
         \<longrightarrow> calculatePriority i < calculatePriority k \<longrightarrow> \<not> be_isLeader b'"
    and leads: "(\<forall>k n. k \<noteq> i \<longrightarrow> ms_nodes s k = Some n \<longrightarrow> now - ni_LastSeen n < timeout
         \<longrightarrow> calculatePriority k \<le> calculatePriority i \<and> \<not> ni_IsLeader n) \<longrightarrow> be_isLeader b'"
    unfolding id(2) w(1) by blast
  have not_leader: "\<not> be_isLeader b'" if "i \<noteq> h"
    using lower_node_gives_way [OF inv b that assms(4,5)] gives_way by blast
  have "be_isLeader b'" if "i = h" "dom bs = insert h S"
    using leads highest_node_is_free [OF inv that(2) assms(4)] that(1) by (meson order_less_imp_le)
  moreover have "ms_nodes s' k = ms_nodes s k \<or> (\<exists>n. i = h \<and> ms_nodes s k = Some n
          \<and> calculatePriority k < calculatePriority h \<and> ms_nodes s' k = Some (cleared now n))" if "k \<noteq> i" for k
  proof -
    have "ni_ID n = k" if "ms_nodes s k = Some n" for n by (rule nodes_key [OF storage_up_ok [OF up] that])
    with touch that id(1) not_leader show ?thesis by (auto simp: touched_def to_clear_def)
  qed
  ultimately show ?thesis using t b not_leader by blast
qed

lemma cluster_turn:
  assumes inv: "cluster_inv h start stop timeout S led (bs, s)" and "bully_turn (bs, s) (i, now) (bs', s')"
    and "window start stop timeout" and "start \<le> now" and "now \<le> stop"
  shows "dom bs' = dom bs \<and> cluster_inv h start stop timeout (if i = h then S else insert i S)
    (led \<or> i = h \<and> dom bs = insert h S) (bs', s')"
proof -
  note w = window_fresh [OF assms(3-5)] and I = cluster_invD [OF inv]
  from cluster_turn_effect [OF assms] obtain b' m where t: "bs' = bs(i \<mapsto> b')" "i \<in> dom bs" "be_nodeID b' = i"
      "be_timeout b' = timeout" "storage_up s'" "ms_nodes s' i = Some m" "ni_IsLeader m = be_isLeader b'" "ni_LastSeen m = bson_ms now"
      "i \<noteq> h \<Longrightarrow> \<not> be_isLeader b'" "i = h \<Longrightarrow> dom bs = insert h S \<Longrightarrow> be_isLeader b'"
    and docs: "\<And>k. k \<noteq> i \<Longrightarrow> ms_nodes s' k = ms_nodes s k \<or> (\<exists>n. i = h \<and> ms_nodes s k = Some n
          \<and> calculatePriority k < calculatePriority h \<and> ms_nodes s' k = Some (cleared now n))" by blast
  have dom: "dom bs' = dom bs" using t(1,2) by auto
  have c1: "be_nodeID x = k \<and> be_timeout x = timeout \<and> (\<exists>n. ms_nodes s' k = Some n \<and> stop - ni_LastSeen n < timeout)"
    if "bs' k = Some x" for k x
    using that t(1,3,4,6,8) I(3) [of k x] docs [of k] w(2) by (cases "k = i") (auto simp: cleared_def)
  have c2: "calculatePriority k < calculatePriority h"
    if "ms_nodes s' k = Some n" "k \<noteq> h" "start - ni_LastSeen n < timeout" for k n
    using that docs [of k] I(4) [of k n] t(2) lower_node_gives_way [OF inv _ that(2) assms(4,5)]
    by (cases "k = i") auto
  have c3: "timeout \<le> start - ni_LastSeen n" if "ms_nodes s' k = Some n" "bs' k = None" "ni_IsLeader n" for k n
    using that docs [of k] I(5) [of k n] t(1) by (auto simp: cleared_def split: if_splits)
  have c4: "j \<noteq> h \<and> (\<exists>x n. bs' j = Some x \<and> ms_nodes s' j = Some n \<and> \<not> be_isLeader x \<and> \<not> ni_IsLeader n)"
    if "j \<in> (if i = h then S else insert i S)" for j
    using that I(6) [of j] docs [of j] t by (cases "j = i") (auto simp: cleared_def split: if_splits)
  have c5: "dom bs' = insert h (if i = h then S else insert i S)
      \<and> (\<exists>x n. bs' h = Some x \<and> ms_nodes s' h = Some n \<and> be_isLeader x \<and> ni_IsLeader n)"
    if led: "led \<or> i = h \<and> dom bs = insert h S"
  proof (cases "i = h")
    case True
    with t dom led I(7) show ?thesis by auto
  next
    case False
    with led I(7) docs [of h] t(1,2) dom show ?thesis by auto
  qed
  have "h \<in> dom bs'" using I(2) dom by simp
  with dom show ?thesis by (intro conjI cluster_invI [OF t(5) _ c1 c2 c3 c4 c5]) simp_all
qed

text \<open>A turn is always possible, and so is any series of turns of nodes of the cluster.\<close>

lemma turn_possible:
  assumes "storage_up s" and "bs i = Some b"
  shows "\<exists>bs' s'. bully_turn (bs, s) (i, now) (bs', s')"
proof -
  from GetNodes_spec [OF assms(1), of now] obtain ns s1 where ns: "GetNodes now s = ((ns, None), s1)" by blast
  have "finite (dom (foldl (\<lambda>m n. m(ni_ID n \<mapsto> cached_node n)) m0 ns))" if "finite (dom m0)" for m0
    using that by (induction ns arbitrary: m0) simp_all
  from this [of Map.empty] have "finite (dom (be_nodes (fst (updateNodes now b s))))" by (simp add: updateNodes_def ns)
  from finite_list [OF this] obtain ks where "set ks = dom (be_nodes (fst (updateNodes now b s)))" ..
  moreover obtain b' s' msg where "election_round now ks b s = (b', s', msg)" by (metis prod_cases3)
  ultimately show ?thesis using turn [of bs i b] assms(2) by blast
qed

lemma turns_possible:
  assumes "cluster_inv h start stop timeout S led c" and "window start stop timeout"
    and "\<forall>(i, now)\<in>set ts. i \<in> dom (fst c) \<and> start \<le> now \<and> now \<le> stop"
  shows "\<exists>c'. bully_turns c ts c'"
  using assms
proof (induction ts arbitrary: c S led)
  case Nil
  then show ?case by auto
next
  case (Cons t ts)
  obtain i now where t: "t = (i, now)" by fastforce
  obtain bs s where c: "c = (bs, s)" by fastforce
  with Cons.prems(3) t obtain b where b: "bs i = Some b" "start \<le> now" "now \<le> stop" by auto
  from turn_possible [where bs = bs and i = i and now = now, OF cluster_invD(1) [OF Cons.prems(1) [unfolded c]] b(1)] obtain bs1 s1
    where turn1: "bully_turn (bs, s) (i, now) (bs1, s1)" by blast
  from cluster_turn [OF Cons.prems(1) [unfolded c] turn1 Cons.prems(2) b(2,3)]
  obtain S1 led1 where 1: "dom bs1 = dom bs" "cluster_inv h start stop timeout S1 led1 (bs1, s1)" by blast
  have "\<forall>(i, now)\<in>set ts. i \<in> dom (fst (bs1, s1)) \<and> start \<le> now \<and> now \<le> stop"
    using Cons.prems(3) 1(1) c by auto
  from Cons.IH [OF 1(2) Cons.prems(2) this] turn1 show ?case unfolding bully_turns_Cons c t by blast
qed

lemma turns_effect:
  assumes "bully_turns c ts c'" and "cluster_inv h start stop timeout S led c" and "window start stop timeout"
    and "\<forall>(i, now)\<in>set ts. i \<in> dom (fst c) \<and> start \<le> now \<and> now \<le> stop"
  shows "dom (fst c') = dom (fst c)
    \<and> (\<exists>led'. (led \<longrightarrow> led') \<and> cluster_inv h start stop timeout (S \<union> (fst ` set ts - {h})) led' c')"
  using assms
proof (induction ts arbitrary: c S led)
  case Nil
  then show ?case by auto
next
  case (Cons t ts)
  obtain i now where t: "t = (i, now)" by fastforce
  obtain bs s where c: "c = (bs, s)" by fastforce
  from Cons.prems(1) obtain bs1 s1 where turns: "bully_turn (bs, s) (i, now) (bs1, s1)" "bully_turns (bs1, s1) ts c'"
    unfolding bully_turns_Cons c t by auto
  have "start \<le> now" "now \<le> stop" using Cons.prems(4) t by auto
  note turn1 = cluster_turn [OF Cons.prems(2) [unfolded c] turns(1) Cons.prems(3) this]
  let ?S = "if i = h then S else insert i S"
  let ?led = "led \<or> i = h \<and> dom bs = insert h S"
  note l = turn1 [THEN conjunct1] turn1 [THEN conjunct2]
  have "\<forall>(i, now)\<in>set ts. i \<in> dom (fst (bs1, s1)) \<and> start \<le> now \<and> now \<le> stop"
    using Cons.prems(4) l(1) c by auto
  note ih = Cons.IH [OF turns(2) l(2) Cons.prems(3) this]
  have eq: "?S \<union> (fst ` set ts - {h}) = S \<union> (fst ` set (t # ts) - {h})" using t by auto
  have dom: "dom (fst c') = dom (fst c)" using ih [THEN conjunct1] l(1) c by simp
  from ih [THEN conjunct2] obtain led2 where "?led \<longrightarrow> led2"
    "cluster_inv h start stop timeout (S \<union> (fst ` set (t # ts) - {h})) led2 c'" unfolding eq by (elim exE conjE)
  then show ?case by (intro conjI dom exI [of _ led2]) simp_all
qed

lemma turns_append: "bully_turns c (us @ vs) c'' \<longleftrightarrow> (\<exists>c'. bully_turns c us c' \<and> bully_turns c' vs c'')"
  by (induction us arbitrary: c) (auto simp: bully_turns_Cons)

section \<open>The highest node comes to lead\<close>

text \<open>When only one document shows a live leader, every node that does not lead names it.\<close>

lemma named_leader:
  assumes "storage_up s" and "ms_nodes s h = Some n" and "live_leader now (be_timeout b) n" and "recent now n"
    and "\<And>k m. ms_nodes s k = Some m \<Longrightarrow> live_leader now (be_timeout b) m \<Longrightarrow> k = h"
  shows "fst (getCurrentLeader now b s) = h"
proof -
  from GetNodes_spec [OF assms(1), of now] obtain ns s' where ns: "GetNodes now s = ((ns, None), s')"
    "\<And>n. n \<in> set ns \<longleftrightarrow> ms_nodes s (ni_ID n) = Some n \<and> recent now n" unfolding recent_def by blast
  have "n \<in> set ns" using ns(2) assms(2,4) nodes_key [OF storage_up_ok [OF assms(1)] assms(2)] by simp
  then have "List.find (live_leader now (be_timeout b)) ns \<noteq> None" using assms(3) by (auto simp: find_None_iff)
  then obtain m where m: "List.find (live_leader now (be_timeout b)) ns = Some m" by blast
  with find_SomeD [OF m] ns(2) assms(5) have "ni_ID m = h" by blast
  with m ns(1) show ?thesis by (simp add: getCurrentLeader_def)
qed

text \<open>The start: a cluster whose nodes are all registered and stay fresh until \<open>stop\<close>, in which
  every other fresh document is of lower priority than the node \<open>h\<close>, and whose dead nodes do not look
  like live leaders.\<close>

definition cluster_ready :: "string \<Rightarrow> gtime \<Rightarrow> gtime \<Rightarrow> duration \<Rightarrow> 'd cluster \<Rightarrow> bool" where
  "cluster_ready h start stop timeout = (\<lambda>(bs, s). storage_up s \<and> h \<in> dom bs
     \<and> (\<forall>i b. bs i = Some b \<longrightarrow> be_nodeID b = i \<and> be_timeout b = timeout
           \<and> (\<exists>n. ms_nodes s i = Some n \<and> stop - ni_LastSeen n < timeout))
     \<and> (\<forall>k n. ms_nodes s k = Some n \<longrightarrow> k \<noteq> h \<longrightarrow> start - ni_LastSeen n < timeout
           \<longrightarrow> calculatePriority k < calculatePriority h)
     \<and> (\<forall>k n. ms_nodes s k = Some n \<longrightarrow> bs k = None \<longrightarrow> ni_IsLeader n \<longrightarrow> timeout \<le> start - ni_LastSeen n))"

lemma cluster_ready_inv: "cluster_ready h start stop timeout c \<Longrightarrow> cluster_inv h start stop timeout {} False c"
  by (cases c) (auto simp: cluster_ready_def intro!: cluster_invI)

lemma led_cluster:
  assumes inv: "cluster_inv h start stop timeout S True (bs, s)" and "window start stop timeout"
    and "bs i = Some b" and "start \<le> now" and "now \<le> stop"
  shows "(be_isLeader b \<longleftrightarrow> i = h) \<and> fst (Bully_GetLeader now b s) = h"
proof -
  note I = cluster_invD [OF inv] and w = window_fresh [OF assms(2,4,5)]
  have id: "be_nodeID b = i" "be_timeout b = timeout" using I(3) [OF assms(3)] by simp_all
  from I(7) obtain c n where c: "bs h = Some c" "ms_nodes s h = Some n" "be_isLeader c" "ni_IsLeader n" "dom bs = insert h S" by auto
  have lead: "be_isLeader b \<longleftrightarrow> i = h"
  proof (cases "i = h")
    case False
    with c(5) assms(3) have "i \<in> S" by auto
    with I(6) [of i] assms(3) False show ?thesis by auto
  qed (use c assms(3) in simp)
  have "stop - ni_LastSeen n < timeout" using I(3) [OF c(1)] c(2) by auto
  then have live: "live_leader now timeout n" using c(4) assms(5) w(1) [of "ni_LastSeen n"] by (simp add: live_leader_def)
  then have rec: "recent now n" using fresh_recent w(3,4) by (auto simp: live_leader_def)
  have "k = h" if "ms_nodes s k = Some m" "live_leader now timeout m" for k m
  proof (rule ccontr)
    assume "k \<noteq> h"
    moreover have "now - ni_LastSeen m < timeout" "ni_IsLeader m" using that(2) w(1) by (simp_all add: live_leader_def)
    ultimately show False using highest_node_is_free [OF inv c(5) assms(4) _ that(1)] by blast
  qed
  with named_leader [OF I(1) c(2), of now b] live rec have "fst (getCurrentLeader now b s) = h" by (simp add: id)
  with lead id(1) show ?thesis by (auto simp: Bully_GetLeader_def)
qed

text \<open>C11: Nodes take turns, in any order and each as often as it likes, within a window shorter than the
  timeout. As soon as every lower node has had a turn and the highest one after them, the highest
  leads, whoever led before; no other node leads; and every node, when asked, names it. Any such series
  of turns can be carried out.\<close>

theorem highest_node_comes_to_lead:
  assumes "cluster_ready h start stop timeout (bs, s)" and "window start stop timeout"
    and "\<forall>(i, now)\<in>set (us @ (h, t) # vs). i \<in> dom bs \<and> start \<le> now \<and> now \<le> stop"
    and "dom bs \<subseteq> insert h (fst ` set us)"
  shows "(\<exists>c'. bully_turns (bs, s) (us @ (h, t) # vs) c')
    \<and> (\<forall>bs' s'. bully_turns (bs, s) (us @ (h, t) # vs) (bs', s') \<longrightarrow> dom bs' = dom bs
        \<and> (\<forall>i b now. bs' i = Some b \<longrightarrow> start \<le> now \<longrightarrow> now \<le> stop
             \<longrightarrow> (be_isLeader b \<longleftrightarrow> i = h) \<and> fst (Bully_GetLeader now b s') = h))"
proof -
  note inv0 = cluster_ready_inv [OF assms(1)]
  have times: "\<forall>(i, now)\<in>set us. i \<in> dom (fst (bs, s)) \<and> start \<le> now \<and> now \<le> stop"
    "\<forall>(i, now)\<in>set vs. i \<in> dom bs \<and> start \<le> now \<and> now \<le> stop"
    "start \<le> t" "t \<le> stop" using assms(3) by auto
  have fin: "dom bs' = dom bs \<and> (\<exists>S. cluster_inv h start stop timeout S True (bs', s'))"
    if "bully_turns (bs, s) (us @ (h, t) # vs) (bs', s')" for bs' s'
  proof -
    from that obtain bs1 s1 bs2 s2 where c: "bully_turns (bs, s) us (bs1, s1)" "bully_turn (bs1, s1) (h, t) (bs2, s2)"
      "bully_turns (bs2, s2) vs (bs', s')" unfolding turns_append bully_turns_Cons by auto
    let ?S = "fst ` set us - {h}"
    from turns_effect [OF c(1) inv0 assms(2) times(1)] obtain led1
      where i1: "dom bs1 = dom bs" "cluster_inv h start stop timeout ?S led1 (bs1, s1)" by auto
    have "dom bs1 = insert h ?S"
      using i1(1) assms(4) cluster_invD(2) [OF i1(2)] cluster_invD(6) [OF i1(2)] by blast
    with cluster_turn [OF i1(2) c(2) assms(2) times(3,4)]
    have i2: "dom bs2 = dom bs" "cluster_inv h start stop timeout ?S True (bs2, s2)" using i1(1) by simp_all
    have "\<forall>(i, now)\<in>set vs. i \<in> dom (fst (bs2, s2)) \<and> start \<le> now \<and> now \<le> stop" using times(2) i2(1) by simp
    from turns_effect [OF c(3) i2(2) assms(2) this] i2(1) show ?thesis by auto
  qed
  have "\<exists>c'. bully_turns (bs, s) (us @ (h, t) # vs) c'"
    by (rule turns_possible [OF inv0 assms(2)]) (use assms(3) in simp)
  moreover have "(be_isLeader b \<longleftrightarrow> i = h) \<and> fst (Bully_GetLeader now b s') = h"
    if "bully_turns (bs, s) (us @ (h, t) # vs) (bs', s')" "bs' i = Some b" "start \<le> now" "now \<le> stop" for bs' s' i b now
  proof -
    from fin [OF that(1)] obtain S where "cluster_inv h start stop timeout S True (bs', s')" by blast
    from led_cluster [OF this assms(2) that(2-4)] show ?thesis .
  qed
  ultimately show ?thesis using fin by simp
qed

section \<open>A run\<close>

text \<open>A lower node that leads, and a higher one that has just joined.\<close>

definition sample_cluster :: "mem_mongo cluster" where
  "sample_cluster = ([''node-1'' \<mapsto> sample_bully ''node-1'' ''node-2'' True, ''node-2'' \<mapsto> sample_bully ''node-2'' ''node-1'' False],
     new_storage\<lparr>ms_db := mem_db_empty\<lparr>mm_nodes := [sample_info ''node-1'' True, sample_info ''node-2'' False]\<rparr>\<rparr>)"

lemma sample_cluster_docs:
  "ms_nodes (snd sample_cluster) = [''node-1'' \<mapsto> sample_info ''node-1'' True, ''node-2'' \<mapsto> sample_info ''node-2'' False]"
  by (rule ext) (simp add: sample_cluster_def ms_nodes_def new_storage_def sample_info_def blank_node_def)

lemma sample_cluster_ready: "cluster_ready ''node-2'' 0 (seconds 2) (seconds 15) sample_cluster"
proof -
  obtain bs s where c: "sample_cluster = (bs, s)" by fastforce
  have "storage_up s" using c by (auto simp: sample_cluster_def)
  moreover have "bs = [''node-1'' \<mapsto> sample_bully ''node-1'' ''node-2'' True, ''node-2'' \<mapsto> sample_bully ''node-2'' ''node-1'' False]"
    using c by (simp add: sample_cluster_def)
  moreover have "ms_nodes s = [''node-1'' \<mapsto> sample_info ''node-1'' True, ''node-2'' \<mapsto> sample_info ''node-2'' False]"
    using sample_cluster_docs unfolding c snd_conv .
  ultimately show ?thesis
    by (simp add: c cluster_ready_def sample_priorities sample_info_def blank_node_def)
qed

theorem highest_node_comes_to_lead_witness:
  "\<exists>bs s bs' s'. sample_cluster = (bs, s) \<and> be_isLeader (the (bs ''node-1''))
    \<and> bully_turns (bs, s) [(''node-1'', 0), (''node-2'', seconds 1), (''node-1'', seconds 2)] (bs', s')
    \<and> be_isLeader (the (bs' ''node-2'')) \<and> \<not> be_isLeader (the (bs' ''node-1''))
    \<and> fst (Bully_GetLeader (seconds 2) (the (bs' ''node-1'')) s') = ''node-2''"
proof -
  obtain bs s where c: "sample_cluster = (bs, s)" by fastforce
  have bs: "dom bs = {''node-1'', ''node-2''}" "be_isLeader (the (bs ''node-1''))" using c by (auto simp: sample_cluster_def split: if_splits)
  note run = highest_node_comes_to_lead [where us = "[(''node-1'', 0)]" and vs = "[(''node-1'', seconds 2)]" and t = "seconds 1",
      OF sample_cluster_ready [unfolded c]]
  have "window 0 (seconds 2) (seconds 15)" by (simp add: window_def)
  moreover have "\<forall>(i, now)\<in>set ([(''node-1'', 0)] @ (''node-2'', seconds 1) # [(''node-1'', seconds 2)]).
      i \<in> dom bs \<and> 0 \<le> now \<and> now \<le> seconds 2" by (simp add: bs)
  ultimately obtain bs' s' where r: "bully_turns (bs, s) ([(''node-1'', 0)] @ (''node-2'', seconds 1) # [(''node-1'', seconds 2)]) (bs', s')"
    "dom bs' = dom bs" "\<And>i b now. bs' i = Some b \<Longrightarrow> 0 \<le> now \<Longrightarrow> now \<le> seconds 2
       \<Longrightarrow> (be_isLeader b \<longleftrightarrow> i = ''node-2'') \<and> fst (Bully_GetLeader now b s') = ''node-2''"
    using run bs(1) by fastforce
  obtain b1 b2 where b: "bs' ''node-1'' = Some b1" "bs' ''node-2'' = Some b2" using r(2) bs(1) by (metis domD insertCI)
  have "be_isLeader b2" "\<not> be_isLeader b1" "fst (Bully_GetLeader (seconds 2) b1 s') = ''node-2''"
    using r(3) [OF b(2), of "seconds 2"] r(3) [OF b(1), of "seconds 2"] by simp_all
  with c bs(2) r(1) b show ?thesis by (intro exI [of _ bs] exI [of _ s] exI [of _ bs'] exI [of _ s']) simp
qed

end
