(* ===== verification/RaftCluster.thy ===== *)
theory RaftCluster
  imports Raft
begin

text \<open>
  Several nodes of the Raft election over one storage. The loops of the roles in
  \<open>internal/election/raft.go\<close> are functions of the event that comes next; the events of different
  nodes come in any order. The theorem is that a leader whose heartbeats come in time stays leader, and
  alone, whatever the other nodes do.
\<close>

section \<open>The loops, as functions of the next event\<close>

text \<open>A new round of \<open>run\<close>, the tickers and timers of the three loops, the answer to a vote
  request, and a heartbeat, which the leader sends from a goroutine of its own.\<close>

datatype raft_event =
    NextRound
  | HeartbeatTick
  | ElectionTimer
  | VoteTick
  | WaitOver
  | ValidateTick
  | VoteAnswer string VoteResponse
  | HeartbeatDue

text \<open>What is read at an event: the two readings of the clock of a claim, and the numbers drawn for
  a new timer.\<close>

type_synonym readings = "gtime \<times> gtime \<times> int \<times> int"

definition react_with :: "('d, 'a) raft \<Rightarrow> ('a \<Rightarrow> raft_pc) \<Rightarrow> RaftElection \<times> 'd MongoStorage \<Rightarrow> 'd raft_config outcome" where
  "react_with body pc st = obind (body st) (\<lambda>(x, st'). Returns (pc x, st'))"

definition run_round :: "readings \<Rightarrow> RaftElection \<times> 'd MongoStorage \<Rightarrow> 'd raft_config outcome" where
  "run_round = (\<lambda>(t0, now, rs) st. obind (rlocked (gets ra_state) st) (\<lambda>(state, st').
     case state of
       Follower \<Rightarrow> Returns (InFollower, st')
     | Candidate \<Rightarrow> react_with (candidate_start rs) (\<lambda>_. InCandidate) st'
     | Leader \<Rightarrow> react_with leader_start (\<lambda>_. InLeader 0) st'))"

text \<open>An event that a loop does not select leaves it where it is.\<close>

fun runFollower :: "raft_event \<Rightarrow> readings \<Rightarrow> RaftElection \<times> 'd MongoStorage \<Rightarrow> 'd raft_config outcome" where
  "runFollower HeartbeatTick (t0, now, rs) st = react_with (follower_tick now rs) (\<lambda>_. InFollower) st"
| "runFollower ElectionTimer (t0, now, rs) st =
     react_with (follower_timeout now rs (\<lambda>r. r)) (\<lambda>left. if left then AtLoop else InFollower) st"
| "runFollower ev rd st = Returns (InFollower, st)"

fun runCandidate :: "raft_event \<Rightarrow> readings \<Rightarrow> RaftElection \<times> 'd MongoStorage \<Rightarrow> 'd raft_config outcome" where
  "runCandidate ElectionTimer (t0, now, rs) st = react_with (becomeCandidate (\<lambda>r. r)) (\<lambda>_. AtLoop) st"
| "runCandidate VoteTick (t0, now, rs) st =
     react_with (candidate_tick t0 now rs) (\<lambda>left. if left then AtLoop else InCandidate) st"
| "runCandidate WaitOver (t0, now, rs) st = react_with (candidate_final t0 now rs) (\<lambda>_. AtLoop) st"
| "runCandidate ev rd st = Returns (InCandidate, st)"

fun runLeader :: "nat \<Rightarrow> raft_event \<Rightarrow> readings \<Rightarrow> RaftElection \<times> 'd MongoStorage \<Rightarrow> 'd raft_config outcome" where
  "runLeader failures ValidateTick (t0, now, rs) st =
     react_with (leader_check now failures) (\<lambda>(failures', i, left). if left then AtLoop else InLeader failures') st"
| "runLeader failures ev rd st = Returns (InLeader failures, st)"

fun raft_react :: "raft_event \<Rightarrow> readings \<Rightarrow> 'd raft_config \<Rightarrow> 'd raft_config outcome" where
  "raft_react (VoteAnswer voter response) (t0, now, rs) (pc, st) =
     react_with (handleVoteResponse rs voter response) (\<lambda>_. pc) st"
| "raft_react HeartbeatDue (t0, now, rs) (pc, st) = react_with (sendHeartbeats now) (\<lambda>_. pc) st"
| "raft_react ev rd (pc, st) = (case pc of
       AtLoop \<Rightarrow> if ev = NextRound then run_round rd st else Returns (pc, st)
     | InFollower \<Rightarrow> runFollower ev rd st
     | InCandidate \<Rightarrow> runCandidate ev rd st
     | InLeader n \<Rightarrow> runLeader n ev rd st)"

text \<open>Every reaction is a step of the node.\<close>

lemma react_with_Returns:
  "react_with body f (r, e) = Returns (pc', r', e') \<longleftrightarrow> (\<exists>x. body (r, e) = Returns (x, (r', e')) \<and> pc' = f x)"
  by (cases "body (r, e)") (auto simp: react_with_def)

lemma raft_react_step:
  assumes "raft_react ev (t0, now, rs) (pc, r, e) = Returns (pc', r', e')" and "mu r = Free"
  shows "raft_step (pc, r, e) (pc', r', e')"
proof (cases "\<exists>voter response. ev = VoteAnswer voter response \<or> ev = HeartbeatDue")
  case True
  with assms(1) show ?thesis by (auto simp: react_with_Returns intro: raft_step.intros)
next
  case False
  show ?thesis
  proof (cases pc)
    case AtLoop
    with False assms show ?thesis
      by (cases ev; cases "ra_state r") (auto simp: run_round_def prog_simps react_with_Returns intro: raft_step.intros)
  next
    case InFollower
    with False assms show ?thesis
      by (cases ev) (auto simp: react_with_Returns intro: raft_step.intros)
  next
    case InCandidate
    with False assms show ?thesis
      by (cases ev) (auto simp: react_with_Returns intro: raft_step.intros)
  next
    case (InLeader n)
    with False assms show ?thesis
      by (cases ev) (auto simp: react_with_Returns intro: raft_step.intros)
  qed
qed

section \<open>A candidate against an active leader\<close>

text \<open>The documents are as they were, except that the flags of stale leaders may have been cleared.\<close>

definition calm :: "gtime \<Rightarrow> (string \<rightharpoonup> NodeInfo) \<Rightarrow> (string \<rightharpoonup> NodeInfo) \<Rightarrow> bool" where
  "calm t0 v v' \<longleftrightarrow> v' = v \<or> v' = update_many (stale_filter t0) unclaim_set v"

lemma claim_fails:
  assumes "storage_up s" and "t0 \<le> now" and "active_rivals now i (ms_nodes s) \<noteq> {}"
  shows "\<exists>s'. AtomicClaimLeadership t0 now i tm s = (Inr False, s') \<and> storage_up s' \<and> calm t0 (ms_nodes s) (ms_nodes s')"
proof -
  have ok: "storage_ok s" by (rule storage_up_ok [OF assms(1)])
  obtain r1 s1 where s1: "mongo_do (\<lambda>c. nodes_UpdateMany c (stale_filter t0) unclaim_set) s = (Inr r1, s1)" "storage_up s1"
    using mongo_do_Inr(1) [OF assms(1)] by blast
  from do_nodes_UpdateMany [OF s1(1) ok] have v1: "ms_nodes s1 = update_many (stale_filter t0) unclaim_set (ms_nodes s)" by simp
  have ok1: "storage_ok s1" by (rule storage_up_ok [OF s1(2)])
  obtain c s2 where s2: "mongo_do (\<lambda>c. nodes_CountDocuments c (active_filter now i)) s1 = (Inr c, s2)" "storage_up s2"
    using mongo_do_Inr(2) [OF s1(2)] by blast
  have riv: "active_rivals now i (ms_nodes s1) = active_rivals now i (ms_nodes s)"
    unfolding v1 by (rule active_rivals_clear [OF assms(2)])
  from do_nodes_Count [OF s2(1) ok1] have "ms_nodes s2 = ms_nodes s1" "c = int (card (active_rivals now i (ms_nodes s)))"
    using matching_active [OF ok1] riv by auto
  moreover have "finite (active_rivals now i (ms_nodes s))"
    using finite_nodes [OF ok1, of "active_filter now i"] matching_active [OF ok1] riv by simp
  ultimately show ?thesis using s1 s2 assms(3) v1 by (simp add: AtomicClaimLeadership_def calm_def card_gt_0_iff)
qed

lemma becomeLeader_fails:
  assumes "mu r = Free" and "\<not> ra_electionTimeout r < millis 1" and "ra_state r = Candidate"
    and "storage_up e" and "t0 \<le> now" and "active_rivals now (ra_nodeID r) (ms_nodes e) \<noteq> {}"
    and "becomeLeader t0 now rs (r, e) = Returns (u, (r', e'))"
  shows "ra_state r' = Follower \<and> ra_nodeID r' = ra_nodeID r \<and> storage_up e' \<and> calm t0 (ms_nodes e) (ms_nodes e')"
proof -
  note up1 = nodes_of_up(2,3) [OF assms(4), of now]
  note up2 = nodes_of_up(2,3) [OF up1(1), of now]
  note up3 = nodes_of_up(2,3) [OF up2(1), of now]
  from claim_fails [OF up2(1) assms(5), of "ra_nodeID r" "ra_currentTerm r"] assms(6)
  obtain e3 where claim: "AtomicClaimLeadership t0 now (ra_nodeID r) (ra_currentTerm r) (snd (GetNodes now (snd (GetNodes now e)))) = (Inr False, e3)"
    "storage_up e3" "calm t0 (ms_nodes e) (ms_nodes e3)" by (auto simp: up1 up2)
  then have "\<not> may_lead t0 now r e" by (simp add: may_lead_def)
  with run_becomeLeader [OF assms(1-3), of t0 now rs e] assms(7)
  have "ra_state r' = Follower" "ra_nodeID r' = ra_nodeID r" "e' \<in> lost_storages t0 now r e" by auto
  then show ?thesis
    using claim nodes_of_up(2,3) [OF claim(2), of now] up2 up3 up1 by (auto simp: lost_storages_def Let_def calm_def)
qed

section \<open>A node that does not lead\<close>

definition stands_by :: "gtime \<Rightarrow> RaftElection \<times> 'd MongoStorage \<Rightarrow> RaftElection \<times> 'd MongoStorage \<Rightarrow> bool" where
  "stands_by t0 = (\<lambda>(r, e) (r', e'). ra_state r' \<noteq> Leader \<and> ra_nodeID r' = ra_nodeID r
     \<and> storage_up e' \<and> calm t0 (ms_nodes e) (ms_nodes e'))"

lemma calm_refl [simp]: "calm t0 v v"
  by (simp add: calm_def)

lemma stands_by_I:
  "ra_state r' \<noteq> Leader \<Longrightarrow> ra_nodeID r' = ra_nodeID r \<Longrightarrow> storage_up e' \<Longrightarrow> ms_nodes e' = ms_nodes e \<Longrightarrow> stands_by t0 (r, e) (r', e')"
  by (simp add: stands_by_def)

lemma follower_tick_quiet:
  assumes "follower_tick now rs (r, e) = Returns (u, (r', e'))" and "mu r = Free" and "millis 1 \<le> ra_electionTimeout r"
    and "storage_up e"
  shows "ra_state r' = ra_state r \<and> ra_nodeID r' = ra_nodeID r \<and> storage_up e' \<and> ms_nodes e' = ms_nodes e"
proof -
  obtain b r1 where 1: "receiveHeartbeat now (r, e) = Returns (b, (r1, snd (GetNodes now e)))"
    and "mu r1 = Free" "ra_state r1 = ra_state r" "ra_nodeID r1 = ra_nodeID r" "ra_electionTimeout r1 = ra_electionTimeout r"
    using run_receiveHeartbeat [OF assms(2), of now e] by blast
  with assms(1-3) nodes_of_up(2,3) [OF assms(4), of now] show ?thesis
    by (cases b) (auto simp: follower_tick_def prog_simps)
qed

lemma candidate_stands_by:
  assumes "mu r = Free" and "millis 1 \<le> ra_electionTimeout r" and "ra_state r = Candidate" and "storage_up e"
    and "t0 \<le> now" and "active_rivals now (ra_nodeID r) (ms_nodes e) \<noteq> {}"
  shows "candidate_tick t0 now rs (r, e) = Returns (left, (r', e')) \<Longrightarrow> stands_by t0 (r, e) (r', e')"
    and "candidate_final t0 now rs (r, e) = Returns (u, (r', e')) \<Longrightarrow> stands_by t0 (r, e) (r', e')"
proof -
  have to: "\<not> ra_electionTimeout r < millis 1" using assms(2) by simp
  note up = nodes_of_up(2,3) [OF assms(4), of now]
  have lost: "stands_by t0 (r, e) (r2, e2)" if "becomeLeader t0 now rs (r, snd (GetNodes now e)) = Returns (v, (r2, e2))" for v r2 e2
    using becomeLeader_fails [OF assms(1) to assms(3) up(1) assms(5) _ that] assms(6) up(2) by (simp add: stands_by_def)
  show "stands_by t0 (r, e) (r', e')" if "candidate_tick t0 now rs (r, e) = Returns (left, (r', e'))"
  proof (cases "majority_of now (length (ra_votes r)) e")
    case True
    obtain v r2 e2 where b: "becomeLeader t0 now rs (r, snd (GetNodes now e)) = Returns (v, (r2, e2))"
      using run_becomeLeader [OF assms(1) to assms(3), of t0 now rs "snd (GetNodes now e)"] by blast
    with that True assms(1,3) have "r' = r2 \<and> e' = e2" by (auto simp: candidate_tick_def prog_simps)
    with lost [OF b] show ?thesis by simp
  next
    case False
    with that assms up show ?thesis by (auto simp: candidate_tick_def prog_simps intro!: stands_by_I)
  qed
  show "stands_by t0 (r, e) (r', e')" if "candidate_final t0 now rs (r, e) = Returns (u, (r', e'))"
  proof (cases "majority_of now (length (ra_votes r)) e")
    case True
    with that assms(1) have "becomeLeader t0 now rs (r, snd (GetNodes now e)) = Returns (u, (r', e'))"
      by (simp add: candidate_final_def prog_simps)
    then show ?thesis by (rule lost)
  next
    case False
    with that assms(1,3) to show ?thesis by (simp add: candidate_final_def prog_simps becomeFollower_blocks)
  qed
qed

lemma bystander_step:
  assumes "raft_react ev (t0, now, rs) (pc, r, e) = Returns (pc', r', e')" and "raft_inv (pc, r, e)"
    and "ra_state r \<noteq> Leader" and "storage_up e" and "t0 \<le> now" and "active_rivals now (ra_nodeID r) (ms_nodes e) \<noteq> {}"
  shows "stands_by t0 (r, e) (r', e')"
proof -
  have free: "mu r = Free" "millis 1 \<le> ra_electionTimeout r" using assms(2) by (simp_all add: raft_inv_iff)
  then have to: "\<not> ra_electionTimeout r < millis 1" by simp
  have same: "stands_by t0 (r, e) (r, e)" using assms(3,4) by (simp add: stands_by_I)
  consider (vote) voter response where "ev = VoteAnswer voter response" | (beat) "ev = HeartbeatDue"
    | (loop) "\<forall>voter response. ev \<noteq> VoteAnswer voter response" "ev \<noteq> HeartbeatDue" by blast
  then show ?thesis
  proof cases
    case vote
    with assms(1) have "handleVoteResponse rs voter response (r, e) = Returns ((), (r', e'))" by (auto simp: react_with_Returns)
    from run_vote [OF this free(1)] assms(3,4) show ?thesis by (auto intro!: stands_by_I)
  next
    case beat
    with assms(1,3) free same show ?thesis by (auto simp: react_with_Returns sendHeartbeats_def prog_simps)
  next
    case loop
    show ?thesis
    proof (cases pc)
      case AtLoop
      with loop assms(1,3,4) free to same show ?thesis
        by (cases ev; cases "ra_state r")
          (auto simp: run_round_def react_with_Returns candidate_start_def prog_simps intro!: stands_by_I)
    next
      case InFollower
      with loop assms(1,3,4) free to same show ?thesis
        by (cases ev) (auto simp: react_with_Returns follower_timeout_def run_becomeCandidate prog_simps
            split: if_splits intro!: stands_by_I dest!: follower_tick_quiet)
    next
      case InCandidate
      with assms(2) have c: "ra_state r = Candidate" by (simp add: raft_inv_iff)
      note lost = candidate_stands_by [where rs = rs and r' = r' and e' = e', OF free c assms(4-6)]
      from loop InCandidate assms(1) free same c show ?thesis
        by (cases ev) (auto simp: react_with_Returns run_becomeCandidate intro: lost)
    next
      case (InLeader n)
      have "r' = r \<and> e' = e" if "leader_check now n (r, e) = Returns (x, (r', e'))" for x
        using that free assms(3) by (auto simp: leader_check_def validateLeadershipContinuity_def Let_def prog_simps split: if_splits)
      with loop InLeader assms(1) same show ?thesis
        by (cases ev) (auto simp: react_with_Returns)
    qed
  qed
qed

section \<open>The leader\<close>

text \<open>The documents show \<open>h\<close> as leader of the term, last seen at \<open>seen\<close>; no document is of a
  higher term, and no other shows a leader of this term.\<close>

definition leads_alone :: "string \<Rightarrow> int \<Rightarrow> gtime \<Rightarrow> (string \<rightharpoonup> NodeInfo) \<Rightarrow> bool" where
  "leads_alone h tm seen v \<longleftrightarrow> (\<exists>n. v h = Some n \<and> ni_IsLeader n \<and> ni_Term n = tm \<and> ni_LastSeen n = bson_ms seen)
     \<and> (\<forall>k n. v k = Some n \<longrightarrow> ni_Term n \<le> tm \<and> (k \<noteq> h \<longrightarrow> ni_IsLeader n \<longrightarrow> ni_Term n \<noteq> tm))"

lemma leads_alone_calm:
  assumes "leads_alone h tm seen v" and "calm t0 v v'" and "t0 \<le> seen + seconds 3"
  shows "leads_alone h tm seen v'"
proof -
  have "(t0 - seconds 10) div 1000000 \<le> seen div 1000000" using assms(3) by (intro zdiv_mono1) auto
  then have live: "\<not> matches (node_field n) (stale_filter t0)" if "ni_LastSeen n = bson_ms seen" for n
    using that by (simp add: stale_filter_def btime_def bson_ms_def)
  let ?v = "update_many (stale_filter t0) unclaim_set v"
  from assms(1) obtain n where n: "v h = Some n" "ni_IsLeader n" "ni_Term n = tm" "ni_LastSeen n = bson_ms seen"
    and others: "\<And>k n. v k = Some n \<Longrightarrow> ni_Term n \<le> tm \<and> (k \<noteq> h \<longrightarrow> ni_IsLeader n \<longrightarrow> ni_Term n \<noteq> tm)"
    unfolding leads_alone_def by blast
  have "?v h = Some n" using n(1) live [OF n(4)] by (simp add: update_many_def)
  moreover have "\<exists>m. v k = Some m \<and> ni_Term m = ni_Term m' \<and> (ni_IsLeader m' \<longrightarrow> ni_IsLeader m)" if "?v k = Some m'" for k m'
    using that by (cases "v k") (auto simp: update_many_def unclaim_set_def split: if_splits)
  ultimately have "leads_alone h tm seen ?v" unfolding leads_alone_def using n others by metis
  with assms(1,2) show ?thesis by (auto simp: calm_def)
qed

lemma leads_alone_rival:
  assumes "leads_alone h tm seen v" and "i \<noteq> h" and "now \<le> seen + seconds 3"
  shows "active_rivals now i v \<noteq> {}"
proof -
  have "(now - seconds 3) div 1000000 \<le> seen div 1000000" using assms(3) by (intro zdiv_mono1) auto
  with assms(1,2) show ?thesis by (auto simp: leads_alone_def active_rivals_def bson_ms_def)
qed

lemma scan_clear:
  "\<forall>n\<in>set ns. ni_Term n \<le> tm \<and> \<not> (ni_IsLeader n \<and> ni_Term n = tm \<and> ni_ID n \<noteq> h) \<Longrightarrow> scan_heartbeat tm h ns = NoConflict"
  by (induction ns) auto

lemma scan_continuity:
  "\<forall>n\<in>set ns. ni_Term n \<le> tm \<and> \<not> (ni_IsLeader n \<and> ni_Term n = tm \<and> ni_ID n \<noteq> h) \<Longrightarrow>
   continuity_scan now tm h k ns \<longleftrightarrow> k \<noteq> 0
     \<or> (\<exists>n\<in>set ns. ni_IsLeader n \<and> ni_Term n = tm \<and> time_Sub now (ni_LastSeen n) < seconds 3)"
  by (induction ns arbitrary: k) auto

lemma listed_alone:
  assumes "storage_up e" and "leads_alone h tm seen (ms_nodes e)"
  obtains ns where "nodes_of now e = Some ns" "set ns = recent_nodes now (ms_nodes e)"
    "\<forall>n\<in>set ns. ni_Term n \<le> tm \<and> \<not> (ni_IsLeader n \<and> ni_Term n = tm \<and> ni_ID n \<noteq> h)"
proof -
  obtain ns where ns: "nodes_of now e = Some ns" "set ns = recent_nodes now (ms_nodes e)"
    using nodes_of_up(1) [OF assms(1), of now] by blast
  moreover have "\<forall>n\<in>set ns. ni_Term n \<le> tm \<and> \<not> (ni_IsLeader n \<and> ni_Term n = tm \<and> ni_ID n \<noteq> h)"
    unfolding ns(2) recent_nodes_def using assms(2) by (auto simp: leads_alone_def)
  ultimately show ?thesis by (rule that)
qed

lemma leader_is_valid:
  assumes "ra_state r = Leader" and "ra_nodeID r = h" and "ra_currentTerm r = tm"
    and "storage_up e" and "leads_alone h tm seen (ms_nodes e)" and "now \<le> seen + seconds 3 - millis 1"
  shows "leadership_valid now r e"
proof -
  from listed_alone [OF assms(4,5)] obtain ns where ns: "nodes_of now e = Some ns" "set ns = recent_nodes now (ms_nodes e)"
    "\<forall>n\<in>set ns. ni_Term n \<le> tm \<and> \<not> (ni_IsLeader n \<and> ni_Term n = tm \<and> ni_ID n \<noteq> h)" .
  from assms(5) obtain n where n: "ms_nodes e h = Some n" "ni_IsLeader n" "ni_Term n = tm" "ni_LastSeen n = bson_ms seen"
    by (auto simp: leads_alone_def)
  have "ni_ID n = h" by (rule nodes_key [OF storage_up_ok [OF assms(4)] n(1)])
  moreover have "(now - seconds 300) div 1000000 \<le> seen div 1000000" using assms(6) by (intro zdiv_mono1) simp_all
  ultimately have "n \<in> set ns" using n ns(2) by (simp add: recent_nodes_def bson_ms_def)
  moreover have "time_Sub now (ni_LastSeen n) < seconds 3"
    using assms(6) bson_ms_gt [of seen] by (simp add: time_Sub_less n(4))
  ultimately have "continuity_scan now tm h 0 ns" using scan_continuity [OF ns(3)] n by auto
  with ns(1) assms(1-3) show ?thesis by (simp add: leadership_valid_def)
qed

lemma leader_beats:
  assumes "mu r = Free" and "ra_state r = Leader" and "ra_nodeID r = h" and "ra_currentTerm r = tm"
    and "storage_up e" and "leads_alone h tm seen (ms_nodes e)"
  shows "\<exists>sent e'. sendHeartbeats now (r, e) = Returns (sent, (r, e')) \<and> storage_up e' \<and> leads_alone h tm now (ms_nodes e')"
proof -
  have id: "ni_ID (own_registration r True) = h" using assms(3) by (simp add: own_registration_def)
  from RegisterNode_spec [OF assms(5), of now "own_registration r True"] obtain e1
    where e1: "RegisterNode now (own_registration r True) e = (None, e1)" "storage_up e1"
      "ms_nodes e1 = (ms_nodes e)(h \<mapsto> registered now (own_registration r True) (ms_nodes e h))" unfolding id by blast
  have alone: "leads_alone h tm now (ms_nodes e1)"
    using assms(3,6) unfolding e1(3) by (auto simp: leads_alone_def registered_def own_registration_def)
  from listed_alone [OF e1(2) alone, of now] obtain ns where ns: "nodes_of now e1 = Some ns" "scan_heartbeat tm h ns = NoConflict"
    using scan_clear by metis
  have "\<exists>sent. sendHeartbeats now (r, e) = Returns (sent, (r, snd (GetNodes now e1)))"
    using assms(1-4) e1(1) ns by (simp add: sendHeartbeats_def prog_simps)
  with nodes_of_up(2,3) [OF e1(2), of now] alone show ?thesis by auto
qed

text \<open>No event takes the lead away from the leader, as long as it was seen less than three seconds ago.\<close>

lemma leader_step:
  assumes "raft_inv (pc, r, e)" and "ra_state r = Leader" and "ra_nodeID r = h" and "ra_currentTerm r = tm"
    and "storage_up e" and "leads_alone h tm seen (ms_nodes e)" and "now \<le> seen + seconds 3 - millis 1"
  shows "\<exists>pc' r' e'. raft_react ev (t0, now, rs) (pc, r, e) = Returns (pc', r', e') \<and> ra_state r' = Leader
    \<and> ra_nodeID r' = h \<and> ra_currentTerm r' = tm \<and> storage_up e'
    \<and> leads_alone h tm (if ev = HeartbeatDue then now else seen) (ms_nodes e')"
proof -
  have free: "mu r = Free" and pc: "pc = AtLoop \<or> (\<exists>n. pc = InLeader n)" using assms(1,2) by (simp_all add: raft_inv_iff)
  consider (vote) voter response where "ev = VoteAnswer voter response" | (beat) "ev = HeartbeatDue"
    | (validate) n where "ev = ValidateTick" "pc = InLeader n" | (round) "ev = NextRound" "pc = AtLoop"
    | (none) "\<forall>voter response. ev \<noteq> VoteAnswer voter response" "ev \<noteq> HeartbeatDue"
        "\<not> (ev = ValidateTick \<and> (\<exists>n. pc = InLeader n))" "\<not> (ev = NextRound \<and> pc = AtLoop)" by blast
  then show ?thesis
  proof cases
    case vote
    with assms free show ?thesis by (simp add: react_with_def vote_counts_exactly_when)
  next
    case beat
    with leader_beats [OF free assms(2-6), of now] assms show ?thesis by (auto simp: react_with_def)
  next
    case validate
    obtain e' where "validateLeadershipContinuity now (r, e) = Returns (True, (r, e'))" "storage_up e'" "ms_nodes e' = ms_nodes e"
      using leader_is_valid [OF assms(2-7)] nodes_of_up(2,3) [OF assms(5), of now] free assms(2,5)
      by (cases "time_Sub now (ra_leadershipStartTime r) < seconds 2")
        (auto simp: validateLeadershipContinuity_def leadership_valid_def prog_simps split: option.splits)
    with validate assms show ?thesis by (auto simp: react_with_def leader_check_def prog_simps)
  next
    case round
    with assms free show ?thesis by (simp add: run_round_def react_with_def leader_start_def prog_simps)
  next
    case none
    with pc assms show ?thesis by (cases ev) auto
  qed
qed

text \<open>A candidate that wins against documents of lower terms leads alone from then on.\<close>

lemma winner_leads_alone:
  assumes "mu r = Free" and "\<not> ra_electionTimeout r < millis 1" and "ra_state r = Candidate" and "storage_up e" and "t0 \<le> now"
    and "\<forall>n. ms_nodes e (ra_nodeID r) = Some n \<longrightarrow> ni_LastSeen n \<noteq> bson_ms now"
    and "\<forall>k n. ms_nodes e k = Some n \<longrightarrow> ni_Term n < ra_currentTerm r"
    and "becomeLeader t0 now rs (r, e) = Returns (u, (r', e'))" and "ra_state r' = Leader"
  shows "ra_nodeID r' = ra_nodeID r \<and> ra_currentTerm r' = ra_currentTerm r \<and> storage_up e'
    \<and> leads_alone (ra_nodeID r) (ra_currentTerm r) now (ms_nodes e')"
proof -
  let ?i = "ra_nodeID r" and ?tm = "ra_currentTerm r" and ?v = "ms_nodes e" and ?e2 = "snd (GetNodes now (snd (GetNodes now e)))"
  note up1 = nodes_of_up(2,3) [OF assms(4), of now]
  note up2 = nodes_of_up(2,3) [OF up1(1), of now]
  from run_becomeLeader [OF assms(1-3), of t0 now rs e] assms(8,9)
  have won: "may_lead t0 now r e" "ra_nodeID r' = ?i" "ra_currentTerm r' = ?tm" "e' = won_storage t0 now r e"
    by (auto split: if_splits)
  let ?e3 = "snd (AtomicClaimLeadership t0 now ?i ?tm ?e2)"
  have "\<forall>n. ms_nodes ?e2 ?i = Some n \<longrightarrow> ni_LastSeen n \<noteq> bson_ms now" using assms(6) by (simp add: up1 up2)
  from AtomicClaimLeadership_spec [OF up2(1) assms(5) this, of ?tm] won(1)
  obtain n where e3: "storage_up ?e3" "ms_nodes ?e3 ?i = Some n" "ni_Term n = ?tm"
    "\<And>k. k \<noteq> ?i \<Longrightarrow> ms_nodes ?e3 k = update_many (stale_filter t0) unclaim_set ?v k"
    by (auto simp: may_lead_def up1 up2 claimed_now_def)
  note up4 = nodes_of_up(2,3) [OF e3(1), of now]
  have id: "ni_ID (own_registration r True) = ?i" by (simp add: own_registration_def)
  let ?own = "registered now (own_registration r True) (Some n)"
  from RegisterNode_spec [OF up4(1), of now "own_registration r True"] won(4)
  have e': "storage_up e'" "ms_nodes e' = (ms_nodes ?e3)(?i \<mapsto> registered now (own_registration r True) (Some n))"
    by (auto simp: won_storage_def up4(2) e3(2) id)
  have lower: "ni_Term m < ?tm" if "k \<noteq> ?i" "ms_nodes e' k = Some m" for k m
    using that e' e3(4) [OF that(1)] assms(7) by (cases "?v k") (auto simp: update_many_def unclaim_set_def split: if_splits)
  have low: "ni_Term m \<le> ?tm \<and> (k \<noteq> ?i \<longrightarrow> ni_IsLeader m \<longrightarrow> ni_Term m \<noteq> ?tm)" if "ms_nodes e' k = Some m" for k m
  proof (cases "k = ?i")
    case True
    with that e'(2) e3(3) show ?thesis by (auto simp: registered_def)
  next
    case False
    from lower [OF this that] show ?thesis by simp
  qed
  have "ms_nodes e' ?i = Some ?own" "ni_Term ?own = ?tm" "ni_IsLeader ?own" "ni_LastSeen ?own = bson_ms now"
    using e'(2) e3(3) by (simp_all add: registered_def own_registration_def)
  with low have "leads_alone ?i ?tm now (ms_nodes e')" unfolding leads_alone_def by blast
  with won e'(1) show ?thesis by simp
qed

section \<open>The cluster\<close>

text \<open>The nodes by their identifiers, and the storage. A node whose event blocks or panics takes no
  further part.\<close>

type_synonym 'd raft_cluster = "(string \<rightharpoonup> raft_pc \<times> RaftElection) \<times> 'd MongoStorage"

definition raft_turn :: "string \<times> raft_event \<times> readings \<Rightarrow> 'd raft_cluster \<Rightarrow> 'd raft_cluster" where
  "raft_turn = (\<lambda>(i, ev, rd) (ns, s). case ns i of
       None \<Rightarrow> (ns, s)
     | Some (pc, r) \<Rightarrow> (case raft_react ev rd (pc, r, s) of
         Returns (pc', r', s') \<Rightarrow> (ns(i \<mapsto> (pc', r')), s')
       | _ \<Rightarrow> (ns(i := None), s)))"

fun raft_turns :: "(string \<times> raft_event \<times> readings) list \<Rightarrow> 'd raft_cluster \<Rightarrow> 'd raft_cluster" where
  "raft_turns [] c = c"
| "raft_turns (t # ts) c = raft_turns ts (raft_turn t c)"

text \<open>Every event comes less than three seconds after the last heartbeat of \<open>h\<close>.\<close>

fun timely :: "string \<Rightarrow> gtime \<Rightarrow> (string \<times> raft_event \<times> readings) list \<Rightarrow> bool" where
  "timely h seen [] \<longleftrightarrow> True"
| "timely h seen ((i, ev, t0, now, rs) # ts) \<longleftrightarrow> t0 \<le> now \<and> seen \<le> now \<and> now \<le> seen + seconds 3 - millis 1
     \<and> timely h (if i = h \<and> ev = HeartbeatDue then now else seen) ts"

definition led :: "string \<Rightarrow> int \<Rightarrow> gtime \<Rightarrow> 'd raft_cluster \<Rightarrow> bool" where
  "led h tm seen = (\<lambda>(ns, s). storage_up s \<and> leads_alone h tm seen (ms_nodes s) \<and> h \<in> dom ns
     \<and> (\<forall>i pc r. ns i = Some (pc, r) \<longrightarrow> ra_nodeID r = i \<and> raft_inv (pc, r, s) \<and> (ra_state r = Leader \<longleftrightarrow> i = h)
           \<and> (i = h \<longrightarrow> ra_currentTerm r = tm)))"

lemma raft_inv_storage: "raft_inv (pc, r, e) \<Longrightarrow> raft_inv (pc, r, e')"
  by (simp add: raft_inv_iff)

lemma led_turn:
  assumes "led h tm seen c" and "t0 \<le> now" and "now \<le> seen + seconds 3 - millis 1"
  shows "led h tm (if i = h \<and> ev = HeartbeatDue then now else seen) (raft_turn (i, ev, t0, now, rs) c)"
proof -
  obtain ns s where c: "c = (ns, s)" by fastforce
  note L = assms(1) [unfolded c led_def prod.case]
  show ?thesis
  proof (cases "ns i")
    case None
    then have "i \<noteq> h" using L by auto
    with None assms(1) show ?thesis by (simp add: c raft_turn_def)
  next
    case (Some p)
    then obtain pc r where p: "ns i = Some (pc, r)" by (cases p) auto
    with L have node: "ra_nodeID r = i" "raft_inv (pc, r, s)" "ra_state r = Leader \<longleftrightarrow> i = h" "i = h \<longrightarrow> ra_currentTerm r = tm" by blast+
    have free: "mu r = Free" using node(2) by (simp add: raft_inv_iff)
    show ?thesis
    proof (cases "i = h")
      case True
      from leader_step [OF node(2), of h tm seen now ev t0 rs] node L assms(3) True
      obtain pc' r' s' where r: "raft_react ev (t0, now, rs) (pc, r, s) = Returns (pc', r', s')" "ra_state r' = Leader"
        "ra_nodeID r' = h" "ra_currentTerm r' = tm" "storage_up s'"
        "leads_alone h tm (if ev = HeartbeatDue then now else seen) (ms_nodes s')" by auto
      have "raft_inv (pc', r', s')" by (rule raft_inv_step [OF raft_react_step [OF r(1) free] node(2)])
      with r L True p show ?thesis by (auto simp: c raft_turn_def led_def intro: raft_inv_storage)
    next
      case False
      show ?thesis
      proof (cases "raft_react ev (t0, now, rs) (pc, r, s)")
        case (Returns x)
        obtain pc' r' s' where x: "x = (pc', r', s')" by (cases x)
        note r = Returns [unfolded x]
        have riv: "active_rivals now (ra_nodeID r) (ms_nodes s) \<noteq> {}"
          using leads_alone_rival [of h tm seen "ms_nodes s" i now] L assms(3) False node(1) by auto
        from bystander_step [OF r node(2) _ _ assms(2) riv] node False L
        have s: "ra_state r' \<noteq> Leader" "ra_nodeID r' = i" "storage_up s'" "calm t0 (ms_nodes s) (ms_nodes s')"
          by (auto simp: stands_by_def)
        have "leads_alone h tm seen (ms_nodes s')"
          using leads_alone_calm [OF _ s(4)] L assms(2,3) by auto
        moreover have "raft_inv (pc', r', s')" by (rule raft_inv_step [OF raft_react_step [OF r free] node(2)])
        ultimately show ?thesis using r s L p False by (auto simp: c raft_turn_def led_def intro: raft_inv_storage)
      qed (use L p False in \<open>auto simp: c raft_turn_def led_def\<close>)
    qed
  qed
qed

lemma led_turns:
  "led h tm seen c \<Longrightarrow> timely h seen ts \<Longrightarrow> \<exists>seen'. led h tm seen' (raft_turns ts c)"
proof (induction ts arbitrary: seen c)
  case (Cons t ts)
  obtain i ev t0 now rs where t: "t = (i, ev, t0, now, rs)" by (metis prod_cases5)
  have times: "t0 \<le> now" "now \<le> seen + seconds 3 - millis 1" "timely h (if i = h \<and> ev = HeartbeatDue then now else seen) ts"
    using Cons.prems(2) t by simp_all
  from Cons.IH [OF led_turn [OF Cons.prems(1) times(1,2)] times(3)] show ?case by (simp add: t)
qed auto


definition sample_candidate :: "string \<Rightarrow> raft_pc \<times> RaftElection" where
  "sample_candidate i = (InCandidate, (NewRaftElection 0 i (seconds 1) (seconds 1))
     \<lparr>ra_state := Candidate, ra_currentTerm := 1, ra_votedFor := i, ra_votes := [i]\<rparr>)"


end
