(* ===== verification/Fleet.thy ===== *)
theory Fleet
  imports Pool
begin

text \<open>
  Several workers on one queue and one storage: the workers of one node run as goroutines, and every
  node has its own. Here a worker of \<open>internal/worker/pool.go\<close> proceeds one call of Redis or
  MongoDB at a time, and between two calls of one worker any others may make theirs. Undisturbed, the
  steps of a worker are \<open>processJob\<close>. In any order of steps no job is lost; and as long as
  only one worker at a time releases delayed jobs, every job is in one place only.
\<close>

section \<open>A worker, one call at a time\<close>

text \<open>What is to be done with a job that has been processed.\<close>

datatype verdict = Finish | GiveUp | TryAgain duration

text \<open>Where a worker is in \<open>processJob\<close>: what it has read so far, and so its next call.
  In \<open>Decided v j k\<close> the job is stored at the \<open>k\<close>-th reading of the clock.\<close>

datatype phase =
    Idle
  | Asked "json list"
  | Released
  | Taken job
  | Ready job
  | Decided verdict job nat
  | Removing verdict job
  | Placing verdict job
  | Done
  | Crashed

definition decide :: "PoolConfig \<Rightarrow> (nat \<Rightarrow> gtime) \<Rightarrow> job \<Rightarrow> phase" where
  "decide c clk j = (case registry_Get (pc_registry c) (j_Type j) of
       None \<Rightarrow> Decided GiveUp (j\<lparr>j_Status := StatusFailed,
         j_Error := ''No processor found for job type: '' @ j_Type j, j_UpdatedAt := clk 3\<rparr>) 4
     | Some p \<Rightarrow> (case p_Process p j of
         (Some err, j3) \<Rightarrow>
           (let j1 = j3\<lparr>j_Error := Error err, j_RetryCount := int64 (j_RetryCount j3 + 1), j_UpdatedAt := clk 3\<rparr>
            in if j_RetryCount j1 < j_MaxRetries j1
               then Decided (TryAgain (pc_delay c (j_RetryCount j1))) (j1\<lparr>j_Status := StatusRetrying\<rparr>) 4
               else Decided GiveUp (j1\<lparr>j_Status := StatusFailed, j_Error := Error err, j_UpdatedAt := clk 4\<rparr>) 5)
       | (None, j3) \<Rightarrow> Decided Finish
           (j3\<lparr>j_Status := StatusCompleted, j_CompletedAt := Some (clk 3), j_UpdatedAt := clk 3\<rparr>) 4))"

text \<open>After the last call: logging the duration of a completed job panics without its start.\<close>

definition leave :: "verdict \<Rightarrow> job \<Rightarrow> Worker \<Rightarrow> Worker \<times> phase" where
  "leave v j w = (if v = Finish \<and> j_StartedAt j = None then (w, Crashed) else (w\<lparr>w_isActive := False\<rparr>, Done))"

definition place :: "(nat \<Rightarrow> gtime) \<Rightarrow> verdict \<Rightarrow> job \<Rightarrow> 'r RedisQueue \<Rightarrow> 'r RedisQueue" where
  "place clk v j q = (case v of
       Finish \<Rightarrow> (case marshal_job j of Inl _ \<Rightarrow> q | Inr data \<Rightarrow> snd (redis_do (\<lambda>c. c_LPush c CompletedQueue data) q))
     | GiveUp \<Rightarrow> (case marshal_job j of Inl _ \<Rightarrow> q | Inr data \<Rightarrow> snd (redis_do (\<lambda>c. c_LPush c FailedQueue data) q))
     | TryAgain d \<Rightarrow> snd (Push (clk 6) (j\<lparr>j_ScheduledAt := clk 5 + d\<rparr>) q))"

fun worker_step ::
  "PoolConfig \<Rightarrow> (nat \<Rightarrow> gtime) \<Rightarrow> (Worker \<times> phase) \<times> ('r, 'd) PoolState \<Rightarrow> (Worker \<times> phase) \<times> ('r, 'd) PoolState" where
  "worker_step c clk ((w, Idle), st) = (case moveDelayed_query (clk 0) (po_queue st) of
       (Inl err, q) \<Rightarrow> ((w, Released), st\<lparr>po_queue := q\<rparr>)
     | (Inr jobs, q) \<Rightarrow> ((w, if jobs = [] then Released else Asked jobs), st\<lparr>po_queue := q\<rparr>))"
| "worker_step c clk ((w, Asked jobs), st) = ((w, Released), st\<lparr>po_queue := moveDelayed_exec jobs (po_queue st)\<rparr>)"
| "worker_step c clk ((w, Released), st) = (case redis_do (\<lambda>c. c_BRPop c JobQueue) (po_queue st) of
       (Inl err, q) \<Rightarrow> ((w, Done), st\<lparr>po_queue := q\<rparr>)
     | (Inr data, q) \<Rightarrow> (case unmarshal_job data of
           Inl err \<Rightarrow> ((w, Done), st\<lparr>po_queue := q\<rparr>)
         | Inr j \<Rightarrow> ((w, Taken j), st\<lparr>po_queue := q\<rparr>)))"
| "worker_step c clk ((w, Taken j), st) =
     (let w1 = w\<lparr>w_isActive := True, w_jobCount := int64 (w_jobCount w + 1)\<rparr>
      in ((w1, Ready (start_job (clk 1) w1 j)), st\<lparr>po_queue := snd (moveToProcessing j (po_queue st))\<rparr>))"
| "worker_step c clk ((w, Ready j), st) =
     (let (j2, st2) = pool_update (clk 2) j st in ((w, decide c clk j2), st2))"
| "worker_step c clk ((w, Decided v j k), st) =
     (let (j2, st2) = pool_update (clk k) j st in ((w, Removing v j2), st2))"
| "worker_step c clk ((w, Removing v j), st) = (case removeFromProcessing j (po_queue st) of
       (Some err, q) \<Rightarrow> (leave v j w, st\<lparr>po_queue := q\<rparr>)
     | (None, q) \<Rightarrow> ((w, Placing v j), st\<lparr>po_queue := q\<rparr>))"
| "worker_step c clk ((w, Placing v j), st) = (leave v j w, st\<lparr>po_queue := place clk v j (po_queue st)\<rparr>)"
| "worker_step c clk ((w, Done), st) = ((w, Done), st)"
| "worker_step c clk ((w, Crashed), st) = ((w, Crashed), st)"

section \<open>Undisturbed, the steps are \<open>processJob\<close>\<close>

definition steps :: "nat \<Rightarrow> PoolConfig \<Rightarrow> (nat \<Rightarrow> gtime) \<Rightarrow> (Worker \<times> phase) \<times> ('r, 'd) PoolState \<Rightarrow> (Worker \<times> phase) \<times> ('r, 'd) PoolState" where
  "steps n c clk = worker_step c clk ^^ n"

lemma steps_simps [simp]:
  "steps 0 c clk x = x" "steps (Suc n) c clk x = steps n c clk (worker_step c clk x)"
  "steps n c clk ((w, Done), st) = ((w, Done), st)" "steps n c clk ((w, Crashed), st) = ((w, Crashed), st)"
proof -
  show 1: "steps 0 c clk x = x" "steps (Suc n) c clk x = steps n c clk (worker_step c clk x)" for n x
    by (simp_all add: steps_def funpow_swap1)
  show "steps n c clk ((w, Done), st) = ((w, Done), st)" "steps n c clk ((w, Crashed), st) = ((w, Crashed), st)"
    by (induction n) (simp_all add: 1)
qed

lemma steps_leave [simp]:
  "worker_step c clk (leave v j w, st) = (leave v j w, st)" "steps n c clk (leave v j w, st) = (leave v j w, st)"
  by (simp_all add: leave_def)

definition settle :: "(nat \<Rightarrow> gtime) \<Rightarrow> verdict \<Rightarrow> job \<Rightarrow> 'r RedisQueue \<Rightarrow> 'r RedisQueue" where
  "settle clk v j q = (case v of Finish \<Rightarrow> snd (Complete j q) | GiveUp \<Rightarrow> snd (Fail j q)
     | TryAgain d \<Rightarrow> snd (Retry (clk 5) (clk 6) j d q))"

lemma steps_Removing:
  assumes "2 \<le> n"
  shows "steps n c clk ((w, Removing v j), st) = (leave v j w, st\<lparr>po_queue := settle clk v j (po_queue st)\<rparr>)"
proof -
  obtain m where "n = Suc (Suc m)" using assms by (metis Suc_le_D numeral_2_eq_2 Suc_le_mono)
  then show ?thesis
    by (cases "removeFromProcessing j (po_queue st)")
      (auto simp: settle_def place_def Complete_def Fail_def Retry_def push_finished_def Let_def
        split: verdict.split option.split sum.split prod.split)
qed

lemma steps_Decided:
  assumes "3 \<le> n"
  shows "steps n c clk ((w, Decided v j k), st) = (let (j2, st2) = pool_update (clk k) j st
     in (leave v j2 w, st2\<lparr>po_queue := settle clk v j2 (po_queue st2)\<rparr>))"
  using assms by (cases n) (auto simp: steps_Removing split: prod.split)

definition agrees :: "(job \<times> ('r, 'd) PoolState) outcome \<Rightarrow> Worker \<Rightarrow> (Worker \<times> phase) \<times> ('r, 'd) PoolState \<Rightarrow> bool" where
  "agrees out w x \<longleftrightarrow> (case out of
       Returns (j', st') \<Rightarrow> x = ((w\<lparr>w_isActive := False\<rparr>, Done), st')
     | _ \<Rightarrow> snd (fst x) = Crashed)"

lemma shift_again:
  "shift (Suc 0) (shift 3 clk) = shift 4 clk" "shift (Suc 0) (shift 2 clk) = shift 3 clk" "shift 1 (shift 2 clk) = shift 3 clk"
  by (simp_all add: shift_def fun_eq_iff numeral_eq_Suc)

lemma steps_failure:
  assumes "3 \<le> n" and "clk k = clk' (Suc 0)"
  shows "agrees (Returns (handleJobFailure clk' j msg st)) w
    (steps n c clk ((w, Decided GiveUp (j\<lparr>j_Status := StatusFailed, j_Error := msg, j_UpdatedAt := clk' 0\<rparr>) k), st))"
  using assms by (simp add: steps_Decided handleJobFailure_def agrees_def settle_def leave_def split: prod.split)

lemma steps_success:
  assumes "3 \<le> n"
  shows "agrees (handleJobSuccess (shift 3 clk) j st) w (steps n c clk ((w, Decided Finish
     (j\<lparr>j_Status := StatusCompleted, j_CompletedAt := Some (clk 3), j_UpdatedAt := clk 3\<rparr>) 4), st))"
  using assms by (simp add: steps_Decided handleJobSuccess_def agrees_def settle_def leave_def shift_def Let_def split: prod.split)

lemma steps_retry:
  assumes "3 \<le> n" and "j_RetryCount j < j_MaxRetries j"
  shows "steps n c clk ((w, Decided (TryAgain d) (j\<lparr>j_Status := StatusRetrying\<rparr>) 4), st) =
    (let (j2, st2) = pool_update (clk 4) (j\<lparr>j_Status := StatusRetrying\<rparr>) st;
         ((e, j3), q') = Retry (clk 5) (clk 6) j2 d (po_queue st2)
     in ((w\<lparr>w_isActive := False\<rparr>, Done), st2\<lparr>po_queue := q'\<rparr>))"
  using assms by (simp add: steps_Decided settle_def leave_def Let_def split: prod.split)

lemma steps_error:
  assumes "3 \<le> n" and "p_Process p j = (Some err, j3)" and "registry_Get (pc_registry c) (j_Type j) = Some p"
  shows "agrees (Returns (handleJobError (pc_delay c) (shift 3 clk) j3 err st)) w (steps n c clk ((w, decide c clk j), st))"
proof -
  let ?j1 = "j3\<lparr>j_Error := Error err, j_RetryCount := int64 (j_RetryCount j3 + 1), j_UpdatedAt := clk 3\<rparr>"
  show ?thesis
  proof (cases "j_RetryCount ?j1 < j_MaxRetries ?j1")
    case True
    with assms show ?thesis
      by (simp add: decide_def Let_def steps_retry [where j = ?j1, simplified] handleJobError_def shift_def agrees_def split: prod.split)
  next
    case False
    then have "decide c clk j = Decided GiveUp (?j1\<lparr>j_Status := StatusFailed, j_Error := Error err, j_UpdatedAt := shift 4 clk 0\<rparr>) 5"
      using assms by (simp add: decide_def Let_def shift_def)
    moreover have "handleJobError (pc_delay c) (shift 3 clk) j3 err st = handleJobFailure (shift 4 clk) ?j1 (Error err) st"
      using False by (simp add: handleJobError_def Let_def shift_again) (simp add: shift_def)
    ultimately show ?thesis by (simp only:) (rule steps_failure [OF assms(1)], simp add: shift_def)
  qed
qed

lemma steps_decided:
  assumes "3 \<le> n"
  shows "agrees (case registry_Get (pc_registry c) (j_Type j) of
           None \<Rightarrow> Returns (handleJobFailure (shift 3 clk) j (''No processor found for job type: '' @ j_Type j) st)
         | Some p \<Rightarrow> (case p_Process p j of
                (Some err, j3) \<Rightarrow> Returns (handleJobError (pc_delay c) (shift 3 clk) j3 err st)
              | (None, j3) \<Rightarrow> handleJobSuccess (shift 3 clk) j3 st)) w (steps n c clk ((w, decide c clk j), st))"
proof (cases "registry_Get (pc_registry c) (j_Type j)")
  case None
  then show ?thesis using steps_failure [OF assms, of clk 4 "shift 3 clk"] by (simp add: decide_def shift_def)
next
  case (Some p)
  obtain r j3 where p: "p_Process p j = (r, j3)" by fastforce
  show ?thesis
  proof (cases r)
    case None
    with Some p steps_success [OF assms] show ?thesis by (simp add: decide_def)
  next
    case r: (Some err)
    with Some p steps_error [OF assms] show ?thesis by simp
  qed
qed

lemma steps_Ready:
  assumes "4 \<le> n"
  shows "agrees (run_job c (shift 2 clk) j st) w (steps n c clk ((w, Ready j), st))"
proof -
  obtain m where n: "n = Suc m" "3 \<le> m" using assms by (cases n) auto
  obtain j2 st2 where u: "pool_update (clk 2) j st = (j2, st2)" by fastforce
  have "shift 2 clk 0 = clk 2" by (simp add: shift_def)
  then show ?thesis using steps_decided [where clk = clk and c = c and j = j2 and st = st2 and w = w, OF n(2)]
    unfolding n(1) steps_simps(2) worker_step.simps run_job_def shift_again by (simp only: u Let_def prod.case)
qed


section \<open>The fleet\<close>

text \<open>A worker that is done starts over, as \<open>runWorker\<close> does. The scheduler says which worker
  makes its next call, and what it reads from the clock.\<close>

type_synonym ('r, 'd) fleet = "(Worker \<times> phase) list \<times> ('r, 'd) PoolState"

definition resumed :: "phase \<Rightarrow> phase" where
  "resumed ph = (if ph = Done then Idle else ph)"

definition fleet_step :: "PoolConfig \<Rightarrow> nat \<times> (nat \<Rightarrow> gtime) \<Rightarrow> ('r, 'd) fleet \<Rightarrow> ('r, 'd) fleet" where
  "fleet_step c = (\<lambda>(i, clk) (ws, st).
     if i < length ws
     then let (x, st') = worker_step c clk ((fst (ws ! i), resumed (snd (ws ! i))), st) in (ws[i := x], st')
     else (ws, st))"

fun fleet_run :: "PoolConfig \<Rightarrow> (nat \<times> (nat \<Rightarrow> gtime)) list \<Rightarrow> ('r, 'd) fleet \<Rightarrow> ('r, 'd) fleet" where
  "fleet_run c [] f = f"
| "fleet_run c (s # sched) f = fleet_run c sched (fleet_step c s f)"

section \<open>Where the jobs are\<close>

text \<open>The identifier of the job of an entry; the jobs of the queue, of a worker, and of all.\<close>

definition ident :: "json \<Rightarrow> ObjectID option" where
  "ident d = (case unmarshal_job d of Inl _ \<Rightarrow> None | Inr j \<Rightarrow> Some (j_ID j))"

definition queued :: "abs_queue \<Rightarrow> ObjectID option multiset" where
  "queued a = image_mset ident (mset (a_waiting a) + mset_set (dom (a_delayed a)) + mset (a_completed a) + mset (a_failed a))"

fun held :: "phase \<Rightarrow> ObjectID option multiset" where
  "held (Taken j) = {#Some (j_ID j)#}"
| "held (Ready j) = {#Some (j_ID j)#}"
| "held (Decided v j k) = {#Some (j_ID j)#}"
| "held (Removing v j) = {#Some (j_ID j)#}"
| "held (Placing v j) = {#Some (j_ID j)#}"
| "held ph = {#}"

definition places :: "('r, 'd) fleet \<Rightarrow> ObjectID option multiset" where
  "places = (\<lambda>(ws, st). queued (abs_q (po_queue st)) + (\<Sum>w\<leftarrow>ws. held (snd w)))"

text \<open>Jobs that can be written to the queue and read back, processors that leave them so and keep
  their identifier, and clock readings and delays within the years of JSON.\<close>

definition sound_job :: "job \<Rightarrow> bool" where
  "sound_job j \<longleftrightarrow> wf_job j \<and> times_ok j"

definition sound_entry :: "json \<Rightarrow> bool" where
  "sound_entry d \<longleftrightarrow> (\<exists>j. d = doc j \<and> sound_job j)"

definition sound_config :: "PoolConfig \<Rightarrow> bool" where
  "sound_config c \<longleftrightarrow> (\<forall>t p j. pc_registry c t = Some p \<longrightarrow> sound_job j
     \<longrightarrow> sound_job (snd (p_Process p j)) \<and> j_ID (snd (p_Process p j)) = j_ID j)"

definition sound_clock :: "PoolConfig \<Rightarrow> (nat \<Rightarrow> gtime) \<Rightarrow> bool" where
  "sound_clock c clk \<longleftrightarrow> (\<forall>n k. json_time_ok (clk n) \<and> json_time_ok (clk n + pc_delay c k))"

fun sound_phase :: "PoolConfig \<Rightarrow> phase \<Rightarrow> bool" where
  "sound_phase c (Asked ds) \<longleftrightarrow> (\<forall>d\<in>set ds. sound_entry d)"
| "sound_phase c (Taken j) \<longleftrightarrow> sound_job j"
| "sound_phase c (Ready j) \<longleftrightarrow> sound_job j"
| "sound_phase c (Decided v j k) \<longleftrightarrow> sound_job j \<and> (\<forall>d. v = TryAgain d \<longrightarrow> d \<in> range (pc_delay c))"
| "sound_phase c (Removing v j) \<longleftrightarrow> sound_job j \<and> (\<forall>d. v = TryAgain d \<longrightarrow> d \<in> range (pc_delay c))"
| "sound_phase c (Placing v j) \<longleftrightarrow> sound_job j \<and> (\<forall>d. v = TryAgain d \<longrightarrow> d \<in> range (pc_delay c))"
| "sound_phase c ph \<longleftrightarrow> True"

definition sound_pool :: "('r, 'd) PoolState \<Rightarrow> bool" where
  "sound_pool st \<longleftrightarrow> pool_up st \<and> finite (dom (a_delayed (abs_q (po_queue st))))
     \<and> (\<forall>d\<in>set (a_waiting (abs_q (po_queue st))) \<union> dom (a_delayed (abs_q (po_queue st))). sound_entry d)"

definition sound :: "PoolConfig \<Rightarrow> ('r, 'd) fleet \<Rightarrow> bool" where
  "sound c = (\<lambda>(ws, st). sound_pool st \<and> (\<forall>w\<in>set ws. sound_phase c (snd w)))"

lemma sound_job_doc: "sound_job j \<Longrightarrow> marshal_job j = Inr (doc j)" "sound_job j \<Longrightarrow> unmarshal_job (doc j) = Inr j"
    "sound_job j \<Longrightarrow> ident (doc j) = Some (j_ID j)" "sound_job j \<Longrightarrow> sound_entry (doc j)"
  by (auto simp: sound_job_def marshal_doc unmarshal_job_fields ident_def sound_entry_def) (auto simp: doc_def unmarshal_job_fields)

lemma sound_job_set [simp]:
  "sound_job j \<Longrightarrow> sound_job (j\<lparr>j_Status := x\<rparr>)" "sound_job j \<Longrightarrow> sound_job (j\<lparr>j_Error := e\<rparr>)"
  "sound_job j \<Longrightarrow> sound_job (j\<lparr>j_WorkerID := e\<rparr>)" "sound_job j \<Longrightarrow> in_int64 n \<Longrightarrow> sound_job (j\<lparr>j_RetryCount := n\<rparr>)"
  "sound_job j \<Longrightarrow> json_time_ok now \<Longrightarrow> sound_job (j\<lparr>j_UpdatedAt := now\<rparr>)"
  "sound_job j \<Longrightarrow> json_time_ok now \<Longrightarrow> sound_job (j\<lparr>j_ScheduledAt := now\<rparr>)"
  "sound_job j \<Longrightarrow> json_time_ok now \<Longrightarrow> sound_job (j\<lparr>j_StartedAt := Some now\<rparr>)"
  "sound_job j \<Longrightarrow> json_time_ok now \<Longrightarrow> sound_job (j\<lparr>j_CompletedAt := Some now\<rparr>)"
  by (auto simp: sound_job_def wf_job_def times_ok_set)

section \<open>What a step does to the jobs\<close>

abbreviation (input) view :: "('r, 'd) PoolState \<Rightarrow> abs_queue" where
  "view st \<equiv> abs_q (po_queue st)"

text \<open>A step of a worker from \<open>ph\<close> to \<open>ph'\<close>: it stays sound, it loses no job, and it
  leaves every job in as many places as before, provided the entries it releases are still delayed and
  the job it delays is nowhere else.\<close>

definition step_keeps :: "PoolConfig \<Rightarrow> phase \<Rightarrow> ('r, 'd) PoolState \<Rightarrow> phase \<Rightarrow> ('r, 'd) PoolState \<Rightarrow> bool" where
  "step_keeps c ph st ph' st' \<longleftrightarrow> sound_pool st' \<and> sound_phase c ph'
     \<and> set_mset (queued (view st) + held ph) \<subseteq> set_mset (queued (view st') + held ph')
     \<and> ((\<forall>ds. ph = Asked ds \<longrightarrow> distinct ds \<and> set ds \<subseteq> dom (a_delayed (view st)))
        \<longrightarrow> (\<forall>x. count (queued (view st) + held ph) x \<le> 1)
        \<longrightarrow> queued (view st') + held ph' = queued (view st) + held ph)
     \<and> ((\<forall>ds. ph \<noteq> Asked ds) \<longrightarrow> dom (a_delayed (view st)) \<subseteq> dom (a_delayed (view st')))
     \<and> (\<forall>ds. ph' = Asked ds \<longrightarrow> ph = Idle \<and> distinct ds \<and> set ds \<subseteq> dom (a_delayed (view st')))"

lemma BRPop_view:
  assumes "queue_up q"
  obtains (empty) q' where "redis_do (\<lambda>c. c_BRPop c JobQueue) q = (Inl RedisNil, q')" "queue_up q'" "abs_q q' = abs_q q"
  | (entry) d rest q' where "redis_do (\<lambda>c. c_BRPop c JobQueue) q = (Inr d, q')" "queue_up q'"
      "a_waiting (abs_q q) = d # rest" "abs_q q' = (abs_q q)\<lparr>a_waiting := rest\<rparr>"
proof (cases "rv_lists (q_view q) JobQueue" rule: rev_cases)
  case Nil
  with do_BRPop [OF assms, of JobQueue] show ?thesis using empty abs_q_cong by auto
next
  case (snoc rest d)
  with do_BRPop [OF assms, of JobQueue] obtain q' where q': "redis_do (\<lambda>c. c_BRPop c JobQueue) q = (Inr d, q')" "queue_up q'"
    "q_view q' = (q_view q)\<lparr>rv_lists := (rv_lists (q_view q))(JobQueue := rest)\<rparr>" by auto
  show ?thesis by (rule entry [OF q'(1,2), of "rev rest"]) (use snoc q'(3) in \<open>simp_all add: abs_simps\<close>)
qed

lemma pool_up_queue: "pool_up st \<Longrightarrow> queue_up (po_queue st)" "pool_up st \<Longrightarrow> queue_up q \<Longrightarrow> pool_up (st\<lparr>po_queue := q\<rparr>)"
  by (simp_all add: pool_up_def)

lemma sound_poolD:
  assumes "sound_pool st"
  shows "pool_up st" "queue_up (po_queue st)" "finite (dom (a_delayed (view st)))"
    "d \<in> set (a_waiting (view st)) \<Longrightarrow> sound_entry d" "d \<in> dom (a_delayed (view st)) \<Longrightarrow> sound_entry d"
    "a_delayed (view st) d = Some s \<Longrightarrow> sound_entry d"
  using assms by (auto simp: sound_pool_def pool_up_def)

lemma sound_pool_same: "sound_pool st \<Longrightarrow> pool_up st' \<Longrightarrow> view st' = view st \<Longrightarrow> sound_pool st'"
  by (simp add: sound_pool_def)

text \<open>A step that moves a job between the queue and the worker.\<close>

lemma step_keeps_moved:
  assumes "sound_pool st'" and "sound_phase c ph'" and "queued (view st') + held ph' = queued (view st) + held ph"
    and "dom (a_delayed (view st)) \<subseteq> dom (a_delayed (view st'))" and "\<And>ds. ph' \<noteq> Asked ds"
  shows "step_keeps c ph st ph' st'"
  using assms by (simp add: step_keeps_def)

text \<open>A step that leaves the abstract queue alone and keeps the job of the worker.\<close>

lemma step_keeps_same:
  assumes "sound_pool st" and "pool_up st'" and "view st' = view st" and "sound_phase c ph'" and "held ph' = held ph"
    and "\<And>ds. ph' = Asked ds \<Longrightarrow> ph = Idle \<and> distinct ds \<and> set ds \<subseteq> dom (a_delayed (view st))"
  shows "step_keeps c ph st ph' st'"
  using assms sound_pool_same [OF assms(1-3)] by (auto simp: step_keeps_def)

lemma pool_update_keeps:
  assumes "sound_pool st" and "pool_update now j st = (j', st')"
  shows "j' = j\<lparr>j_UpdatedAt := now\<rparr>" "pool_up st'" "view st' = view st"
  using pool_update_spec [OF sound_poolD(1) [OF assms(1)], of now j] assms sound_poolD(2) [OF assms(1)] by (auto simp: pool_up_def)

lemma step_Idle:
  assumes "sound_pool st" and "worker_step c clk ((w, Idle), st) = ((w', ph'), st')"
  shows "step_keeps c Idle st ph' st'"
proof -
  from moveDelayed_query_spec [OF sound_poolD(2) [OF assms(1)], of "clk 0"] obtain ds q1
    where q1: "moveDelayed_query (clk 0) (po_queue st) = (Inr ds, q1)" "queue_up q1" "abs_q q1 = view st"
      "distinct ds" "set ds = due_entries (clk 0) (view st)" using abs_q_cong by blast
  have "set ds \<subseteq> dom (a_delayed (view st))" using q1(5) by (auto simp: due_entries_def in_score_range_def split: option.splits)
  moreover from this have "\<forall>d\<in>set ds. sound_entry d" using sound_poolD(5) [OF assms(1)] by blast
  ultimately show ?thesis using assms q1 sound_poolD(1) [OF assms(1)]
    by (intro step_keeps_same) (auto simp: pool_up_queue split: if_splits)
qed

lemma step_Released:
  assumes "sound_pool st" and "worker_step c clk ((w, Released), st) = ((w', ph'), st')"
  shows "step_keeps c Released st ph' st'"
proof (cases rule: BRPop_view [OF sound_poolD(2) [OF assms(1)]])
  case (1 q')
  with assms show ?thesis by (intro step_keeps_same) (auto simp: pool_up_queue sound_poolD(1))
next
  case (2 d rest q')
  have "sound_entry d" by (rule sound_poolD(4) [OF assms(1)]) (simp add: 2(3))
  then obtain j where j: "d = doc j" "sound_job j" by (auto simp: sound_entry_def)
  with assms 2 have st': "ph' = Taken j" "st' = st\<lparr>po_queue := q'\<rparr>" by (auto simp: sound_job_doc)
  show ?thesis using sound_poolD [OF assms(1)] 2(2-4) j
    by (intro step_keeps_moved) (auto simp: st' sound_pool_def pool_up_queue queued_def sound_job_doc)
qed

lemma step_Asked:
  assumes "sound_pool st" and "sound_phase c (Asked ds)" and "worker_step c clk ((w, Asked ds), st) = ((w', ph'), st')"
  shows "step_keeps c (Asked ds) st ph' st'"
proof -
  note fin = sound_poolD(3) [OF assms(1)]
  have st': "ph' = Released" "pool_up st'" "view st' = abs_release ds (view st)"
    using assms moveDelayed_exec_spec [OF sound_poolD(2) [OF assms(1)], of ds] by (auto simp: pool_up_queue sound_poolD(1))
  have dom: "dom (a_delayed (view st')) = dom (a_delayed (view st)) - set ds" using st'(3) by (auto simp: abs_release_def)
  have "mset ds + mset_set (dom (a_delayed (view st)) - set ds) = mset_set (dom (a_delayed (view st)))"
    if "distinct ds" "set ds \<subseteq> dom (a_delayed (view st))"
    using mset_set_Union [OF finite_set [of ds] finite_Diff [OF fin, of "set ds"]] that by (simp add: mset_set_set Un_absorb1)
  then have eq: "queued (view st') = queued (view st)" if "distinct ds" "set ds \<subseteq> dom (a_delayed (view st))"
    using that dom st'(3) by (simp add: queued_def abs_release_def)
      (metis (no_types, lifting) add.assoc add.commute image_mset_union)
  have "sound_pool st'" using st' dom fin assms(1,2) sound_poolD(4,5) [OF assms(1)] by (auto simp: sound_pool_def abs_release_def)
  moreover have "set_mset (queued (view st)) \<subseteq> set_mset (queued (view st'))"
    using st'(3) fin dom by (auto simp: queued_def abs_release_def)
  ultimately show ?thesis using eq st'(1) by (simp add: step_keeps_def)
qed

lemma sound_clockD: "sound_clock c clk \<Longrightarrow> json_time_ok (clk n)" "sound_clock c clk \<Longrightarrow> json_time_ok (clk n + pc_delay c k)"
  by (simp_all add: sound_clock_def)

lemma decide_sound:
  assumes "sound_config c" and "sound_clock c clk" and "sound_job j"
  shows "sound_phase c (decide c clk j) \<and> held (decide c clk j) = {#Some (j_ID j)#} \<and> decide c clk j \<noteq> Asked ds"
proof (cases "registry_Get (pc_registry c) (j_Type j)")
  case None
  then show ?thesis using assms(3) by (simp add: decide_def sound_clockD(1) [OF assms(2)])
next
  case (Some p)
  obtain r j3 where p: "p_Process p j = (r, j3)" by fastforce
  have "sound_job (snd (p_Process p j)) \<and> j_ID (snd (p_Process p j)) = j_ID j"
    using assms(1,3) Some unfolding sound_config_def registry_Get_def by blast
  then have j3: "sound_job j3" "j_ID j3 = j_ID j" by (simp_all add: p)
  show ?thesis
    using Some p j3 by (cases r) (auto simp: decide_def Let_def sound_clockD(1) [OF assms(2)])
qed

lemma step_Taken:
  assumes "sound_pool st" and "sound_job j" and "sound_clock c clk"
    and "worker_step c clk ((w, Taken j), st) = ((w', ph'), st')"
  shows "step_keeps c (Taken j) st ph' st'"
  using assms snd_moveToProcessing [OF sound_poolD(2) [OF assms(1)], of j] sound_poolD(1) [OF assms(1)] sound_clockD(1) [OF assms(3)]
  by (intro step_keeps_same) (auto simp: Let_def pool_up_queue start_job_def)

lemma step_Ready:
  assumes "sound_pool st" and "sound_job j" and "sound_config c" and "sound_clock c clk"
    and "worker_step c clk ((w, Ready j), st) = ((w', ph'), st')"
  shows "step_keeps c (Ready j) st ph' st'"
proof -
  obtain j2 st2 where u: "pool_update (clk 2) j st = (j2, st2)" by fastforce
  note u2 = pool_update_keeps [OF assms(1) u]
  have "sound_job j2" using u2(1) assms(2) sound_clockD(1) [OF assms(4)] by simp
  from decide_sound [OF assms(3,4) this] u u2 assms(1,5) show ?thesis
    by (intro step_keeps_same) auto
qed

lemma step_Decided:
  assumes "sound_pool st" and "sound_phase c (Decided v j k)" and "sound_clock c clk"
    and "worker_step c clk ((w, Decided v j k), st) = ((w', ph'), st')"
  shows "step_keeps c (Decided v j k) st ph' st'"
proof -
  obtain j2 st2 where u: "pool_update (clk k) j st = (j2, st2)" by fastforce
  with pool_update_keeps [OF assms(1) u] sound_clockD(1) [OF assms(3)] assms show ?thesis
    by (intro step_keeps_same) auto
qed

lemma removeFromProcessing_view:
  assumes "queue_up q" and "sound_job j"
  shows "\<exists>q'. removeFromProcessing j q = (None, q') \<and> queue_up q' \<and> abs_q q' = abs_q q"
  using removeFromProcessing_spec [OF assms(1) sound_job_doc(1) [OF assms(2)]] by (auto simp: abs_simps)

lemma step_Removing:
  assumes "sound_pool st" and "sound_phase c (Removing v j)"
    and "worker_step c clk ((w, Removing v j), st) = ((w', ph'), st')"
  shows "step_keeps c (Removing v j) st ph' st'"
  using removeFromProcessing_view [OF sound_poolD(2) [OF assms(1)], of j] assms sound_poolD(1) [OF assms(1)]
  by (intro step_keeps_same) (auto simp: pool_up_queue)

text \<open>Where a job is placed.\<close>

fun placed :: "(nat \<Rightarrow> gtime) \<Rightarrow> verdict \<Rightarrow> job \<Rightarrow> abs_queue \<Rightarrow> abs_queue" where
  "placed clk Finish j a = a\<lparr>a_completed := doc j # a_completed a\<rparr>"
| "placed clk GiveUp j a = a\<lparr>a_failed := doc j # a_failed a\<rparr>"
| "placed clk (TryAgain d) j a = abs_push (clk 6) (clk 5 + d) (doc (j\<lparr>j_ScheduledAt := clk 5 + d\<rparr>)) a"

lemma place_spec:
  assumes "queue_up q" and "sound_job j" and "\<And>d. v = TryAgain d \<Longrightarrow> sound_job (j\<lparr>j_ScheduledAt := clk 5 + d\<rparr>)"
  shows "queue_up (place clk v j q) \<and> abs_q (place clk v j q) = placed clk v j (abs_q q)"
proof (cases v)
  case Finish
  with do_LPush [OF assms(1), of CompletedQueue "doc j"] assms(2) show ?thesis
    by (auto simp: place_def sound_job_doc(1) abs_simps)
next
  case GiveUp
  with do_LPush [OF assms(1), of FailedQueue "doc j"] assms(2) show ?thesis
    by (auto simp: place_def sound_job_doc(1) abs_simps)
next
  case (TryAgain d)
  from Push_refines [OF assms(1) sound_job_doc(1) [OF assms(3) [OF this]], of "clk 6"] TryAgain show ?thesis
    by (auto simp: place_def)
qed

lemma not_delayed:
  assumes "sound_pool st" and "sound_job k" and "\<forall>x. count (add_mset (Some (j_ID k)) (queued (view st))) x \<le> 1"
  shows "doc k \<notin> dom (a_delayed (view st))"
proof
  assume "doc k \<in> dom (a_delayed (view st))"
  then have "ident (doc k) \<in># image_mset ident (mset_set (dom (a_delayed (view st))))" using sound_poolD(3) [OF assms(1)] by simp
  then have "Some (j_ID k) \<in># queued (view st)" using sound_job_doc(3) [OF assms(2)] by (auto simp: queued_def)
  then have "0 < count (queued (view st)) (Some (j_ID k))" by simp
  with assms(3) [rule_format, of "Some (j_ID k)"] show False by simp
qed

lemma step_Placing:
  assumes "sound_pool st" and "sound_phase c (Placing v j)" and "sound_clock c clk"
    and "worker_step c clk ((w, Placing v j), st) = ((w', ph'), st')"
  shows "step_keeps c (Placing v j) st ph' st'"
proof -
  let ?k = "\<lambda>d. j\<lparr>j_ScheduledAt := clk 5 + d\<rparr>"
  have j: "sound_job j" using assms(2) by simp
  have k: "sound_job (?k d)" if "v = TryAgain d" for d
    using that assms(2) sound_clockD(2) [OF assms(3)] by auto
  note pl = place_spec [where clk = clk and v = v, OF sound_poolD(2) [OF assms(1)] j k]
  have st': "pool_up st'" "view st' = placed clk v j (view st)" "held ph' = {#}" "sound_phase c ph'" "\<And>ds. ph' \<noteq> Asked ds"
    using assms(4) pl sound_poolD(1) [OF assms(1)] by (auto simp: pool_up_queue leave_def split: if_splits)
  show ?thesis
  proof (cases v)
    case (TryAgain d)
    note fin = sound_poolD(3) [OF assms(1)] and snd = sound_poolD(4,5) [OF assms(1)]
    show ?thesis
    proof (cases "clk 6 < clk 5 + d")
      case False
      then show ?thesis using st' k [OF TryAgain] fin snd
        by (intro step_keeps_moved) (auto simp: TryAgain abs_push_def sound_pool_def queued_def sound_job_doc)
    next
      case True
      have "sound_pool st'" using st' k [OF TryAgain] fin snd True
        by (auto simp: TryAgain abs_push_def sound_pool_def sound_job_doc)
      moreover have "set_mset (queued (view st) + held (Placing v j)) \<subseteq> set_mset (queued (view st') + held ph')"
        using st' k [OF TryAgain] fin True by (auto simp: TryAgain abs_push_def queued_def sound_job_doc)
      moreover have "queued (view st') + held ph' = queued (view st) + held (Placing v j)"
        if one: "\<forall>x. count (queued (view st) + held (Placing v j)) x \<le> 1"
      proof -
        have "doc (?k d) \<notin> dom (a_delayed (view st))"
          by (rule not_delayed [OF assms(1) k [OF TryAgain]]) (use one in simp)
        then show ?thesis using st' k [OF TryAgain] fin True
          by (simp add: TryAgain abs_push_def queued_def sound_job_doc)
      qed
      moreover have "dom (a_delayed (view st)) \<subseteq> dom (a_delayed (view st'))"
        using st'(2) by (auto simp: TryAgain abs_push_def)
      ultimately show ?thesis using st'(4,5) by (simp add: step_keeps_def)
    qed
  qed (use st' j sound_poolD [OF assms(1)] in \<open>auto intro!: step_keeps_moved simp: sound_pool_def queued_def sound_job_doc\<close>)
qed

lemma worker_step_keeps:
  assumes "sound_pool st" and "sound_phase c ph" and "sound_config c" and "sound_clock c clk"
    and "worker_step c clk ((w, ph), st) = ((w', ph'), st')"
  shows "step_keeps c ph st ph' st'"
proof (cases ph)
  case Idle
  with assms step_Idle show ?thesis by blast
next
  case (Asked ds)
  with assms step_Asked show ?thesis by blast
next
  case Released
  with assms step_Released show ?thesis by blast
next
  case (Taken j)
  with assms step_Taken show ?thesis by simp
next
  case (Ready j)
  with assms step_Ready show ?thesis by simp
next
  case (Decided v j k)
  with assms step_Decided show ?thesis by blast
next
  case (Removing v j)
  with assms step_Removing show ?thesis by blast
next
  case (Placing v j)
  with assms step_Placing show ?thesis by blast
qed (use assms in \<open>auto intro!: step_keeps_same sound_poolD\<close>)

section \<open>What any schedule does to the jobs\<close>

lemma sum_list_one:
  fixes f :: "'a \<Rightarrow> 'b :: comm_monoid_add"
  assumes "i < length xs"
  obtains rest where "\<And>x. (\<Sum>y\<leftarrow>xs[i := x]. f y) = f x + rest" "(\<Sum>y\<leftarrow>xs. f y) = f (xs ! i) + rest"
proof
  let ?r = "(\<Sum>y\<leftarrow>take i xs. f y) + (\<Sum>y\<leftarrow>drop (Suc i) xs. f y)"
  show upd: "(\<Sum>y\<leftarrow>xs[i := x]. f y) = f x + ?r" for x
    using assms by (simp add: upd_conv_take_nth_drop ac_simps)
  show "(\<Sum>y\<leftarrow>xs. f y) = f (xs ! i) + ?r" using upd [of "xs ! i"] by simp
qed

lemma resumed_simps [simp]: "held (resumed ph) = held ph" "sound_phase c (resumed ph) = sound_phase c ph"
    "resumed ph = Asked ds \<longleftrightarrow> ph = Asked ds"
  by (simp_all add: resumed_def)

text \<open>A step of the fleet is a step of one of its workers.\<close>

lemma fleet_step_cases:
  assumes "sound c (ws, st)" and "sound_config c" and "sound_clock c clk" and "i < length ws"
  obtains w' ph' st' rest where "fleet_step c (i, clk) (ws, st) = (ws[i := (w', ph')], st')"
    "step_keeps c (resumed (snd (ws ! i))) st ph' st'"
    "places (ws, st) = queued (view st) + held (resumed (snd (ws ! i))) + rest"
    "places (ws[i := (w', ph')], st') = queued (view st') + held ph' + rest"
proof -
  let ?ph = "resumed (snd (ws ! i))"
  obtain w' ph' st' where s: "worker_step c clk ((fst (ws ! i), ?ph), st) = ((w', ph'), st')" by (metis prod.collapse)
  have "ws ! i \<in> set ws" using assms(4) by simp
  then have "sound_pool st" "sound_phase c ?ph" using assms(1) by (simp_all add: sound_def)
  note keeps = worker_step_keeps [OF this assms(2,3) s]
  have f: "fleet_step c (i, clk) (ws, st) = (ws[i := (w', ph')], st')" using assms(4) s by (simp add: fleet_step_def)
  obtain rest where "\<And>x. (\<Sum>w\<leftarrow>ws[i := x]. held (snd w)) = held (snd x) + rest" "(\<Sum>w\<leftarrow>ws. held (snd w)) = held (snd (ws ! i)) + rest"
    using sum_list_one [where f = "\<lambda>w. held (snd w)", OF assms(4)] by metis
  then show ?thesis by (intro that [OF f keeps, of rest]) (simp_all add: places_def ac_simps)
qed

lemma fleet_step_sound:
  assumes "sound c f" and "sound_config c" and "sound_clock c clk"
  shows "sound c (fleet_step c (i, clk) f) \<and> set_mset (places f) \<subseteq> set_mset (places (fleet_step c (i, clk) f))"
proof -
  obtain ws st where f: "f = (ws, st)" by fastforce
  show ?thesis
  proof (cases "i < length ws")
    case False
    with assms(1) show ?thesis by (simp add: f fleet_step_def)
  next
    case True
    from fleet_step_cases [OF assms(1) [unfolded f] assms(2,3) True] obtain w' ph' st' rest
      where s: "fleet_step c (i, clk) (ws, st) = (ws[i := (w', ph')], st')"
      and keeps: "step_keeps c (resumed (snd (ws ! i))) st ph' st'"
      and places: "places (ws, st) = queued (view st) + held (resumed (snd (ws ! i))) + rest"
        "places (ws[i := (w', ph')], st') = queued (view st') + held ph' + rest" .
    have "sound c (ws[i := (w', ph')], st')"
      using assms(1) keeps unfolding f sound_def step_keeps_def by (auto dest!: set_update_subset_insert [THEN subsetD])
    moreover have "set_mset (places (ws, st)) \<subseteq> set_mset (places (ws[i := (w', ph')], st'))"
      using keeps unfolding places step_keeps_def by auto
    ultimately show ?thesis by (simp add: f s)
  qed
qed

text \<open>C6: In whatever order the workers proceed, no job is lost: the identifier of every job that
  waits, is delayed, is held by a worker, or has ended is still found in one of these places.\<close>

theorem no_job_lost:
  assumes "sound c f" and "sound_config c" and "\<forall>(i, clk)\<in>set sched. sound_clock c clk"
  shows "sound c (fleet_run c sched f) \<and> set_mset (places f) \<subseteq> set_mset (places (fleet_run c sched f))"
  using assms
proof (induction sched arbitrary: f)
  case (Cons s sched)
  obtain i clk where s: "s = (i, clk)" by fastforce
  with Cons.prems have clk: "sound_clock c clk" "\<forall>(i, clk)\<in>set sched. sound_clock c clk" by auto
  note one = fleet_step_sound [OF Cons.prems(1,2) clk(1), of i]
  from Cons.IH [OF one [THEN conjunct1] Cons.prems(2) clk(2)] one s show ?case by auto
qed simp

section \<open>One release at a time\<close>

fun is_asked :: "phase \<Rightarrow> bool" where
  "is_asked (Asked ds) = True"
| "is_asked ph = False"

lemma is_asked_iff: "is_asked ph \<longleftrightarrow> (\<exists>ds. ph = Asked ds)"
  by (cases ph) simp_all

text \<open>No worker asks for the due entries while another has asked and not yet moved them.\<close>

fun exclusive :: "PoolConfig \<Rightarrow> (nat \<times> (nat \<Rightarrow> gtime)) list \<Rightarrow> ('r, 'd) fleet \<Rightarrow> bool" where
  "exclusive c [] f \<longleftrightarrow> True"
| "exclusive c ((i, clk) # sched) f \<longleftrightarrow>
     (i < length (fst f) \<longrightarrow> resumed (snd (fst f ! i)) = Idle \<longrightarrow> list_all (\<lambda>w. \<not> is_asked (snd w)) (fst f))
     \<and> exclusive c sched (fleet_step c (i, clk) f)"

definition one_release :: "('r, 'd) fleet \<Rightarrow> bool" where
  "one_release = (\<lambda>(ws, st). \<forall>i ds. i < length ws \<longrightarrow> snd (ws ! i) = Asked ds
     \<longrightarrow> distinct ds \<and> set ds \<subseteq> dom (a_delayed (view st)) \<and> (\<forall>k. k < length ws \<longrightarrow> is_asked (snd (ws ! k)) \<longrightarrow> k = i))"

lemma one_release_step:
  assumes "one_release (ws, st)" and "i < length ws" and "step_keeps c (resumed (snd (ws ! i))) st ph' st'"
    and "resumed (snd (ws ! i)) = Idle \<longrightarrow> list_all (\<lambda>w. \<not> is_asked (snd w)) ws"
  shows "one_release (ws[i := (w', ph')], st')"
  unfolding one_release_def prod.case
proof (intro allI impI)
  fix l ds
  assume l: "l < length (ws[i := (w', ph')])" "snd (ws[i := (w', ph')] ! l) = Asked ds"
  have idle: "\<not> is_asked (snd (ws ! k))" if "ph' = Asked es" "k < length ws" for k es
    using assms(3,4) that by (auto simp: step_keeps_def list_all_length)
  show "distinct ds \<and> set ds \<subseteq> dom (a_delayed (view st'))
      \<and> (\<forall>k. k < length (ws[i := (w', ph')]) \<longrightarrow> is_asked (snd (ws[i := (w', ph')] ! k)) \<longrightarrow> k = l)"
  proof (cases "l = i")
    case True
    with l assms(2) have ph': "ph' = Asked ds" by simp
    with assms(3) have "distinct ds \<and> set ds \<subseteq> dom (a_delayed (view st'))" by (simp add: step_keeps_def)
    with idle [OF ph'] True assms(2) show ?thesis by (auto simp: nth_list_update)
  next
    case False
    with l have old: "l < length ws" "snd (ws ! l) = Asked ds" by simp_all
    with assms(1) have o: "distinct ds" "set ds \<subseteq> dom (a_delayed (view st))"
      "\<And>k. k < length ws \<Longrightarrow> is_asked (snd (ws ! k)) \<Longrightarrow> k = l" by (auto simp: one_release_def)
    have "resumed (snd (ws ! i)) \<noteq> Asked es" for es using o(3) [OF assms(2)] False by (auto simp: is_asked_iff)
    with assms(3) have "dom (a_delayed (view st)) \<subseteq> dom (a_delayed (view st'))" by (simp add: step_keeps_def)
    moreover have "\<not> is_asked ph'" using idle [OF _ old(1)] old(2) by (auto simp: is_asked_iff)
    ultimately show ?thesis using o(1,2) o(3) assms(2) by (auto simp: nth_list_update simp del: dom_def split: if_splits)
  qed
qed

lemma fleet_step_exact:
  assumes "sound c f" and "sound_config c" and "sound_clock c clk" and "one_release f" and "\<forall>x. count (places f) x \<le> 1"
    and "exclusive c [(i, clk)] f"
  shows "one_release (fleet_step c (i, clk) f) \<and> places (fleet_step c (i, clk) f) = places f"
proof -
  obtain ws st where f: "f = (ws, st)" by fastforce
  show ?thesis
  proof (cases "i < length ws")
    case False
    with assms(4) show ?thesis by (simp add: f fleet_step_def)
  next
    case True
    let ?ph = "resumed (snd (ws ! i))"
    from fleet_step_cases [OF assms(1) [unfolded f] assms(2,3) True] obtain w' ph' st' rest
      where s: "fleet_step c (i, clk) (ws, st) = (ws[i := (w', ph')], st')"
      and keeps: "step_keeps c ?ph st ph' st'"
      and places: "places (ws, st) = queued (view st) + held ?ph + rest"
        "places (ws[i := (w', ph')], st') = queued (view st') + held ph' + rest" .
    have "count (queued (view st) + held ?ph) x \<le> 1" for x
      using assms(5) [rule_format, of x] unfolding f places by simp
    moreover have "distinct ds \<and> set ds \<subseteq> dom (a_delayed (view st))" if "?ph = Asked ds" for ds
      using assms(4) True that by (simp add: f one_release_def)
    ultimately have "queued (view st') + held ph' = queued (view st) + held ?ph"
      using keeps unfolding step_keeps_def by blast
    then have "places (ws[i := (w', ph')], st') = places (ws, st)" unfolding places by simp
    moreover have "one_release (ws[i := (w', ph')], st')"
      using one_release_step [OF assms(4) [unfolded f] True keeps] assms(6) True by (simp add: f)
    ultimately show ?thesis by (simp add: f s)
  qed
qed

text \<open>C5: As long as only one worker at a time releases delayed jobs, each of any number of workers
  taking their steps in any order, every job stays in exactly one place: it waits, is delayed, is in the
  hands of one worker, or is among the completed or the failed ones. So when nothing waits, is delayed
  or is being worked on, every job has been completed or given up, once.\<close>

theorem each_job_in_one_place:
  assumes "sound c f" and "sound_config c" and "\<forall>(i, clk)\<in>set sched. sound_clock c clk" and "\<forall>x. count (places f) x \<le> 1"
    and "\<forall>w\<in>set (fst f). \<not> is_asked (snd w)" and "exclusive c sched f"
  shows "places (fleet_run c sched f) = places f
    \<and> (\<forall>ws st. fleet_run c sched f = (ws, st) \<longrightarrow> a_waiting (abs_q (po_queue st)) = [] \<longrightarrow> a_delayed (abs_q (po_queue st)) = Map.empty
         \<longrightarrow> (\<forall>w\<in>set ws. held (snd w) = {#})
         \<longrightarrow> image_mset ident (mset (a_completed (abs_q (po_queue st)) @ a_failed (abs_q (po_queue st)))) = places f)"
proof -
  have "one_release f" using assms(5) by (cases f) (auto simp: one_release_def is_asked_iff all_set_conv_all_nth)
  then have same: "places (fleet_run c sched f) = places f" using assms(1-4,6)
  proof (induction sched arbitrary: f)
    case (Cons s sched)
    obtain i clk where s: "s = (i, clk)" by fastforce
    with Cons.prems have clk: "sound_clock c clk" "\<forall>(i, clk)\<in>set sched. sound_clock c clk" by auto
    have "exclusive c [(i, clk)] f" using Cons.prems(6) s by simp
    note one = fleet_step_exact [OF Cons.prems(2,3) clk(1) Cons.prems(1,5) this]
    have "places (fleet_run c sched (fleet_step c (i, clk) f)) = places (fleet_step c (i, clk) f)"
      by (rule Cons.IH) (use one fleet_step_sound [OF Cons.prems(2,3) clk(1)] Cons.prems s clk in auto)
    with one s show ?case by simp
  qed simp
  have "image_mset ident (mset (a_completed (view st) @ a_failed (view st))) = places f"
    if "fleet_run c sched f = (ws, st)" "a_waiting (view st) = []" "a_delayed (view st) = Map.empty" "\<forall>w\<in>set ws. held (snd w) = {#}" for ws st
  proof -
    have "(\<Sum>w\<leftarrow>ws. held (snd w)) = {#}" using that(4) by (induction ws) simp_all
    with same that(1-3) show ?thesis by (simp add: places_def queued_def)
  qed
  with same show ?thesis by blast
qed

section \<open>A run of two workers\<close>

definition sample_fleet :: "(mem_redis, mem_mongo) fleet" where
  "sample_fleet = ([(\<lparr>w_id = ''a-worker-0'', w_nodeID = ''a'', w_isActive = False, w_jobCount = 0\<rparr>, Idle),
       (\<lparr>w_id = ''b-worker-0'', w_nodeID = ''b'', w_isActive = False, w_jobCount = 0\<rparr>, Idle)],
     sample_pool\<lparr>po_queue := new_queue\<lparr>q_db := mem_empty\<lparr>mr_lists :=
       (\<lambda>_. [])(JobQueue := [doc (sample_job\<lparr>j_ID := 8\<rparr>), doc sample_job])\<rparr>\<rparr>\<rparr>)"

definition sample_schedule :: "(nat \<times> (nat \<Rightarrow> gtime)) list" where
  "sample_schedule = [(0, \<lambda>_. 0), (1, \<lambda>_. 0), (0, \<lambda>_. 0), (1, \<lambda>_. 0), (0, \<lambda>_. 0)]"

lemma sample_jobs_sound: "sound_job sample_job" "sound_job (sample_job\<lparr>j_ID := 8\<rparr>)"
  using sample_pool_facts(4,5) by (simp_all add: sound_job_def wf_job_def times_ok_def job_times_def)

lemmas sample_eval = sample_schedule_def sample_fleet_def fleet_step_def resumed_def moveDelayed_query_def redis_do_def
  new_queue_def mem_client_def mem_empty_def mem_range_def sample_pool_def moveToProcessing_def
  sample_jobs_sound [THEN sound_job_doc(1)] sample_jobs_sound [THEN sound_job_doc(2)]

lemma sample_exclusive: "exclusive (sample_config None) sample_schedule sample_fleet"
  by (simp add: sample_eval)

lemma sample_sound: "sound (sample_config None) sample_fleet" "sound_config (sample_config None)"
  "\<forall>(i, clk)\<in>set sample_schedule. sound_clock (sample_config None) clk"
  "\<forall>w\<in>set (fst sample_fleet). \<not> is_asked (snd w)"
  "places sample_fleet = {#Some 7, Some 8#}"
proof -
  have view: "view (snd sample_fleet) = \<lparr>a_waiting = [doc sample_job, doc (sample_job\<lparr>j_ID := 8\<rparr>)], a_delayed = Map.empty,
      a_completed = [], a_failed = []\<rparr>"
    by (simp add: sample_fleet_def abs_q_def q_view_def new_queue_def mem_view_def mem_empty_def status_simps)
  show "sound (sample_config None) sample_fleet"
    using view sample_pool_facts(1) sample_jobs_sound [THEN sound_job_doc(4)]
    by (simp add: sound_def sound_pool_def split: prod.split) (auto simp: sample_fleet_def pool_up_def queue_up_def sample_pool_def)
  show "sound_config (sample_config None)"
    by (simp add: sound_config_def sample_config_def RegisterProcessor_def registry_Register_def)
  show "\<forall>(i, clk)\<in>set sample_schedule. sound_clock (sample_config None) clk"
    by (simp add: sample_schedule_def sound_clock_def sample_config_def RegisterProcessor_def json_time_ok_def)
  show "\<forall>w\<in>set (fst sample_fleet). \<not> is_asked (snd w)" by (simp add: sample_fleet_def)
  show "places sample_fleet = {#Some 7, Some 8#}"
    using view sample_jobs_sound [THEN sound_job_doc(3)] 
    by (simp add: places_def queued_def split: prod.split) (auto simp: sample_fleet_def sample_job_def)
qed

theorem no_job_lost_witness:
  "Some 7 \<in># places (fleet_run (sample_config None) sample_schedule sample_fleet)"
  using no_job_lost [OF sample_sound(1-3)] by (auto simp: sample_sound(5))

theorem each_job_in_one_place_witness:
  "places (fleet_run (sample_config None) sample_schedule sample_fleet) = {#Some 7, Some 8#}"
  using each_job_in_one_place [OF sample_sound(1-3) _ sample_sound(4) sample_exclusive] by (simp add: sample_sound(5))

end
