(* ===== verification/PoolStop.thy ===== *)
theory PoolStop
  imports Fleet
begin

text \<open>
  The start and the stop of the pool of \<open>internal/worker/pool.go\<close>. \<open>Stop\<close> cancels the context
  that the workers hand to every call of Redis and MongoDB, and then waits for them: each finishes the
  round it is in, one call at a time and in any order, and starts no other. The wait ends, but the job a
  worker has in its hands is recorded nowhere.
\<close>

section \<open>Start and stop\<close>

definition Pool_Start :: "Worker list \<Rightarrow> (Worker \<times> phase) list" where
  "Pool_Start workers = map (\<lambda>w. (w, Idle)) workers"

lemma started_pool:
  "places (Pool_Start workers, st) = queued (view st)" "sound c (Pool_Start workers, st) \<longleftrightarrow> sound_pool st"
proof -
  have "(\<Sum>w\<leftarrow>Pool_Start workers. held (snd w)) = {#}" by (induction workers) (simp_all add: Pool_Start_def)
  then show "places (Pool_Start workers, st) = queued (view st)" by (simp add: places_def)
  show "sound c (Pool_Start workers, st) \<longleftrightarrow> sound_pool st" by (auto simp: sound_def Pool_Start_def)
qed

text \<open>\<open>rc\<close> and \<open>mc\<close> are the two clients when they are called with a context that has been
  cancelled.\<close>

definition cancelled :: "'r redis_client \<Rightarrow> 'd mongo_client \<Rightarrow> ('r, 'd) PoolState \<Rightarrow> ('r, 'd) PoolState" where
  "cancelled rc mc st = \<lparr>po_queue = (po_queue st)\<lparr>q_client := rc\<rparr>, po_storage = (po_storage st)\<lparr>ms_client := mc\<rparr>\<rparr>"

text \<open>A step while the pool stops: who is done leaves \<open>runWorker\<close> at \<open>ctx.Done()\<close>.\<close>

definition stopping_step :: "PoolConfig \<Rightarrow> nat \<times> (nat \<Rightarrow> gtime) \<Rightarrow> ('r, 'd) fleet \<Rightarrow> ('r, 'd) fleet" where
  "stopping_step c = (\<lambda>(i, clk) (ws, st).
     if i < length ws then let (x, st') = worker_step c clk (ws ! i, st) in (ws[i := x], st') else (ws, st))"

fun stopping_run :: "PoolConfig \<Rightarrow> (nat \<times> (nat \<Rightarrow> gtime)) list \<Rightarrow> ('r, 'd) fleet \<Rightarrow> ('r, 'd) fleet" where
  "stopping_run c [] f = f"
| "stopping_run c (s # sched) f = stopping_run c sched (stopping_step c s f)"

definition Pool_Stop ::
  "'r redis_client \<Rightarrow> 'd mongo_client \<Rightarrow> PoolConfig \<Rightarrow> (nat \<times> (nat \<Rightarrow> gtime)) list \<Rightarrow> ('r, 'd) fleet \<Rightarrow> ('r, 'd) fleet" where
  "Pool_Stop rc mc c sched f = stopping_run c sched (fst f, cancelled rc mc (snd f))"

section \<open>Cancelled calls\<close>

text \<open>What both drivers promise of a cancelled context: a call returns an error and has done nothing.\<close>

definition refuses_redis :: "'r redis_client \<Rightarrow> bool" where
  "refuses_redis c \<longleftrightarrow>
     (\<forall>k d r. \<exists>err. c_LPush c k d r = (Some err, r)) \<and> (\<forall>k r. \<exists>err. c_BRPop c k r = (Inl err, r))
   \<and> (\<forall>k n d r. \<exists>err. c_LRem c k n d r = (Some err, r)) \<and> (\<forall>k s d r. \<exists>err. c_ZAdd c k s d r = (Some err, r))
   \<and> (\<forall>k lo hi r. \<exists>err. c_ZRangeByScore c k lo hi r = (Inl err, r)) \<and> (\<forall>cs r. \<exists>err. c_Exec c cs r = (Inl err, r))"

definition refuses_mongo :: "'d mongo_client \<Rightarrow> bool" where
  "refuses_mongo c \<longleftrightarrow> (\<forall>f j d. \<exists>err. jobs_UpdateOne c f j d = (Inl err, d))"

definition refused :: "('r, 'd) PoolState \<Rightarrow> bool" where
  "refused st \<longleftrightarrow> refuses_redis (q_client (po_queue st)) \<and> refuses_mongo (ms_client (po_storage st))"

lemma redis_do_unchanged: "cmd (q_client q) (q_db q) = (x, q_db q) \<Longrightarrow> redis_do cmd q = (x, q)"
  by (simp add: redis_do_def)

lemma refused_redis:
  assumes "refuses_redis (q_client q)"
  shows "\<exists>err. redis_do (\<lambda>c. c_LPush c k d) q = (Some err, q)" "\<exists>err. redis_do (\<lambda>c. c_BRPop c k) q = (Inl err, q)"
    "\<exists>err. redis_do (\<lambda>c. c_LRem c k n d) q = (Some err, q)" "\<exists>err. redis_do (\<lambda>c. c_ZAdd c k s d) q = (Some err, q)"
    "\<exists>err. redis_do (\<lambda>c. c_ZRangeByScore c k lo hi) q = (Inl err, q)" "\<exists>err. redis_do (\<lambda>c. c_Exec c cs) q = (Inl err, q)"
  using assms unfolding refuses_redis_def by (meson redis_do_unchanged)+

lemma refused_queue:
  assumes "refuses_redis (q_client q)"
  shows "\<exists>err. moveDelayed_query now q = (Inl err, q)" "moveDelayed_exec ds q = q" "snd (moveToProcessing j q) = q"
    "\<exists>err. removeFromProcessing j q = (Some err, q)" "snd (Push now j q) = q" "place clk v j q = q"
proof -
  note r = refused_redis [OF assms]
  have "snd (redis_do (\<lambda>c. c_Exec c cs) q) = q" for cs using r(6) [of cs] by auto
  then show "moveDelayed_exec ds q = q" by (simp add: moveDelayed_exec_def)
  have push: "snd (redis_do (\<lambda>c. c_LPush c k d) q) = q" for k d using r(1) [of k d] by auto
  have delay: "snd (redis_do (\<lambda>c. c_ZAdd c k n d) q) = q" for k n d using r(4) [of k n d] by auto
  show "\<exists>err. moveDelayed_query now q = (Inl err, q)" using r(5) by (auto simp: moveDelayed_query_def)
  show "snd (moveToProcessing j q) = q" by (simp add: moveToProcessing_def push split: sum.split)
  show "\<exists>err. removeFromProcessing j q = (Some err, q)" using r(3) by (auto simp: removeFromProcessing_def split: sum.split)
  show p: "snd (Push now j q) = q" for now j by (simp add: Push_def push delay split: sum.split)
  show "place clk v j q = q" by (simp add: place_def push p split: sum.split verdict.split)
qed

lemma refused_update:
  assumes "refused st"
  shows "\<exists>j'. pool_update now j st = (j', st)"
proof -
  let ?j = "j\<lparr>j_UpdatedAt := now\<rparr>"
  obtain err where "jobs_UpdateOne (ms_client (po_storage st)) (by_oid (j_ID ?j)) ?j (ms_db (po_storage st)) = (Inl err, ms_db (po_storage st))"
    using assms unfolding refused_def refuses_mongo_def by blast
  then have "pool_update now j st = (?j, st)" by (simp add: pool_update_def UpdateJob_def mongo_do_def)
  then show ?thesis by blast
qed

text \<open>How many calls are left in the round.\<close>

fun calls_left :: "phase \<Rightarrow> nat" where
  "calls_left Idle = 2"
| "calls_left (Asked ds) = 2"
| "calls_left Released = 1"
| "calls_left (Taken j) = 4"
| "calls_left (Ready j) = 3"
| "calls_left (Decided v j k) = 2"
| "calls_left (Removing v j) = 1"
| "calls_left (Placing v j) = 1"
| "calls_left Done = 0"
| "calls_left Crashed = 0"

lemma calls_left_decide: "calls_left (decide c clk j) = 2"
  by (auto simp: decide_def Let_def split: option.split prod.split)

lemma calls_left_leave: "calls_left (snd (leave v j w)) = 0"
  by (simp add: leave_def)

text \<open>A step with a cancelled context changes nothing but where the worker is in its round.\<close>

lemma refused_step:
  assumes "refused st"
  shows "\<exists>w' ph'. worker_step c clk ((w, ph), st) = ((w', ph'), st) \<and> calls_left ph' = calls_left ph - 1"
proof -
  have q: "refuses_redis (q_client (po_queue st))" using assms by (simp add: refused_def)
  note r = refused_queue [OF q] refused_redis(2) [OF q]
  show ?thesis
  proof (cases ph)
    case Idle
    with r(1) [of "clk 0"] show ?thesis by auto
  next
    case (Ready j)
    with refused_update [OF assms, of "clk 2" j] show ?thesis by (auto simp: calls_left_decide)
  next
    case (Decided v j k)
    with refused_update [OF assms, of "clk k" j] show ?thesis by auto
  next
    case (Removing v j)
    with r(4) [of j] show ?thesis by (auto simp: leave_def)
  next
    case Released
    with r(7) [of JobQueue] show ?thesis by auto
  qed (simp_all add: r(2,3,6) leave_def Let_def)
qed

lemma calls_left_0: "calls_left ph = 0 \<longleftrightarrow> ph = Done \<or> ph = Crashed"
  by (cases ph) simp_all

lemma calls_left_le: "calls_left ph \<le> 4"
  by (cases ph) simp_all

definition turns_of :: "nat \<Rightarrow> (nat \<times> (nat \<Rightarrow> gtime)) list \<Rightarrow> nat" where
  "turns_of i sched = length (filter (\<lambda>s. fst s = i) sched)"

lemma stopping_run_refused:
  assumes "refused st"
  shows "\<exists>ws'. stopping_run c sched (ws, st) = (ws', st) \<and> length ws' = length ws
    \<and> (\<forall>i<length ws. calls_left (snd (ws' ! i)) = calls_left (snd (ws ! i)) - turns_of i sched)"
proof (induction sched arbitrary: ws)
  case (Cons s sched)
  obtain k clk where s: "s = (k, clk)" by fastforce
  show ?case
  proof (cases "k < length ws")
    case False
    with Cons.IH [of ws] show ?thesis by (auto simp: s stopping_step_def turns_of_def)
  next
    case True
    obtain w' ph' where "worker_step c clk (ws ! k, st) = ((w', ph'), st)" "calls_left ph' = calls_left (snd (ws ! k)) - 1"
      using refused_step [OF assms, of c clk "fst (ws ! k)" "snd (ws ! k)"] by auto
    with True Cons.IH [of "ws[k := (w', ph')]"] show ?thesis
      by (auto simp: s stopping_step_def turns_of_def nth_list_update split: if_splits)
  qed
qed (simp add: turns_of_def)

section \<open>Property\<close>

text \<open>C7: When the pool is stopped, every worker ends its round after at most four more calls, in
  whatever order they come, so that the wait ends; the two databases stay as they are, and the job that a
  worker had in its hands is neither waiting nor delayed, nor among the completed or the failed.\<close>

theorem stopping_loses_jobs_in_hand:
  assumes "refuses_redis rc" and "refuses_mongo mc" and "\<forall>k<length ws. 4 \<le> turns_of k sched"
    and "(w, ph) \<in> set ws" and "Some i \<in># held ph" and "count (places (ws, st)) (Some i) = 1"
  shows "\<exists>ws'. Pool_Stop rc mc c sched (ws, st) = (ws', cancelled rc mc st)
    \<and> (\<forall>(w', ph')\<in>set ws'. ph' = Done \<or> ph' = Crashed)
    \<and> Some i \<notin># places (ws', st)"
proof -
  have "refused (cancelled rc mc st)" using assms(1,2) by (simp add: refused_def cancelled_def)
  from stopping_run_refused [OF this, of c sched ws] obtain ws'
    where ws': "Pool_Stop rc mc c sched (ws, st) = (ws', cancelled rc mc st)" "length ws' = length ws"
      "\<forall>k<length ws. calls_left (snd (ws' ! k)) = calls_left (snd (ws ! k)) - turns_of k sched"
    by (auto simp: Pool_Stop_def)
  have ended: "snd x = Done \<or> snd x = Crashed" if "x \<in> set ws'" for x
  proof -
    from that obtain k where k: "k < length ws" "x = ws' ! k" using ws'(2) by (metis in_set_conv_nth)
    from ws'(3) assms(3) k(1) calls_left_le [of "snd (ws ! k)"] have "calls_left (snd (ws' ! k)) = 0"
      by (metis diff_is_0_eq order_trans)
    with k(2) show ?thesis by (simp add: calls_left_0)
  qed
  have "(\<Sum>w\<leftarrow>xs. held (snd w)) = {#}" if "\<forall>x\<in>set xs. snd x = Done \<or> snd x = Crashed" for xs :: "(Worker \<times> phase) list"
    using that by (induction xs) auto
  with ended have "places (ws', st) = queued (view st)" by (simp add: places_def)
  moreover from assms(4) obtain xs ys where "ws = xs @ (w, ph) # ys" by (meson split_list)
  then have "places (ws, st) = queued (view st) + held ph + ((\<Sum>w\<leftarrow>xs. held (snd w)) + (\<Sum>w\<leftarrow>ys. held (snd w)))"
    by (simp add: places_def)
  with assms(5,6) have "count (queued (view st)) (Some i) = 0" by (simp add: count_greater_zero_iff [symmetric] del: count_greater_zero_iff)
  moreover have "\<forall>(w', ph')\<in>set ws'. ph' = Done \<or> ph' = Crashed" using ended by fastforce
  ultimately show ?thesis using ws'(1) by (simp add: count_eq_zero_iff)
qed

section \<open>A worker that is stopped\<close>

definition refusing_redis :: "'r redis_client \<Rightarrow> 'r redis_client" where
  "refusing_redis c = \<lparr>c_LPush = (\<lambda>k d r. (Some (DriverErr ''context canceled''), r)),
     c_BRPop = (\<lambda>k r. (Inl (DriverErr ''context canceled''), r)),
     c_LRem = (\<lambda>k n d r. (Some (DriverErr ''context canceled''), r)),
     c_ZAdd = (\<lambda>k s d r. (Some (DriverErr ''context canceled''), r)),
     c_ZRangeByScore = (\<lambda>k lo hi r. (Inl (DriverErr ''context canceled''), r)),
     c_Exec = (\<lambda>cs r. (Inl (DriverErr ''context canceled''), r)), c_view = c_view c\<rparr>"

definition refusing_mongo :: "'d mongo_client \<Rightarrow> 'd mongo_client" where
  "refusing_mongo c = c\<lparr>jobs_UpdateOne := (\<lambda>f j d. (Inl (DriverErr ''context canceled''), d))\<rparr>"

lemma refusing_refuse: "refuses_redis (refusing_redis c)" "refuses_mongo (refusing_mongo m)"
  by (simp_all add: refusing_redis_def refusing_mongo_def refuses_redis_def refuses_mongo_def)

definition sample_busy :: "(mem_redis, mem_mongo) fleet" where
  "sample_busy = ([(\<lparr>w_id = ''a-worker-0'', w_nodeID = ''a'', w_isActive = True, w_jobCount = 1\<rparr>, Ready sample_job)],
     sample_pool\<lparr>po_queue := new_queue\<rparr>)"

lemma sample_busy_places: "places sample_busy = {#Some 7#}"
  by (simp add: sample_busy_def places_def queued_def abs_q_def q_view_def new_queue_def mem_view_def mem_client_def
      mem_empty_def sample_job_def)

theorem stopping_loses_jobs_in_hand_witness:
  "\<exists>ws'. Pool_Stop (refusing_redis mem_client) (refusing_mongo mem_mongo_client) (sample_config None)
      (replicate 4 (0, \<lambda>_. 0)) sample_busy = (ws', cancelled (refusing_redis mem_client) (refusing_mongo mem_mongo_client) (snd sample_busy))
    \<and> (\<forall>(w', ph')\<in>set ws'. ph' = Done \<or> ph' = Crashed) \<and> Some 7 \<notin># places (ws', snd sample_busy)"
proof -
  have "\<forall>k<length (fst sample_busy). 4 \<le> turns_of k (replicate 4 (0, \<lambda>_. 0))"
    by (simp add: sample_busy_def turns_of_def)
  from stopping_loses_jobs_in_hand [OF refusing_refuse(1) [of mem_client] refusing_refuse(2) [of mem_mongo_client] this, where st = "snd sample_busy" and i = 7
      and c = "sample_config None"] sample_busy_places
  show ?thesis by (force simp: sample_busy_def sample_job_def)
qed

end
