(* ===== verification/Spec2Isabelle.thy ===== *)
theory Spec2Isabelle
  imports Examples Cluster RaftCluster PoolStop
begin

text \<open>
  A verification development of the distributed job processor.

  The program. Clients submit jobs over HTTP. The server stores each job in MongoDB and pushes it to a
  queue in Redis; the workers of every node pop jobs, run the processor registered for the job's type,
  and complete, retry or fail the job in both places. The nodes elect a leader over the node documents
  in MongoDB, by one of three algorithms. Everything is put together by \<open>internal/server\<close>, from a
  configuration that is read from the environment, and started by \<open>cmd/server/main.go\<close>.

  Theories and code.

  \<^item> \<open>Prelude\<close>: the Go runtime as far as it is used (64-bit integers, instants, errors, strings and
    runes, remainder and quotient, outcomes of calls that may panic or wait for ever). \<open>Locks\<close>:
    programs under a \<open>sync.RWMutex\<close> as one goroutine sees it.
  \<^item> \<open>Job\<close> (\<open>pkg/job\<close>): the job, its JSON form and the registry. \<open>Retry\<close>
    (\<open>internal/retry\<close>): delays, over a parameter for \<open>float64\<close>.
  \<^item> \<open>Redis\<close>, \<open>Queue\<close> (\<open>internal/queue\<close>): the client's commands as a parameter, and the
    queue on them. \<open>abs_q\<close> is the abstract queue; \<open>Push_refines\<close> and its companions show that the
    operations implement it.
  \<^item> \<open>Mongo\<close>, \<open>Mem_Mongo\<close>, \<open>Storage\<close>, \<open>NodeStore\<close>
    (\<open>internal/storage\<close>): the driver's calls as a parameter, an in-memory driver, the operations on
    jobs, and those on nodes with the claim of leadership, which is also given one driver call at a time
    so that claims interleave. \<open>Connect\<close>: opening both databases.
  \<^item> \<open>Worker\<close>, \<open>Pool\<close> (\<open>internal/worker\<close>): workers, and what a worker does with a job.
    \<open>fate_of\<close> says what becomes of a job as a function of registry, delays and clock alone;
    \<open>processJob_spec\<close> shows that a worker carries it out. \<open>Fleet\<close>: any number of
    workers, each one call of the services at a time, in any order. \<open>PoolStop\<close>: how they start and
    what stopping them does.
  \<^item> \<open>LoadBalancer\<close> (\<open>internal/loadbalancer\<close>): the four strategies and their contract.
  \<^item> \<open>Bully\<close>, \<open>Raft\<close>, \<open>Gossip\<close>, \<open>Election\<close> (\<open>internal/election\<close>): the three
    elections on the shared node documents, and the factory with the common interface. \<open>Cluster\<close>:
    several nodes of the bully election in turn, up to the one that leads. \<open>RaftCluster\<close>: the
    Raft loops by events, and several Raft nodes.
  \<^item> \<open>Config\<close>, \<open>Auth\<close>, \<open>Tls\<close>, \<open>Metrics\<close>, \<open>Logger\<close>: the packages of these names.
  \<^item> \<open>Server\<close> (\<open>internal/server\<close>): its state, \<open>New\<close>, \<open>Start\<close>, \<open>Shutdown\<close>, the
    routes with their guards, and every handler. \<open>Examples\<close>: the processors and the client of
    \<open>examples\<close>, the latter with its \<open>main\<close>.
  \<^item> This theory: the properties that need several components, \<open>main\<close>, and that of the example server.

  State and effects. A struct is a record with the same fields, an interface a datatype of its
  implementations. Operations take and return the state they change; \<open>'a res\<close> is Go's pair of an
  error and a value; \<open>outcome\<close> adds panics and waiting for ever. What the program does not hold
  itself is a parameter: the Redis client, the MongoDB driver, the JWT library, certificates, the
  Prometheus registry, logrus, the client of HTTP,
  \<open>float64\<close> arithmetic. The documented behaviour of each is a predicate (\<open>redis_contract\<close>,
  \<open>mongo_contract\<close>, \<open>jwt_contract\<close>, \<open>ieee\<close>), and that calls do not fail is another
  (\<open>redis_reliable\<close>, \<open>mongo_reliable\<close>); in-memory instances meet them and serve the witnesses.
  The readings of the clock, random numbers, fresh identifiers and the order in which a map is
  traversed are arguments.

  Contracts inside the development are locales, each interpreted on the model: \<open>job_queue\<close>,
  \<open>job_storage\<close>, the load balancer's, \<open>election_service\<close> and \<open>election_factory\<close>,
  \<open>job_api\<close>.

  What is shown. The queue is first in, first out, and holds jobs back until they are due; a worker
  carries out the fate of a job and, left alone, empties the queue; several workers together lose no
  job, and each job is in one place only while one worker at a time releases delayed jobs, but stopping
  them loses what they have in hand; storage
  operations touch one document and read back what was written; at most one of the interleaved claims
  of leadership succeeds; when each election makes a node leader, what every reachable state of it
  satisfies, and where it waits for itself; that the highest bully node comes to lead, and that a Raft
  leader with timely heartbeats stays leader and alone; what the configuration reads; whom the guards
  admit; what each handler answers and changes; when a server is made, starts and shuts down; and from
  the request to the result, that a submitted job gets done. Where the code does not do what it means
  to, the theorem states what it does.

  Bounds and fuel. No definition needs fuel: loops over lists are structural, \<open>ParseDuration\<close>
  terminates by the length of its text, the loop of a worker and the steps of the elections are taken
  over a given list of rounds or as a step relation.

  Not modelled. Goroutines, tickers and contexts, except as the rounds and events they cause; one
  operation reads the clock as often as the code does but other goroutines do not run in the middle of
  it, except where a property is about interleaving. gin's matching of routes and decoding of bodies,
  the Prometheus exporter, the lines that the components log (\<open>Logger\<close> says what a call writes), and
  the tests.
\<close>

section \<open>From the request to the result\<close>

text \<open>C3: A job submitted to a server with an empty queue, due at once, of a type whose processor succeeds:
  after one round of any worker the job is answered as completed, and the queue is empty again with the
  job among the completed ones.\<close>

theorem submitted_job_gets_done:
  assumes "server_up s" and "bind_job rq = Inr j0" and "in_int64 (rt_MaxRetries (cf_Retry (sv_config s)))"
    and "j = submitted oid (clk 0) s j0" and "ms_jobs (sv_storage s) (j_ID j) = None" and "times_ok j"
    and "j_ScheduledAt j \<le> clk 1" and "a_waiting (abs_q (sv_queue s)) = []" and "a_delayed (abs_q (sv_queue s)) = Map.empty"
    and "pc_registry (sv_pool s) (j_Type j) = Some p" and "p_Process p (running clk' (sv_workers s ! i) j) = (None, j3)"
    and "j_ID j3 = j_ID j" and "j_StartedAt j3 \<noteq> None"
    and "jf = j3\<lparr>j_Status := StatusCompleted, j_CompletedAt := Some (clk' 3), j_UpdatedAt := clk' 4\<rparr>" and "times_ok jf"
    and "names_job s rq' (j_ID j)"
  shows "\<exists>s1 s2 s3 k. createJob oid clk rq s = Returns (\<lparr>rs_Status = 201, rs_Body = job_json j\<rparr>, s1)
    \<and> work clk' i s1 = Returns s2
    \<and> getJob rq' s2 = Returns (\<lparr>rs_Status = 200, rs_Body = job_json k\<rparr>, s3)
    \<and> j_ID k = j_ID j \<and> j_Status k = StatusCompleted
    \<and> a_waiting (abs_q (sv_queue s2)) = [] \<and> a_completed (abs_q (sv_queue s2)) = doc jf # a_completed (abs_q (sv_queue s))"
proof -
  let ?w = "sv_workers s ! i"
  from submitted_spec [where clk = clk, OF assms(1,2,4,5,6)] obtain st q
    where c: "createJob oid clk rq s = Returns (\<lparr>rs_Status = 201, rs_Body = job_json j\<rparr>,
        s\<lparr>sv_storage := st, sv_queue := q, sv_metrics := sv_metrics s @ RecordJobStart (j_Type j)\<rparr>)"
      and st: "storage_up st" "ms_client st = ms_client (sv_storage s)" "ms_jobs st = (ms_jobs (sv_storage s))(j_ID j \<mapsto> bson_job j)"
      and q: "queue_up q" "abs_q q = abs_push (clk 1) (j_ScheduledAt j) (doc j) (abs_q (sv_queue s))" by blast
  define s1 where "s1 = s\<lparr>sv_storage := st, sv_queue := q, sv_metrics := sv_metrics s @ RecordJobStart (j_Type j)\<rparr>"
  have s1: "server_up s1" "sv_workers s1 = sv_workers s" "sv_pool s1 = sv_pool s" using st q by (simp_all add: s1_def server_up_def)
  have q1: "a_waiting (abs_q (sv_queue s1)) = doc j # []" "due_entries (clk' 0) (abs_q (sv_queue s1)) = {}"
    using assms(7-9) q by (simp_all add: s1_def abs_push_def due_entries_def in_score_range_def)
  have f: "fate_of (sv_pool s1) (shift 3 clk') (running clk' ?w j) = Completed jf"
    using assms(10,11,14) s1(3) by (simp add: fate_of_def registry_Get_def shift_def)
  then have ok: "fate_ok (fate_of (sv_pool s1) (shift 3 clk') (running clk' ?w j))"
    using assms(13-15) by (simp add: fate_ok_def)
  have wf: "wf_job j" using submitted_wf [OF assms(2,3)] assms(4) by simp
  from work_spec [where clk = clk' and s = s1 and i = i and j = j and w = ?w, OF s1(1) q1(2,1) wf assms(6) _ refl ok]
  obtain st2 q2 s2 where w: "work clk' i s1 = Returns s2" "sv_storage s2 = st2" "sv_queue s2 = q2" "storage_up st2"
      "ms_jobs st2 = abs_update jf (abs_update (running clk' ?w j) (ms_jobs (sv_storage s1)))"
      "ms_client st2 = ms_client (sv_storage s1)"
      "abs_q q2 = fate_queue (Completed jf) ((abs_q (sv_queue s1))\<lparr>a_waiting := []\<rparr>)"
    unfolding f s1(2) by auto
  have "\<exists>k. ms_jobs st2 (j_ID j) = Some k \<and> j_ID k = j_ID j \<and> j_Status k = StatusCompleted"
    using w(5) st(3) assms(12,14) by (simp add: s1_def abs_update_def running_def start_job_def bson_set_job_def bson_job_def Let_def)
  then obtain k where k: "ms_jobs st2 (j_ID j) = Some k" "j_ID k = j_ID j" "j_Status k = StatusCompleted" by blast
  have "rq_Param rq' ''id'' = oid_Hex (ms_client (sv_storage s2)) (j_ID j)"
    using assms(16) w(2,6) st(2) by (simp add: names_job_def s1_def)
  from getJob_spec [OF _ this] w(2,4) k(1) obtain st3
    where "getJob rq' s2 = Returns (\<lparr>rs_Status = 200, rs_Body = job_json k\<rparr>, s2\<lparr>sv_storage := st3\<rparr>)" by auto
  with c w k(2,3) q show ?thesis using assms(7) by (auto simp: s1_def [symmetric]) (auto simp: s1_def abs_push_def)
qed

lemma sample_queue_empty: "a_waiting (abs_q new_queue) = []" "a_delayed (abs_q new_queue) = Map.empty"
  by (simp_all add: abs_q_def new_queue_def q_view_def mem_view_def mem_client_def mem_empty_def)

definition sample_worker :: Worker where
  "sample_worker = \<lparr>w_id = ''node-1-worker-0'', w_nodeID = ''node-1'', w_isActive = False, w_jobCount = 0\<rparr>"

definition sample_done :: job where
  "sample_done = (running (\<lambda>_. 0) sample_worker sample_submitted)\<lparr>j_Status := StatusCompleted, j_CompletedAt := Some 0, j_UpdatedAt := 0\<rparr>"

lemma sample_done_facts: "times_ok sample_done" "sv_workers (sample_server auth e) ! 0 = sample_worker"
  "j_ID (running clk w j) = j_ID j" "j_StartedAt (running clk w j) \<noteq> None"
  by (simp_all add: sample_done_def running_def start_job_def sample_submitted_def sample_job0_def zero_job_def times_ok_def
      job_times_def json_time_ok_def sample_server_def sample_worker_def)

lemma sample_processor: "pc_registry (sample_config None) (j_Type sample_submitted) = Some \<lparr>p_Type = ''email'', p_Process = (\<lambda>j. (None, j))\<rparr>"
  by (simp add: sample_config_def RegisterProcessor_def registry_Register_def sample_request_simps)

theorem submitted_job_gets_done_witness:
  "\<exists>s1 s2 s3 k. createJob 9 (\<lambda>_. 0) (sample_request '''') (sample_server False (sample_election False))
      = Returns (\<lparr>rs_Status = 201, rs_Body = job_json sample_submitted\<rparr>, s1)
    \<and> work (\<lambda>_. 0) 0 s1 = Returns s2
    \<and> getJob (sample_request '''') s2 = Returns (\<lparr>rs_Status = 200, rs_Body = job_json k\<rparr>, s3)
    \<and> j_ID k = 9 \<and> j_Status k = StatusCompleted
    \<and> a_waiting (abs_q (sv_queue s2)) = [] \<and> a_completed (abs_q (sv_queue s2)) = doc sample_done # a_completed (abs_q new_queue)"
proof -
  let ?s = "sample_server False (sample_election False)"
  have "\<exists>s1 s2 s3 k. createJob 9 (\<lambda>_. 0) (sample_request '''') ?s = Returns (\<lparr>rs_Status = 201, rs_Body = job_json sample_submitted\<rparr>, s1)
    \<and> work (\<lambda>_. 0) 0 s1 = Returns s2
    \<and> getJob (sample_request '''') s2 = Returns (\<lparr>rs_Status = 200, rs_Body = job_json k\<rparr>, s3)
    \<and> j_ID k = j_ID sample_submitted \<and> j_Status k = StatusCompleted
    \<and> a_waiting (abs_q (sv_queue s2)) = [] \<and> a_completed (abs_q (sv_queue s2)) = doc sample_done # a_completed (abs_q (sv_queue ?s))"
    by (rule submitted_job_gets_done [OF sample_server_up sample_request_simps(1), where j = sample_submitted
          and ?j3.0 = "running (\<lambda>_. 0) sample_worker sample_submitted"
          and p = "\<lparr>p_Type = ''email'', p_Process = (\<lambda>j. (None, j))\<rparr>"])
      (simp_all add: sample_request_simps sample_queue_empty sample_done_facts sample_processor [unfolded sample_request_simps(5)] default_config_simps in_int64_def
        sample_done_def [symmetric] del: One_nat_def)
  then show ?thesis by (simp add: sample_request_simps)
qed

section \<open>Deletion\<close>

text \<open>C37: Deleting a job that waits takes it out of the storage but not out of the queue: a worker still
  runs it and carries out its fate, and the job is never found again.\<close>

theorem deleted_job_still_runs:
  assumes "server_up s" and "ms_jobs (sv_storage s) (j_ID j) = Some old" and "names_job s rq (j_ID j)"
    and "due_entries (clk 0) (abs_q (sv_queue s)) = {}" and "a_waiting (abs_q (sv_queue s)) = doc j # rest"
    and "wf_job j" and "times_ok j"
    and "f = fate_of (sv_pool s) (shift 3 clk) (running clk (sv_workers s ! i) j)" and "fate_ok f" and "j_ID (written f) = j_ID j"
  shows "\<exists>s1 s2 s3 r r'. deleteJob rq s = Returns (r, s1) \<and> rs_Status r = 200
    \<and> work clk i s1 = Returns s2 \<and> abs_q (sv_queue s2) = fate_queue f ((abs_q (sv_queue s))\<lparr>a_waiting := rest\<rparr>)
    \<and> getJob rq s2 = Returns (r', s3) \<and> rs_Status r' = 404"
proof -
  have up: "storage_up (sv_storage s)" "queue_up (sv_queue s)" using assms(1) by (simp_all add: server_up_def)
  have rq: "rq_Param rq ''id'' = oid_Hex (ms_client (sv_storage s)) (j_ID j)" using assms(3) by (simp add: names_job_def)
  from deleteJob_spec [OF up(1) rq] assms(2) obtain st r
    where d: "deleteJob rq s = Returns (r, s\<lparr>sv_storage := st\<rparr>)" "rs_Status r = 200" "storage_up st"
      "ms_client st = ms_client (sv_storage s)" "ms_jobs st = (ms_jobs (sv_storage s))(j_ID j := None)" by auto
  let ?s1 = "s\<lparr>sv_storage := st\<rparr>"
  have s1: "server_up ?s1" using d(3) up(2) by (simp add: server_up_def)
  from work_spec [where clk = clk and s = ?s1 and i = i and j = j and rest = rest and f = f, OF s1 _ _ assms(6,7) refl _ assms(9)] assms(4,5,8)
  obtain st2 q2 s2 where w: "work clk i ?s1 = Returns s2" "sv_storage s2 = st2" "sv_queue s2 = q2" "storage_up st2"
      "ms_jobs st2 = abs_update (written f) (abs_update (running clk (sv_workers s ! i) j) (ms_jobs st))"
      "ms_client st2 = ms_client st" "abs_q q2 = fate_queue f ((abs_q (sv_queue s))\<lparr>a_waiting := rest\<rparr>)" by auto
  have none: "ms_jobs (sv_storage s2) (j_ID j) = None"
    using w(2,5) d(5) assms(10) by (simp add: abs_update_def running_def start_job_def)
  have "rq_Param rq ''id'' = oid_Hex (ms_client (sv_storage s2)) (j_ID j)" using rq w(2,6) d(4) by simp
  from getJob_spec [OF _ this] none w(2,4) obtain r' s3 where "getJob rq s2 = Returns (r', s3)" "rs_Status r' = 404" by auto
  with d w show ?thesis by auto
qed

theorem deleted_job_still_runs_witness:
  "\<exists>s s1 s2 s3 r r'. a_waiting (abs_q (sv_queue s)) = [doc sample_submitted]
    \<and> deleteJob (sample_request '''') (s :: (mem_redis, mem_mongo, unit) Server) = Returns (r, s1) \<and> rs_Status r = 200
    \<and> work (\<lambda>_. 0) 0 s1 = Returns s2 \<and> doc sample_done \<in> set (a_completed (abs_q (sv_queue s2)))
    \<and> getJob (sample_request '''') s2 = Returns (r', s3) \<and> rs_Status r' = 404"
proof -
  let ?s0 = "sample_server False (sample_election False)"
  from submitted_spec [where clk = "\<lambda>_. 0" and j = sample_submitted and oid = 9, OF sample_server_up [of False "sample_election False"]
      sample_request_simps(1) [of "''''"]] obtain st :: "mem_mongo MongoStorage" and q :: "mem_redis RedisQueue"
    where st: "storage_up st" "ms_client st = ms_client new_storage" "queue_up q" "ms_jobs st = [9 \<mapsto> bson_job sample_submitted]"
      "abs_q q = abs_push 0 0 (doc sample_submitted) (abs_q new_queue)" by (auto simp: sample_request_simps)
  define s where "s = ?s0\<lparr>sv_storage := st, sv_queue := q\<rparr>"
  have s: "server_up s" "ms_jobs (sv_storage s) (j_ID sample_submitted) = Some (bson_job sample_submitted)"
    "names_job s (sample_request '''') (j_ID sample_submitted)" "a_waiting (abs_q (sv_queue s)) = doc sample_submitted # []"
    "due_entries 0 (abs_q (sv_queue s)) = {}" "sv_pool s = sample_config None" "sv_workers s ! 0 = sample_worker"
    using st sample_request_simps(8) [of False "sample_election False" "''''"] sample_done_facts(2) [of False "sample_election False"]
    by (simp_all add: s_def server_up_def sample_request_simps names_job_def abs_push_def sample_queue_empty due_entries_def in_score_range_def)
  have f: "fate_of (sv_pool s) (shift 3 (\<lambda>_. 0)) (running (\<lambda>_. 0) (sv_workers s ! 0) sample_submitted) = Completed sample_done"
    unfolding s(6,7) using sample_processor by (simp add: fate_of_def registry_Get_def shift_def sample_done_def running_def start_job_def)
  have ok: "fate_ok (Completed sample_done)" "j_ID (written (Completed sample_done)) = j_ID sample_submitted"
    using sample_done_facts(1,3,4) by (simp_all add: fate_ok_def sample_done_def)
  from deleted_job_still_runs [where clk = "\<lambda>_. 0" and i = 0, OF s(1-3) s(5,4) sample_request_simps(7,6) f [symmetric] ok]
  obtain s1 s2 s3 r r' where w: "deleteJob (sample_request '''') s = Returns (r, s1)" "rs_Status r = 200" "work (\<lambda>_. 0) 0 s1 = Returns s2"
    "abs_q (sv_queue s2) = fate_queue (Completed sample_done) ((abs_q (sv_queue s))\<lparr>a_waiting := []\<rparr>)"
    "getJob (sample_request '''') s2 = Returns (r', s3)" "rs_Status r' = 404" by blast
  then have "doc sample_done \<in> set (a_completed (abs_q (sv_queue s2)))" by simp
  with s(4) w show ?thesis by blast
qed

section \<open>The recommended configurations\<close>

lemma seconds_parsed:
  "ParseDuration fe ''1s'' = Some (seconds 1)" "ParseDuration fe ''2s'' = Some (seconds 2)"
  "ParseDuration fe ''5s'' = Some (seconds 5)" "ParseDuration fe ''10s'' = Some (seconds 10)"
  "ParseDuration fe ''15s'' = Some (seconds 15)" "ParseDuration fe ''30s'' = Some (seconds 30)"
  by (simp_all add: ParseDuration_def duration_terms.simps duration_term_def duration_number_def duration_value_def
      unitMap_def unit_char_def is_digit_def digit_def take_sign_def Let_def)

text \<open>The configuration that the program recommends for an algorithm can be read from the environment,
  whatever the size of the cluster: its two durations parse, and the election that is made with them
  starts.\<close>

theorem recommended_configurations_start:
  assumes "algorithm \<in> set GetSupportedAlgorithms" and "5 \<le> length nodeID"
  shows "\<exists>t i. map_of (GetRecommendedConfiguration algorithm n) ''election_timeout'' = Some (JStr t)
    \<and> map_of (GetRecommendedConfiguration algorithm n) ''election_interval'' = Some (JStr i)
    \<and> (\<exists>timeout interval e. ParseDuration fe t = Some timeout \<and> ParseDuration fe i = Some interval
        \<and> CreateElection now draw algorithm nodeID timeout interval = Returns (Inr e)
        \<and> \<not> start_panics later ks rs k e s)"
proof -
  have start: "\<exists>e. CreateElection now draw algorithm nodeID timeout interval = Returns (Inr e) \<and> \<not> start_panics later ks rs k e s"
    if "2 \<le> interval" "millis 1 \<le> timeout" for timeout interval
  proof -
    note c = created_elections_start [where now = now and draw = draw and algorithm = algorithm and nodeID = nodeID
        and timeout = timeout and interval = interval and later = later and rs = rs and n = k and ks = ks and s = s]
    show ?thesis
      using c assms that
      by (cases "CreateElection now draw algorithm nodeID timeout interval") (auto split: sum.splits)
  qed
  have "\<exists>t i timeout interval. map_of (GetRecommendedConfiguration algorithm n) ''election_timeout'' = Some (JStr t)
      \<and> map_of (GetRecommendedConfiguration algorithm n) ''election_interval'' = Some (JStr i)
      \<and> ParseDuration fe t = Some timeout \<and> ParseDuration fe i = Some interval \<and> 2 \<le> interval \<and> millis 1 \<le> timeout"
    using assms(1) by (auto simp: GetSupportedAlgorithms_def GetRecommendedConfiguration_def seconds_parsed)
  with start show ?thesis by blast
qed

theorem recommended_configurations_start_witness:
  "\<exists>t. map_of (GetRecommendedConfiguration ''raft'' 5) ''election_timeout'' = Some (JStr t)
    \<and> (\<exists>timeout interval e. ParseDuration exact_env t = Some timeout \<and> CreateElection 0 0 ''raft'' ''node-1'' timeout interval = Returns (Inr e)
        \<and> \<not> start_panics 0 [] (0, 0) 0 e new_storage)"
  using recommended_configurations_start [where algorithm = "''raft''" and nodeID = "''node-1''" and n = 5 and fe = exact_env
      and now = 0 and draw = 0 and later = 0 and ks = "[]" and rs = "(0, 0)" and k = 0 and s = new_storage]
  by (auto simp: GetSupportedAlgorithms_def)

section \<open>The program\<close>

text \<open>\<open>main\<close>: \<open>log.Fatal\<close> ends it with a message; otherwise the server runs until a
  signal comes, and is then shut down.\<close>

datatype 's running_program = Fatal string goerr | Serving listening 's

definition main ::
  "('r, 'd, 'c) services \<Rightarrow> float_env \<Rightarrow> (string \<Rightarrow> real option) \<Rightarrow> environment \<Rightarrow> (nat \<Rightarrow> real) \<Rightarrow> gtime \<Rightarrow> real \<Rightarrow> 'g
    \<Rightarrow> gtime \<Rightarrow> int \<times> int \<Rightarrow> int \<Rightarrow> ('r, 'd, 'g) Server running_program outcome" where
  "main x fe special env draws now draw g later rs n =
     obind (New x fe draws now draw g (Load fe special env)) (\<lambda>r. case r of
       Inl err \<Rightarrow> Returns (Fatal ''Failed to create server:'' err)
     | Inr srv \<Rightarrow> obind (Start later rs n srv) (\<lambda>(l, srv'). Returns (Serving l srv')))"

definition main_quit :: "gtime \<Rightarrow> ('r, 'd, 'g) Server running_program \<Rightarrow> ('r, 'd, 'g) Server outcome" where
  "main_quit now p = (case p of Fatal msg err \<Rightarrow> Panics | Serving l srv \<Rightarrow> Shutdown now srv)"

lemma started_bully:
  "sv_election s = BullyE b \<Longrightarrow> Start later rs n s = Returns (l, s') \<Longrightarrow> sv_election s' = BullyE b \<and> sv_httpServer s' \<noteq> None"
  by (cases "me_Enabled (cf_Metrics (sv_config s))") (auto simp: Start_def setupHTTPServer_def Let_def)

text \<open>The server that is made without any configuration.\<close>

lemma default_config_read:
  assumes "cfg = Load fe special (\<lambda>_. '''')"
  shows "sc_WorkerCount (cf_Server cfg) = 10" "sc_NodeID (cf_Server cfg) = ''node-1''" "ec_Algorithm (cf_Election cfg) = ''bully''"
    "\<not> se_TLSEnabled (cf_Security cfg)" "\<not> se_AuthEnabled (cf_Security cfg)"
    "me_Enabled (cf_Metrics cfg)" "me_Port (cf_Metrics cfg) = ''9090''"
  by (simp_all add: assms Load_def getEnv_def getEnvInt_def getEnvBool_def)

lemma default_server:
  assumes "services_up x" and cfg: "cfg = Load fe special (\<lambda>_. '''')"
  obtains s b where "New x fe draws now draw g cfg = Returns (Inr s)" and "made_from cfg (BullyE b) s"
proof -
  note d = default_config_read [OF cfg]
  note p = new_server [OF assms(1), where fe = fe and rs = draws and now = now and draw = draw and g = g and cfg = cfg, unfolded d]
  obtain s where s: "New x fe draws now draw g cfg = Returns (Inr s)" "made_from cfg (sv_election s) s"
    and e: "CreateElection now draw ''bully'' ''node-1'' (ec_Timeout (cf_Election cfg)) (ec_Interval (cf_Election cfg)) = Returns (Inr (sv_election s))"
    using p by (cases "New x fe draws now draw g cfg") (auto simp: created_cases split: sum.splits)
  from e obtain b where "sv_election s = BullyE b" by (cases "sv_election s") (auto simp: created_cases)
  with s show ?thesis by (intro that) simp_all
qed

lemma default_server_starts:
  assumes cfg: "cfg = Load fe special (\<lambda>_. '''')" and "sv_config s = cfg" and "sv_election s = BullyE b"
  obtains s1 where "Start later rs n s = Returns (ListenAndServe, s1)" and "Router s1 = Returns (routes False)"
    and "sv_workers s1 = sv_workers s" and "sv_authManager s1 = sv_authManager s" and "sv_pool s1 = sv_pool s"
    and "sv_registry s1 = sv_registry s" and "sv_metricsServer s1 = Some (StartMetricsServer ''9090'')"
  using assms(2,3) default_config_read [OF cfg] by (simp add: Start_def setupHTTPServer_def Router_def Let_def)

text \<open>The program of \<open>examples/simple_processor.go\<close>, which registers its processors before it starts and
  waits for no signal.\<close>

definition simple_main ::
  "('r, 'd, 'c) services \<Rightarrow> float_env \<Rightarrow> (string \<Rightarrow> real option) \<Rightarrow> environment \<Rightarrow> (nat \<Rightarrow> real) \<Rightarrow> gtime \<Rightarrow> real \<Rightarrow> 'g
    \<Rightarrow> gtime \<Rightarrow> int \<times> int \<Rightarrow> int \<Rightarrow> ('r, 'd, 'g) Server running_program outcome" where
  "simple_main x fe special env draws now draw g later rs n =
     obind (New x fe draws now draw g (Load fe special env)) (\<lambda>r. case r of
       Inl err \<Rightarrow> Returns (Fatal ''Failed to create server:'' err)
     | Inr srv \<Rightarrow>
         (let srv = Server_RegisterProcessor EmailProcessor srv;
              srv = Server_RegisterProcessor ImageProcessor srv
          in obind (Start later rs n srv) (\<lambda>(l, srv'). Returns (Serving l srv'))))"

text \<open>Without any configuration it serves with its two processors, where a worker finds them, and exports
  its metrics at the port 9090.\<close>

lemma simple_main_serves:
  assumes "services_up x"
  shows "\<exists>s. simple_main x fe special (\<lambda>_. '''') draws now draw g later rs n = Returns (Serving ListenAndServe s)
    \<and> pc_registry (sv_pool s) ''email'' = Some EmailProcessor \<and> pc_registry (sv_pool s) ''image_processing'' = Some ImageProcessor
    \<and> sv_metricsServer s = Some (StartMetricsServer ''9090'')"
proof -
  define cfg where "cfg = Load fe special (\<lambda>_. '''')"
  obtain s b where s: "New x fe draws now draw g cfg = Returns (Inr s)" "made_from cfg (BullyE b) s"
    by (rule default_server [OF assms cfg_def])
  have r: "sv_config (register_examples s) = cfg" "sv_election (register_examples s) = BullyE b"
    using s(2) by (simp_all add: register_examples_def Server_RegisterProcessor_def made_from_def)
  obtain s1 where "Start later rs n (register_examples s) = Returns (ListenAndServe, s1)"
    "sv_pool s1 = sv_pool (register_examples s)" "sv_metricsServer s1 = Some (StartMetricsServer ''9090'')"
    by (rule default_server_starts [OF cfg_def r, where later = later and rs = rs and n = n])
  with s(1) show ?thesis
    by (simp add: simple_main_def cfg_def [symmetric] register_examples_def [symmetric] registered_examples)
qed



end
